(* ===== verification/Runw_Base.thy ===== *)
theory Runw_Base
  imports Main "HOL-Library.Word"
begin

text \<open>
  The prelude of the development: the outcome of a C++ member function that fills an
  object in place, loops over such functions, the pieces of the C and C++ standard
  libraries that the sources use on strings and integers, and the collections of facts
  the component theories share.
\<close>

named_theorems outcome_simps \<open>unfolding of the outcome combinators\<close>
named_theorems outcome_splits \<open>inversion of successful runs\<close>

section \<open>Outcomes of in-place loaders\<close>

text \<open>
  A loader such as \<^verbatim>\<open>Bundle::load\<close> returns a \<^verbatim>\<open>bool\<close> and writes the fields of
  \<^verbatim>\<open>*this\<close> as it goes. \<open>Done s\<close> is a return of \<^verbatim>\<open>true\<close> with the object in state
  \<open>s\<close>, \<open>Failed s\<close> a return of \<^verbatim>\<open>false\<close> that leaves the object, partly written, in
  state \<open>s\<close>, and \<open>Undef\<close> an execution that has run into undefined behaviour.
\<close>

datatype 's outcome = Done 's | Failed 's | Undef

fun and_then :: "'s outcome \<Rightarrow> ('s \<Rightarrow> 's outcome) \<Rightarrow> 's outcome" where
  "and_then (Done s) f = f s"
| "and_then (Failed s) f = Failed s"
| "and_then Undef f = Undef"

text \<open>The range-for loop whose body may leave the function.\<close>

fun for_each :: "('a \<Rightarrow> 's \<Rightarrow> 's outcome) \<Rightarrow> 'a list \<Rightarrow> 's \<Rightarrow> 's outcome" where
  "for_each f [] s = Done s"
| "for_each f (x # xs) s = and_then (f x s) (for_each f xs)"

text \<open>The idiom \<^verbatim>\<open>if (auto Error = Element.get(X)) return false;\<close>.\<close>

definition on_get :: "'e + 'a \<Rightarrow> 's \<Rightarrow> ('a \<Rightarrow> 's outcome) \<Rightarrow> 's outcome" where
  "on_get r s k = (case r of Inl _ \<Rightarrow> Failed s | Inr v \<Rightarrow> k v)"

text \<open>
  A nested object is read into a local descriptor first; on success the descriptor is
  stored into the enclosing object, on failure it is dropped.
\<close>

definition with_local :: "'d outcome \<Rightarrow> 's \<Rightarrow> ('d \<Rightarrow> 's) \<Rightarrow> 's outcome" where
  "with_local r s k = (case r of Done d \<Rightarrow> Done (k d) | Failed _ \<Rightarrow> Failed s | Undef \<Rightarrow> Undef)"

definition is_done :: "'s outcome \<Rightarrow> bool" where
  "is_done r = (case r of Done _ \<Rightarrow> True | _ \<Rightarrow> False)"

definition is_right :: "'e + 'a \<Rightarrow> bool" where
  "is_right r = (case r of Inl _ \<Rightarrow> False | Inr _ \<Rightarrow> True)"

lemma is_done_simps [simp]:
  "is_done (Done s)" "\<not> is_done (Failed s)" "\<not> is_done Undef"
  by (simp_all add: is_done_def)

lemma is_right_simps [simp]: "is_right (Inr v)" "\<not> is_right (Inl e)"
  by (simp_all add: is_right_def)

lemma is_done_iff: "is_done r \<longleftrightarrow> (\<exists>s. r = Done s)"
  by (cases r) auto

lemma is_right_iff: "is_right r \<longleftrightarrow> (\<exists>v. r = Inr v)"
  by (cases r) auto

lemma on_get_simps [simp, outcome_simps]:
  "on_get (Inl e) s k = Failed s" "on_get (Inr v) s k = k v"
  by (simp_all add: on_get_def)

lemma with_local_simps [simp, outcome_simps]:
  "with_local (Done d) s k = Done (k d)" "with_local (Failed d) s k = Failed s"
  "with_local Undef s k = Undef"
  by (simp_all add: with_local_def)

lemma and_then_Done_iff [outcome_splits]:
  "and_then r f = Done s' \<longleftrightarrow> (\<exists>s. r = Done s \<and> f s = Done s')"
  by (cases r) auto

lemma on_get_Done_iff [outcome_splits]:
  "on_get r s k = Done s' \<longleftrightarrow> (\<exists>v. r = Inr v \<and> k v = Done s')"
  by (cases r) auto

lemma with_local_Done_iff [outcome_splits]:
  "with_local r s k = Done s' \<longleftrightarrow> (\<exists>d. r = Done d \<and> s' = k d)"
  by (cases r) auto

lemma for_each_append: "for_each f (xs @ ys) s = and_then (for_each f xs s) (for_each f ys)"
proof (induction xs arbitrary: s)
  case (Cons x xs)
  then show ?case by (cases "f x s") auto
qed simp

lemma for_each_cong_Done:
  assumes "\<And>x s. x \<in> set xs \<Longrightarrow> f x s = g x s"
  shows "for_each f xs s = for_each g xs s"
  using assms
proof (induction xs arbitrary: s)
  case (Cons x xs)
  then show ?case by (cases "g x s") auto
qed simp

subsection \<open>Interfaces of the loop: what a loop body promises, what the loop delivers\<close>

text \<open>
  A key handler decides by the member alone, never by the object being filled, whether it
  succeeds. The loop then succeeds exactly when every member is acceptable.
\<close>

locale validating_step =
  fixes step :: "'m \<Rightarrow> 's \<Rightarrow> 's outcome" and ok :: "'m \<Rightarrow> bool"
  assumes step_ok: "is_done (step m s) \<longleftrightarrow> ok m"
begin

lemma loop_ok: "is_done (for_each step ms s) \<longleftrightarrow> (\<forall>m \<in> set ms. ok m)"
proof (induction ms arbitrary: s)
  case (Cons m ms)
  then show ?case
    using step_ok [of m s] by (cases "step m s") auto
qed simp

lemma loop_permutes: "set ms = set ns \<Longrightarrow> is_done (for_each step ms s) = is_done (for_each step ns t)"
  by (simp add: loop_ok)

end

text \<open>A predicate kept by the body, on the success and on the failure path alike, is kept by the loop.\<close>

fun keeps :: "('s \<Rightarrow> bool) \<Rightarrow> 's outcome \<Rightarrow> bool" where
  "keeps P (Done s) = P s"
| "keeps P (Failed s) = P s"
| "keeps P Undef = True"

locale preserving_step =
  fixes step :: "'m \<Rightarrow> 's \<Rightarrow> 's outcome" and inv :: "'s \<Rightarrow> bool"
  assumes step_keeps: "inv s \<Longrightarrow> keeps inv (step m s)"
begin

lemma loop_keeps: "inv s \<Longrightarrow> keeps inv (for_each step ms s)"
proof (induction ms arbitrary: s)
  case (Cons m ms)
  then show ?case
    using step_keeps [of s m] by (cases "step m s") auto
qed simp

end

text \<open>
  One field of the object is written under one key only: the loop's effect on the field is
  the fold of the values found under that key.
\<close>

definition values_of :: "'k \<Rightarrow> ('k \<times> 'e) list \<Rightarrow> 'e list" where
  "values_of k ms = map snd (filter (\<lambda>m. fst m = k) ms)"

lemma values_of_simps [simp]:
  "values_of k [] = []"
  "values_of k ((k', e) # ms) = (if k' = k then e # values_of k ms else values_of k ms)"
  by (simp_all add: values_of_def)

locale field_step =
  fixes step :: "('k \<times> 'e) \<Rightarrow> 's \<Rightarrow> 's outcome"
    and proj :: "'s \<Rightarrow> 'f" and key :: 'k and upd :: "'e \<Rightarrow> 'f \<Rightarrow> 'f"
  assumes step_field: "step (k, e) s = Done s' \<Longrightarrow> proj s' = (if k = key then upd e (proj s) else proj s)"
begin

lemma loop_field:
  "for_each step ms s = Done s' \<Longrightarrow> proj s' = fold upd (values_of key ms) (proj s)"
proof (induction ms arbitrary: s)
  case (Cons m ms)
  obtain k e where m: "m = (k, e)" by (cases m)
  from Cons.prems obtain t where t: "step (k, e) s = Done t" "for_each step ms t = Done s'"
    unfolding m by (auto simp: and_then_Done_iff)
  from Cons.IH [OF t(2)] step_field [OF t(1)] show ?case
    by (simp add: m)
qed simp

end

text \<open>Members the handler does not know are skipped, so removing them changes nothing.\<close>

locale skipping_step =
  fixes step :: "('k \<times> 'e) \<Rightarrow> 's \<Rightarrow> 's outcome" and relevant :: "'k \<Rightarrow> bool"
  assumes step_skips: "\<not> relevant k \<Longrightarrow> step (k, e) s = Done s"
begin

lemma loop_skips: "for_each step (filter (\<lambda>m. relevant (fst m)) ms) s = for_each step ms s"
proof (induction ms arbitrary: s)
  case (Cons m ms)
  obtain k e where m: "m = (k, e)" by (cases m)
  show ?case
  proof (cases "relevant k")
    case True
    with Cons.IH show ?thesis by (cases "step (k, e) s") (auto simp: m)
  next
    case False
    with Cons.IH show ?thesis by (simp add: m step_skips)
  qed
qed simp

end

section \<open>Dispatch on a table of keys\<close>

text \<open>
  The reference reading of a two-level switch on \<^verbatim>\<open>Key[0]\<close> and \<^verbatim>\<open>Key\<close>: look the whole key
  up in a table of handlers, skip the member when the key is not there. Reading \<^verbatim>\<open>Key[0]\<close>
  of an empty key stays undefined.
\<close>

fun dispatch :: "(string \<times> ('e \<Rightarrow> 's \<Rightarrow> 's outcome)) list \<Rightarrow> string \<times> 'e \<Rightarrow> 's \<Rightarrow> 's outcome" where
  "dispatch table (k, e) s =
     (if k = [] then Undef else case map_of table k of None \<Rightarrow> Done s | Some h \<Rightarrow> h e s)"

text \<open>What a member must look like: its key is not empty and, if known, its value fits.\<close>

fun member_ok :: "(string \<times> ('e \<Rightarrow> bool)) list \<Rightarrow> string \<times> 'e \<Rightarrow> bool" where
  "member_ok schema (k, e) \<longleftrightarrow> k \<noteq> [] \<and> (case map_of schema k of None \<Rightarrow> True | Some p \<Rightarrow> p e)"

fun table_fits :: "(string \<times> ('e \<Rightarrow> 's \<Rightarrow> 's outcome)) list \<Rightarrow> (string \<times> ('e \<Rightarrow> bool)) list \<Rightarrow> bool" where
  "table_fits [] [] = True"
| "table_fits ((k, h) # ts) ((k', p) # ps) \<longleftrightarrow>
     k = k' \<and> (\<forall>e s. is_done (h e s) \<longleftrightarrow> p e) \<and> table_fits ts ps"
| "table_fits _ _ = False"

lemma table_fits_lookup:
  "table_fits table schema \<Longrightarrow>
     (map_of table k = None \<longleftrightarrow> map_of schema k = None) \<and>
     (\<forall>h. map_of table k = Some h \<longrightarrow>
        (\<exists>p. map_of schema k = Some p \<and> (\<forall>e s. is_done (h e s) \<longleftrightarrow> p e)))"
  by (induction table schema rule: table_fits.induct) auto

locale key_table =
  fixes table :: "(string \<times> ('e \<Rightarrow> 's \<Rightarrow> 's outcome)) list"
    and schema :: "(string \<times> ('e \<Rightarrow> bool)) list"
  assumes fits: "table_fits table schema"

sublocale key_table \<subseteq> validating_step "dispatch table" "member_ok schema"
proof
  fix m :: "string \<times> 'e" and s :: 's
  obtain k e where m: "m = (k, e)" by (cases m)
  show "is_done (dispatch table m s) = member_ok schema m"
    using table_fits_lookup [OF fits, of k]
    by (cases "map_of table k") (auto simp: m)
qed

locale key_table_inv =
  fixes table :: "(string \<times> ('e \<Rightarrow> 's \<Rightarrow> 's outcome)) list" and inv :: "'s \<Rightarrow> bool"
  assumes handlers_keep: "(k, h) \<in> set table \<Longrightarrow> inv s \<Longrightarrow> keeps inv (h e s)"

sublocale key_table_inv \<subseteq> preserving_step "dispatch table" inv
proof
  fix m :: "string \<times> 'e" and s :: 's
  assume "inv s"
  then show "keeps inv (dispatch table m s)"
    by (cases m) (auto split: option.splits dest: map_of_SomeD intro: handlers_keep)
qed

locale key_table_field =
  fixes table :: "(string \<times> ('e \<Rightarrow> 's \<Rightarrow> 's outcome)) list"
    and proj :: "'s \<Rightarrow> 'f" and key :: string and upd :: "'e \<Rightarrow> 'f \<Rightarrow> 'f"
  assumes key_known: "key \<in> fst ` set table"
    and handlers_field: "(k, h) \<in> set table \<Longrightarrow> h e s = Done s' \<Longrightarrow>
      proj s' = (if k = key then upd e (proj s) else proj s)"

sublocale key_table_field \<subseteq> field_step "dispatch table" proj key upd
proof
  fix k e s s'
  assume *: "dispatch table (k, e) s = Done s'"
  show "proj s' = (if k = key then upd e (proj s) else proj s)"
  proof (cases "map_of table k")
    case None
    with key_known have "k \<noteq> key" by (auto simp: map_of_eq_None_iff)
    with None * show ?thesis by (simp split: if_splits)
  next
    case (Some h)
    with * have "h e s = Done s'" by (simp split: if_splits)
    with handlers_field [OF map_of_SomeD [OF Some]] show ?thesis .
  qed
qed

text \<open>Any table skips the keys it does not hold.\<close>

interpretation table_skip: skipping_step "dispatch table" "\<lambda>k. k = [] \<or> k \<in> fst ` set table"
  for table :: "(string \<times> ('e \<Rightarrow> 's \<Rightarrow> 's outcome)) list"
proof
  fix k e s
  assume "\<not> (k = [] \<or> k \<in> fst ` set table)"
  then have "k \<noteq> []" "map_of table k = None" by (simp_all add: map_of_eq_None_iff)
  then show "dispatch table (k, e) s = Done s" by simp
qed

subsection \<open>Nested loops\<close>

lemma keeps_on_get: "P s \<Longrightarrow> (\<And>v. r = Inr v \<Longrightarrow> keeps P (k v)) \<Longrightarrow> keeps P (on_get r s k)"
  by (cases r) auto

lemma keeps_with_local: "P s \<Longrightarrow> (\<And>d. r = Done d \<Longrightarrow> P (k d)) \<Longrightarrow> keeps P (with_local r s k)"
  by (cases r) auto

lemma keeps_and_then: "keeps P r \<Longrightarrow> (\<And>s. P s \<Longrightarrow> keeps P (f s)) \<Longrightarrow> keeps P (and_then r f)"
  by (cases r) auto

lemma keeps_for_each:
  assumes "\<And>x s. P s \<Longrightarrow> keeps P (f x s)" "P s"
  shows "keeps P (for_each f xs s)"
proof -
  have "preserving_step f P" by unfold_locales (rule assms(1))
  from preserving_step.loop_keeps [OF this assms(2)] show ?thesis .
qed

lemmas keeps_rules = keeps_on_get keeps_with_local keeps_and_then keeps_for_each

lemma keeps_Done: "keeps P r \<Longrightarrow> r = Done s \<Longrightarrow> P s"
  by simp

lemma is_done_on_get: "is_done (on_get r s k) \<longleftrightarrow> (\<exists>v. r = Inr v \<and> is_done (k v))"
  by (cases r) auto

lemma is_done_with_local: "is_done (with_local r s k) \<longleftrightarrow> is_done r"
  by (cases r) auto

lemma is_done_for_each:
  assumes "\<And>x s. is_done (f x s) \<longleftrightarrow> ok x"
  shows "is_done (for_each f xs s) \<longleftrightarrow> list_all ok xs"
proof -
  have "validating_step f ok" by unfold_locales (rule assms)
  from validating_step.loop_ok [OF this] show ?thesis by (simp add: list_all_iff)
qed

subsection \<open>Loops without undefined behaviour\<close>

definition defined :: "'s outcome \<Rightarrow> bool" where
  "defined r \<longleftrightarrow> r \<noteq> Undef"

lemma defined_simps [simp]: "defined (Done s)" "defined (Failed s)" "\<not> defined Undef"
  by (simp_all add: defined_def)

lemma defined_on_get: "(\<And>v. r = Inr v \<Longrightarrow> defined (k v)) \<Longrightarrow> defined (on_get r s k)"
  by (cases r) auto

lemma defined_with_local: "defined r \<Longrightarrow> defined (with_local r s k)"
  by (cases r) auto

lemma defined_and_then: "defined r \<Longrightarrow> (\<And>s. defined (f s)) \<Longrightarrow> defined (and_then r f)"
  by (cases r) auto

lemma defined_for_each: "(\<And>x s. x \<in> set xs \<Longrightarrow> defined (f x s)) \<Longrightarrow> defined (for_each f xs s)"
  by (induction xs arbitrary: s) (auto intro!: defined_and_then)

text \<open>A dispatching loop over members with nonempty keys, if the handlers of the table are defined.\<close>

lemma defined_dispatch:
  assumes "[] \<notin> fst ` set ms" "\<And>k h e s. (k, h) \<in> set table \<Longrightarrow> defined (h e s)"
  shows "defined (for_each (dispatch table) ms s)"
proof (rule defined_for_each)
  fix m s assume "m \<in> set ms"
  with assms(1) have "fst m \<noteq> []" by force
  with assms(2) show "defined (dispatch table m s)"
    by (cases m) (auto split: option.split dest: map_of_SomeD)
qed

text \<open>The members a loop with the keys \<open>ks\<close> looks at.\<close>

definition known :: "string list \<Rightarrow> (string \<times> 'e) list \<Rightarrow> (string \<times> 'e) list" where
  "known ks ms = filter (\<lambda>m. fst m = [] \<or> fst m \<in> set ks) ms"

lemma known_skips: "map fst table = ks \<Longrightarrow> for_each (dispatch table) (known ks ms) s = for_each (dispatch table) ms s"
  using table_skip.loop_skips [of table ms s] by (auto simp: known_def)

lemma known_lookup: "k \<in> set ks \<Longrightarrow> map_of (known ks ms) k = map_of ms k"
  by (induction ms) (auto simp: known_def)

end
