(* ===== verification/Runw_Text.thy ===== *)
theory Runw_Text
  imports Runw_Base
begin

text \<open>
  The operations of the C and C++ standard libraries on strings that the sources call: stream
  output of integers, \<^verbatim>\<open>isdigit\<close> and \<^verbatim>\<open>toupper\<close> of the C locale, \<^verbatim>\<open>find\<close> and \<^verbatim>\<open>substr\<close>,
  \<^verbatim>\<open>std::filesystem::path\<close> concatenation, and the calendar behind \<^verbatim>\<open>gmtime\<close>/\<^verbatim>\<open>strftime\<close>.
\<close>

section \<open>Decimal numbers\<close>

definition char_val :: "char \<Rightarrow> int" where
  "char_val c = int (of_char c)"

definition is_digit :: "char \<Rightarrow> bool" where
  "is_digit c \<longleftrightarrow> 48 \<le> char_val c \<and> char_val c \<le> 57"

definition digit_char :: "nat \<Rightarrow> char" where
  "digit_char d = char_of (48 + d)"

lemma char_val_digit: "d < 10 \<Longrightarrow> char_val (digit_char d) = 48 + int d"
  by (simp add: char_val_def digit_char_def)

lemma is_digit_digit_char: "d < 10 \<Longrightarrow> is_digit (digit_char d)"
  by (simp add: is_digit_def char_val_digit)

fun show_nat :: "nat \<Rightarrow> string" where
  "show_nat n = (if n < 10 then [digit_char n] else show_nat (n div 10) @ [digit_char (n mod 10)])"

declare show_nat.simps [simp del]

definition show_int :: "int \<Rightarrow> string" where
  "show_int i = (if i < 0 then CHR ''-'' # show_nat (nat (- i)) else show_nat (nat i))"

text \<open>The value of a digit string, read from the left.\<close>

definition dec_step :: "int \<Rightarrow> char \<Rightarrow> int" where
  "dec_step v c = v * 10 + (char_val c - 48)"

definition dec_value :: "string \<Rightarrow> int" where
  "dec_value s = foldl dec_step 0 s"

lemma dec_value_snoc [simp]: "dec_value (s @ [c]) = dec_step (dec_value s) c"
  by (simp add: dec_value_def)

lemma show_nat_digits: "list_all is_digit (show_nat n)"
proof (induction n rule: show_nat.induct)
  case (1 n)
  then show ?case
    by (subst show_nat.simps) (auto simp: is_digit_digit_char)
qed

lemma show_nat_nonempty [simp]: "show_nat n \<noteq> []"
  by (subst show_nat.simps) simp

lemma dec_value_show_nat [simp]: "dec_value (show_nat n) = int n"
proof (induction n rule: show_nat.induct)
  case (1 n)
  show ?case
  proof (cases "n < 10")
    case True
    then show ?thesis
      by (subst show_nat.simps) (simp add: dec_value_def dec_step_def char_val_digit)
  next
    case False
    with 1 have "dec_value (show_nat (n div 10)) = int (n div 10)" by simp
    moreover have "int (n div 10) * 10 + int (n mod 10) = int n" by presburger
    ultimately show ?thesis
      using False by (subst show_nat.simps) (simp add: dec_step_def char_val_digit)
  qed
qed

lemma dec_value_nonneg: "list_all is_digit s \<Longrightarrow> 0 \<le> dec_value s"
proof (induction s rule: rev_induct)
  case (snoc c s)
  then show ?case by (simp add: dec_step_def is_digit_def)
qed (simp add: dec_value_def)

lemma foldl_dec_ge:
  "list_all is_digit s \<Longrightarrow> 0 \<le> v \<Longrightarrow> v \<le> foldl dec_step v s"
proof (induction s arbitrary: v)
  case (Cons c s)
  then have "0 \<le> dec_step v c" "v \<le> dec_step v c" by (auto simp: dec_step_def is_digit_def)
  with Cons show ?case by fastforce
qed simp

section \<open>Search and extraction\<close>

text \<open>\<^verbatim>\<open>s.find(c, pos)\<close>: the first position not before \<open>pos\<close>, or \<^verbatim>\<open>npos\<close>.\<close>

fun find_from :: "nat \<Rightarrow> (char \<Rightarrow> bool) \<Rightarrow> string \<Rightarrow> nat option" where
  "find_from i p [] = None"
| "find_from i p (x # xs) =
     (case i of 0 \<Rightarrow> if p x then Some 0 else map_option Suc (find_from 0 p xs)
      | Suc j \<Rightarrow> map_option Suc (find_from j p xs))"

definition find_char :: "string \<Rightarrow> char \<Rightarrow> nat \<Rightarrow> nat option" where
  "find_char s c pos = find_from pos (\<lambda>x. x = c) s"

lemma find_char_None:
  "find_char s c pos = None \<longleftrightarrow> c \<notin> set (drop pos s)"
  unfolding find_char_def
  by (induction pos "\<lambda>x. x = c" s rule: find_from.induct) (auto split: nat.splits)

lemma find_char_Some:
  "find_char s c pos = Some i \<Longrightarrow>
     i < length s \<and> s ! i = c \<and> pos \<le> i \<and> (\<forall>j. pos \<le> j \<and> j < i \<longrightarrow> s ! j \<noteq> c)"
proof (induction s arbitrary: i pos)
  case (Cons x xs)
  show ?case
  proof (cases pos)
    case 0
    show ?thesis
    proof (cases "x = c")
      case True
      with Cons.prems 0 show ?thesis by (simp add: find_char_def)
    next
      case False
      with Cons.prems 0 obtain k where k: "find_char xs c 0 = Some k" "i = Suc k"
        by (auto simp: find_char_def)
      from Cons.IH [OF k(1)] k(2) False 0 show ?thesis
        by (auto simp: nth_Cons split: nat.splits)
    qed
  next
    case (Suc m)
    with Cons.prems obtain k where k: "find_char xs c m = Some k" "i = Suc k"
      by (auto simp: find_char_def)
    from Cons.IH [OF k(1)] k(2) Suc show ?thesis
      by (auto simp: nth_Cons split: nat.splits)
  qed
qed (simp add: find_char_def)

text \<open>\<^verbatim>\<open>s.find(pat)\<close> for a string.\<close>

definition starts_with :: "string \<Rightarrow> string \<Rightarrow> bool" where
  "starts_with p s \<longleftrightarrow> take (length p) s = p"

fun find_str :: "string \<Rightarrow> string \<Rightarrow> nat option" where
  "find_str pat [] = (if pat = [] then Some 0 else None)"
| "find_str pat (x # xs) =
     (if starts_with pat (x # xs) then Some 0 else map_option Suc (find_str pat xs))"

lemma find_str_Some: "find_str pat s = Some i \<Longrightarrow> i + length pat \<le> length s \<and> take (length pat) (drop i s) = pat"
proof (induction s arbitrary: i)
  case (Cons x xs)
  show ?case
  proof (cases "starts_with pat (x # xs)")
    case True
    then have "length pat \<le> Suc (length xs)"
      unfolding starts_with_def by (metis length_Cons length_take min.cobounded1)
    with True Cons.prems show ?thesis by (simp add: starts_with_def)
  next
    case False
    with Cons.prems obtain k where k: "find_str pat xs = Some k" "i = Suc k" by auto
    from Cons.IH [OF k(1)] k(2) show ?thesis by simp
  qed
qed (auto split: if_splits)

text \<open>\<^verbatim>\<open>s.substr(pos)\<close> and \<^verbatim>\<open>s.substr(pos, n)\<close>, with \<open>None\<close> for a count of \<^verbatim>\<open>npos\<close>.\<close>

definition substr :: "string \<Rightarrow> nat \<Rightarrow> nat option \<Rightarrow> string" where
  "substr s pos n = (case n of None \<Rightarrow> drop pos s | Some k \<Rightarrow> take k (drop pos s))"

section \<open>Characters of the C locale\<close>

definition to_upper :: "char \<Rightarrow> char" where
  "to_upper c = (if 97 \<le> char_val c \<and> char_val c \<le> 122 then char_of (nat (char_val c - 32)) else c)"

lemma char_val_bounds: "0 \<le> char_val c" "char_val c < 256"
  by (simp_all add: char_val_def of_char_def) 

lemma char_val_inj: "char_val c = char_val d \<longleftrightarrow> c = d"
  by (simp add: char_val_def)

lemma char_val_to_upper:
  "char_val (to_upper c) = (if 97 \<le> char_val c \<and> char_val c \<le> 122 then char_val c - 32 else char_val c)"
proof (cases "97 \<le> char_val c \<and> char_val c \<le> 122")
  case True
  then have "nat (char_val c - 32) < 256" by arith
  with True show ?thesis by (simp add: to_upper_def char_val_def)
qed (auto simp: to_upper_def)

lemma to_upper_idem [simp]: "to_upper (to_upper c) = to_upper c"
proof -
  have "char_val (to_upper (to_upper c)) = char_val (to_upper c)"
    by (simp add: char_val_to_upper)
  then show ?thesis by (simp add: char_val_inj)
qed

lemma is_digit_to_upper [simp]: "is_digit (to_upper c) = is_digit c"
  by (auto simp: is_digit_def char_val_to_upper)

lemma to_upper_digit: "is_digit c \<Longrightarrow> to_upper c = c"
  by (simp add: is_digit_def to_upper_def)

section \<open>Paths\<close>

text \<open>
  \<^verbatim>\<open>operator/\<close> of \<^verbatim>\<open>std::filesystem::path\<close> on POSIX: an absolute right side replaces the left
  one; otherwise a separator is inserted when the left side ends in a file name.
\<close>

definition is_absolute :: "string \<Rightarrow> bool" where
  "is_absolute p = (case p of [] \<Rightarrow> False | c # _ \<Rightarrow> c = CHR ''/'')"

definition path_append :: "string \<Rightarrow> string \<Rightarrow> string" where
  "path_append p q =
     (if is_absolute q then q
      else if p \<noteq> [] \<and> last p \<noteq> CHR ''/'' then p @ CHR ''/'' # q
      else p @ q)"

text \<open>The components of a path, empty names and dots dropped, and lexical resolution of dot-dot.\<close>

fun split_on :: "char \<Rightarrow> string \<Rightarrow> string list" where
  "split_on d [] = [[]]"
| "split_on d (c # s) =
     (if c = d then [] # split_on d s
      else (case split_on d s of [] \<Rightarrow> [[c]] | w # ws \<Rightarrow> (c # w) # ws))"

definition components :: "string \<Rightarrow> string list" where
  "components p = filter (\<lambda>w. w \<noteq> [] \<and> w \<noteq> ''.'') (split_on CHR ''/'' p)"

fun walk :: "string list \<Rightarrow> string list \<Rightarrow> string list" where
  "walk acc [] = acc"
| "walk acc (w # ws) = (if w = ''..'' then walk (butlast acc) ws else walk (acc @ [w]) ws)"

definition resolve :: "string list \<Rightarrow> string \<Rightarrow> string list" where
  "resolve cwd p = walk (if is_absolute p then [] else cwd) (components p)"

lemma split_on_nonempty [simp]: "split_on d s \<noteq> []"
  by (induction s) (auto split: list.split)

lemma split_on_append:
  "split_on d (s @ d # t) = split_on d s @ split_on d t"
proof (induction s)
  case (Cons c s)
  then show ?case
    by (cases "split_on d s") (auto split: list.split)
qed simp

lemma split_on_no_sep: "d \<notin> set s \<Longrightarrow> split_on d s = [s]"
  by (induction s) auto

lemma components_append: "components (p @ CHR ''/'' # q) = components p @ components q"
  by (simp add: components_def split_on_append)

lemma walk_append: "walk acc (xs @ ys) = walk (walk acc xs) ys"
  by (induction acc xs rule: walk.induct) auto

text \<open>A plain file name: one component, neither a dot nor dot-dot.\<close>

definition plain_name :: "string \<Rightarrow> bool" where
  "plain_name n \<longleftrightarrow> n \<noteq> [] \<and> CHR ''/'' \<notin> set n \<and> n \<noteq> ''.'' \<and> n \<noteq> ''..''"

lemma components_plain: "plain_name n \<Longrightarrow> components n = [n]"
  by (simp add: components_def plain_name_def split_on_no_sep)

lemma components_snoc_sep: "components (p @ ''/'') = components p"
  using components_append [of p "[]"] by (simp add: components_def)

lemma resolve_append:
  assumes "plain_name n" "p \<noteq> []"
  shows "resolve cwd (path_append p n) = resolve cwd p @ [n]"
proof -
  from assms have rel: "\<not> is_absolute n" by (cases n) (auto simp: plain_name_def is_absolute_def)
  have ndd: "n \<noteq> ''..''" using assms by (simp add: plain_name_def)
  have abs: "is_absolute (p @ x) = is_absolute p" for x
    using assms(2) by (cases p) (auto simp: is_absolute_def)
  show ?thesis
  proof (cases "last p = CHR ''/''")
    case False
    with rel assms(2) have "path_append p n = p @ CHR ''/'' # n" by (simp add: path_append_def)
    then show ?thesis
      by (simp add: resolve_def abs components_append components_plain [OF assms(1)] walk_append ndd)
  next
    case True
    with assms(2) obtain p' where p': "p = p' @ ''/''"
      by (metis append_butlast_last_id)
    with rel True assms(2) have "path_append p n = p' @ CHR ''/'' # n" by (simp add: path_append_def)
    moreover have "components p = components p'" by (simp add: p' components_snoc_sep)
    moreover have "is_absolute (p' @ CHR ''/'' # n) = is_absolute p"
      by (cases p') (auto simp: p' is_absolute_def)
    ultimately show ?thesis
      by (simp add: resolve_def components_append components_plain [OF assms(1)] walk_append ndd)
  qed
qed

end
