(* ===== verification/Simdjson_DOM.thy ===== *)
theory Simdjson_DOM
  imports Runw_Text
begin

text \<open>
  The interface of the \<^verbatim>\<open>simdjson\<close> DOM that \<^verbatim>\<open>bundle.cpp\<close> and \<^verbatim>\<open>state.cpp\<close> call. The
  library itself is not part of the repository, so its operations are the fields of a
  record \<open>simdjson\<close> that every definition using it takes as an argument; the type of DOM
  elements is the parameter \<open>'el\<close>. \<open>dom_laws\<close> collects the documented behaviour that some
  of the results rely on. The checked integer accessor \<open>get_int\<close> is the repository's own
  (\<^verbatim>\<open>bundle.cpp\<close>).
\<close>

section \<open>The parameter\<close>

text \<open>The two error codes the sources name, and all others.\<close>

datatype simdjson_error = NUMBER_OUT_OF_RANGE | NO_SUCH_FIELD | Other_error nat

type_synonym 'el object = "(string \<times> 'el) list"

text \<open>
  A \<^verbatim>\<open>dom::object\<close> is the list of its members in document order (what the range-for loops
  see), a \<^verbatim>\<open>dom::array\<close> the list of its elements. \<open>at_key\<close> is \<^verbatim>\<open>object::operator[]\<close>,
  \<open>element_at\<close> is \<^verbatim>\<open>element::operator[]\<close>, and \<open>get_\<dots>\<close> are the instances of
  \<^verbatim>\<open>element::get\<close>.
\<close>

record 'el simdjson =
  get_object :: "'el \<Rightarrow> simdjson_error + 'el object"
  get_array :: "'el \<Rightarrow> simdjson_error + 'el list"
  get_string :: "'el \<Rightarrow> simdjson_error + string"
  get_bool :: "'el \<Rightarrow> simdjson_error + bool"
  get_int64 :: "'el \<Rightarrow> simdjson_error + int"
  get_uint64 :: "'el \<Rightarrow> simdjson_error + int"
  at_key :: "'el object \<Rightarrow> string \<Rightarrow> simdjson_error + 'el"
  element_at :: "'el \<Rightarrow> string \<Rightarrow> simdjson_error + 'el"
  parse_json :: "string \<Rightarrow> simdjson_error + 'el"

text \<open>
  \<^verbatim>\<open>Object[Key].get(X)\<close>: the error of the lookup, or else what \<^verbatim>\<open>get\<close> says of the element
  found.
\<close>

definition get_at :: "simdjson_error + 'el \<Rightarrow> ('el \<Rightarrow> simdjson_error + 'a) \<Rightarrow> simdjson_error + 'a" where
  "get_at r get = (case r of Inl e \<Rightarrow> Inl e | Inr el \<Rightarrow> get el)"

lemma get_at_simps [simp]: "get_at (Inl e) get = Inl e" "get_at (Inr el) get = get el"
  by (simp_all add: get_at_def)

lemma get_at_Inr_iff: "get_at r get = Inr v \<longleftrightarrow> (\<exists>el. r = Inr el \<and> get el = Inr v)"
  by (cases r) auto

section \<open>Documented behaviour\<close>

text \<open>
  The integer accessors return values of their type; \<^verbatim>\<open>operator[]\<close> on an object finds the
  first member with the key and reports \<^verbatim>\<open>NO_SUCH_FIELD\<close> otherwise; on an element it is the
  object's, after \<^verbatim>\<open>get<object>\<close>.
\<close>

definition int64_law :: "('el, 'z) simdjson_scheme \<Rightarrow> bool" where
  "int64_law D \<longleftrightarrow> (\<forall>el v. get_int64 D el = Inr v \<longrightarrow> - (2 ^ 63) \<le> v \<and> v < 2 ^ 63)"

definition uint64_law :: "('el, 'z) simdjson_scheme \<Rightarrow> bool" where
  "uint64_law D \<longleftrightarrow> (\<forall>el v. get_uint64 D el = Inr v \<longrightarrow> 0 \<le> v \<and> v < 2 ^ 64)"

definition at_key_law :: "('el, 'z) simdjson_scheme \<Rightarrow> bool" where
  "at_key_law D \<longleftrightarrow>
     (\<forall>ms k. at_key D ms k = (case map_of ms k of None \<Rightarrow> Inl NO_SUCH_FIELD | Some el \<Rightarrow> Inr el))"

definition element_at_law :: "('el, 'z) simdjson_scheme \<Rightarrow> bool" where
  "element_at_law D \<longleftrightarrow>
     (\<forall>el k. element_at D el k = (case get_object D el of Inl e \<Rightarrow> Inl e | Inr ms \<Rightarrow> at_key D ms k))"

definition dom_laws :: "('el, 'z) simdjson_scheme \<Rightarrow> bool" where
  "dom_laws D \<longleftrightarrow> int64_law D \<and> uint64_law D \<and> at_key_law D \<and> element_at_law D"

lemma element_at_object:
  assumes "dom_laws D" "get_object D el = Inr ms"
  shows "element_at D el k = (case map_of ms k of None \<Rightarrow> Inl NO_SUCH_FIELD | Some el \<Rightarrow> Inr el)"
  using assms by (auto simp: dom_laws_def at_key_law_def element_at_law_def split: sum.splits)

section \<open>Checked integers: \<^verbatim>\<open>get_int\<close>\<close>

text \<open>
  The template \<^verbatim>\<open>get_int<T>\<close> is used at three integer types. The buffer it reads into is
  \<^verbatim>\<open>int64_t\<close> for a signed and \<^verbatim>\<open>uint64_t\<close> for an unsigned \<^verbatim>\<open>T\<close>.
\<close>

datatype c_int = Int32 | UInt32 | UInt64

fun c_signed :: "c_int \<Rightarrow> bool" where
  "c_signed Int32 = True" | "c_signed UInt32 = False" | "c_signed UInt64 = False"

fun c_min :: "c_int \<Rightarrow> int" where
  "c_min Int32 = - 2147483648" | "c_min UInt32 = 0" | "c_min UInt64 = 0"

fun c_max :: "c_int \<Rightarrow> int" where
  "c_max Int32 = 2147483647" | "c_max UInt32 = 4294967295" | "c_max UInt64 = 18446744073709551615"

definition in_c_range :: "c_int \<Rightarrow> int \<Rightarrow> bool" where
  "in_c_range T v \<longleftrightarrow> c_min T \<le> v \<and> v \<le> c_max T"

definition get_int :: "('el, 'z) simdjson_scheme \<Rightarrow> c_int \<Rightarrow> 'el \<Rightarrow> simdjson_error + int" where
  "get_int D T Element =
     (case (if c_signed T then get_int64 D Element else get_uint64 D Element) of
        Inl Error \<Rightarrow> Inl Error
      | Inr Buffer \<Rightarrow>
          if Buffer < c_min T \<or> Buffer > c_max T then Inl NUMBER_OUT_OF_RANGE else Inr Buffer)"

lemma get_int_range: "get_int D T el = Inr v \<Longrightarrow> in_c_range T v"
  by (auto simp: get_int_def in_c_range_def split: sum.splits if_splits)

lemma get_int_Inr_iff:
  "get_int D T el = Inr v \<longleftrightarrow>
     (if c_signed T then get_int64 D el else get_uint64 D el) = Inr v \<and> in_c_range T v"
  by (auto simp: get_int_def in_c_range_def split: sum.splits if_splits)

text \<open>At \<^verbatim>\<open>uint64_t\<close> the range check never fires: the accessor is exact.\<close>

lemma get_int_uint64: "uint64_law D \<Longrightarrow> get_int D UInt64 el = get_uint64 D el"
  by (cases "get_uint64 D el") (force simp: get_int_def uint64_law_def)+

section \<open>A concrete DOM\<close>

text \<open>
  A small DOM over a datatype of JSON values, the instance at which results with a
  hypothesis on the parameter are evaluated. Its parser slot is filled by the theory of
  printed state files.
\<close>

datatype json =
    JObject "(string \<times> json) list" | JArray "json list" | JString string
  | JInt int | JBool bool | JNull

definition json_dom :: "(string \<Rightarrow> simdjson_error + json) \<Rightarrow> json simdjson" where
  "json_dom parse =
     \<lparr>get_object = (\<lambda>el. case el of JObject ms \<Rightarrow> Inr ms | _ \<Rightarrow> Inl (Other_error 17)),
      get_array = (\<lambda>el. case el of JArray xs \<Rightarrow> Inr xs | _ \<Rightarrow> Inl (Other_error 17)),
      get_string = (\<lambda>el. case el of JString s \<Rightarrow> Inr s | _ \<Rightarrow> Inl (Other_error 17)),
      get_bool = (\<lambda>el. case el of JBool b \<Rightarrow> Inr b | _ \<Rightarrow> Inl (Other_error 17)),
      get_int64 = (\<lambda>el. case el of
          JInt v \<Rightarrow> if - 9223372036854775808 \<le> v \<and> v \<le> 9223372036854775807 then Inr v
                     else Inl NUMBER_OUT_OF_RANGE
        | _ \<Rightarrow> Inl (Other_error 17)),
      get_uint64 = (\<lambda>el. case el of
          JInt v \<Rightarrow> if 0 \<le> v \<and> v \<le> 18446744073709551615 then Inr v
                     else Inl NUMBER_OUT_OF_RANGE
        | _ \<Rightarrow> Inl (Other_error 17)),
      at_key = (\<lambda>ms k. case map_of ms k of None \<Rightarrow> Inl NO_SUCH_FIELD | Some el \<Rightarrow> Inr el),
      element_at = (\<lambda>el k. case el of
          JObject ms \<Rightarrow> (case map_of ms k of None \<Rightarrow> Inl NO_SUCH_FIELD | Some v \<Rightarrow> Inr v)
        | _ \<Rightarrow> Inl (Other_error 17)),
      parse_json = parse\<rparr>"

lemma json_dom_sel [simp]:
  "get_object (json_dom p) (JObject ms) = Inr ms"
  "get_array (json_dom p) (JArray xs) = Inr xs"
  "get_string (json_dom p) (JString s) = Inr s"
  "get_bool (json_dom p) (JBool b) = Inr b"
  "get_int64 (json_dom p) (JInt v) =
     (if - 9223372036854775808 \<le> v \<and> v \<le> 9223372036854775807 then Inr v
      else Inl NUMBER_OUT_OF_RANGE)"
  "get_uint64 (json_dom p) (JInt v) =
     (if 0 \<le> v \<and> v \<le> 18446744073709551615 then Inr v else Inl NUMBER_OUT_OF_RANGE)"
  "at_key (json_dom p) ms k = (case map_of ms k of None \<Rightarrow> Inl NO_SUCH_FIELD | Some el \<Rightarrow> Inr el)"
  "element_at (json_dom p) (JObject ms) k =
     (case map_of ms k of None \<Rightarrow> Inl NO_SUCH_FIELD | Some el \<Rightarrow> Inr el)"
  "parse_json (json_dom p) = p"
  by (simp_all add: json_dom_def)

lemma json_dom_laws: "dom_laws (json_dom p)"
proof -
  have "int64_law (json_dom p)"
    by (auto simp: int64_law_def json_dom_def split: json.splits if_splits)
  moreover have "uint64_law (json_dom p)"
    by (auto simp: uint64_law_def json_dom_def split: json.splits if_splits)
  moreover have "at_key_law (json_dom p)" "element_at_law (json_dom p)"
    by (auto simp: at_key_law_def element_at_law_def json_dom_def split: json.splits)
  ultimately show ?thesis by (simp add: dom_laws_def)
qed

end
