(* ===== verification/Bundle_Config.thy ===== *)
theory Bundle_Config
  imports Simdjson_DOM
begin

text \<open>
  The bundle configuration: \<^verbatim>\<open>include/bundle.h\<close> (class \<^verbatim>\<open>Bundle\<close> and its descriptors) and
  \<^verbatim>\<open>src/bundle.cpp\<close> (\<^verbatim>\<open>Bundle::load\<close>). One definition per lambda of \<^verbatim>\<open>load\<close> and one per
  loop body; each switch on \<^verbatim>\<open>Key[0]\<close> is kept as it is written. Reading \<^verbatim>\<open>Key[0]\<close> of an
  empty \<^verbatim>\<open>string_view\<close> is undefined behaviour.
\<close>

section \<open>Data\<close>

record mount_desc =
  MntDestination :: string
  MntSource :: string
  MntType :: string
  MntOptions :: "string list"

record namespace_desc =
  NsType :: string
  NsPath :: string

record id_mapping_desc =
  MapContainerId :: int
  MapHostId :: int
  MapSize :: int

record device_desc =
  DevType :: string
  DevPath :: string
  DevMajor :: int
  DevMinor :: int
  DevFileMode :: int
  DevUid :: int
  DevGid :: int

text \<open>The data members of \<^verbatim>\<open>Bundle\<close>, in the order of the header.\<close>

record Bundle =
  OCIVersion :: string
  Terminal :: bool
  ConsoleWidth :: int
  ConsoleHeight :: int
  Cwd :: string
  Envs :: "string list"
  Args :: "string list"
  Cmds :: "string list"
  CommandLine :: string
  RLimits :: "(string \<times> int \<times> int) list"
  ApparmorProfile :: string
  SelinuxLabel :: string
  EffectiveCapabilities :: "string list"
  BoundingCapabilities :: "string list"
  InheritableCapabilities :: "string list"
  PermittedCapabilities :: "string list"
  AmbientCapabilities :: "string list"
  NoNewPrivileges :: bool
  OomScoreAdj :: int
  Uid :: int
  Gid :: int
  UMask :: int
  AdditionalGids :: "int list"
  Username :: string
  Hostname :: string
  RootPath :: string
  RootReadonly :: bool
  Mounts :: "mount_desc list"
  Namespaces :: "namespace_desc list"
  UidMappings :: "id_mapping_desc list"
  GidMappings :: "id_mapping_desc list"
  Devices :: "device_desc list"
  CgroupsPath :: string
  ResourcesMemoryLimit :: int
  ResourcesMemoryReservation :: int

definition empty_mount :: mount_desc where
  "empty_mount = \<lparr>MntDestination = [], MntSource = [], MntType = [], MntOptions = []\<rparr>"

definition empty_namespace :: namespace_desc where
  "empty_namespace = \<lparr>NsType = [], NsPath = []\<rparr>"

definition empty_mapping :: id_mapping_desc where
  "empty_mapping = \<lparr>MapContainerId = 0, MapHostId = 0, MapSize = 0\<rparr>"

definition empty_device :: device_desc where
  "empty_device = \<lparr>DevType = [], DevPath = [], DevMajor = 0, DevMinor = 0, DevFileMode = 0,
     DevUid = 0, DevGid = 0\<rparr>"

definition empty_bundle :: Bundle where
  "empty_bundle = \<lparr>OCIVersion = [], Terminal = False, ConsoleWidth = 0, ConsoleHeight = 0,
     Cwd = [], Envs = [], Args = [], Cmds = [], CommandLine = [], RLimits = [],
     ApparmorProfile = [], SelinuxLabel = [], EffectiveCapabilities = [],
     BoundingCapabilities = [], InheritableCapabilities = [], PermittedCapabilities = [],
     AmbientCapabilities = [], NoNewPrivileges = False, OomScoreAdj = 0, Uid = 0, Gid = 0,
     UMask = 0, AdditionalGids = [], Username = [], Hostname = [], RootPath = [],
     RootReadonly = False, Mounts = [], Namespaces = [], UidMappings = [], GidMappings = [],
     Devices = [], CgroupsPath = [], ResourcesMemoryLimit = 0, ResourcesMemoryReservation = 0\<rparr>"

section \<open>Operations\<close>

text \<open>
  The loop \<^verbatim>\<open>for (const auto &X : Array) { if (X.get(Str)) return false; V.emplace_back(Str); }\<close>,
  which occurs for arguments, environment, capabilities, mount options and commands; \<open>push\<close>
  is the vector that grows.
\<close>

definition push_strings ::
  "('el, 'z) simdjson_scheme \<Rightarrow> (string \<Rightarrow> 's \<Rightarrow> 's) \<Rightarrow> 'el list \<Rightarrow> 's \<Rightarrow> 's outcome" where
  "push_strings D push = for_each (\<lambda>el s. on_get (get_string D el) s (\<lambda>str. Done (push str s)))"

subsection \<open>\<^verbatim>\<open>loadProcess\<close>\<close>

fun consoleSize_key ::
  "('el, 'z) simdjson_scheme \<Rightarrow> string \<times> 'el \<Rightarrow> Bundle \<Rightarrow> Bundle outcome" where
  "consoleSize_key D (Key, Element) b =
     (case Key of [] \<Rightarrow> Undef | c # _ \<Rightarrow>
        if c = CHR ''h'' then
          if Key = ''height'' then
            on_get (get_int D UInt32 Element) b (\<lambda>v. Done (b\<lparr>ConsoleHeight := v\<rparr>))
          else Done b
        else if c = CHR ''w'' then
          if Key = ''width'' then
            on_get (get_int D UInt32 Element) b (\<lambda>v. Done (b\<lparr>ConsoleWidth := v\<rparr>))
          else Done b
        else Done b)"

definition loadCapability ::
  "('el, 'z) simdjson_scheme \<Rightarrow> 'el object \<Rightarrow> string \<Rightarrow> (string \<Rightarrow> Bundle \<Rightarrow> Bundle)
     \<Rightarrow> Bundle \<Rightarrow> Bundle outcome" where
  "loadCapability D Capabilities Key push b =
     (case get_at (at_key D Capabilities Key) (get_array D) of
        Inl Error \<Rightarrow> if Error = NO_SUCH_FIELD then Done b else Failed b
      | Inr Names \<Rightarrow> push_strings D push Names b)"

definition loadCapabilities ::
  "('el, 'z) simdjson_scheme \<Rightarrow> 'el object \<Rightarrow> Bundle \<Rightarrow> Bundle outcome" where
  "loadCapabilities D Capabilities b =
     and_then (loadCapability D Capabilities ''effective''
                 (\<lambda>s b. b\<lparr>EffectiveCapabilities := EffectiveCapabilities b @ [s]\<rparr>) b) (\<lambda>b.
     and_then (loadCapability D Capabilities ''bounding''
                 (\<lambda>s b. b\<lparr>BoundingCapabilities := BoundingCapabilities b @ [s]\<rparr>) b) (\<lambda>b.
     and_then (loadCapability D Capabilities ''inheritable''
                 (\<lambda>s b. b\<lparr>InheritableCapabilities := InheritableCapabilities b @ [s]\<rparr>) b) (\<lambda>b.
     and_then (loadCapability D Capabilities ''permitted''
                 (\<lambda>s b. b\<lparr>PermittedCapabilities := PermittedCapabilities b @ [s]\<rparr>) b) (\<lambda>b.
     loadCapability D Capabilities ''ambient''
                 (\<lambda>s b. b\<lparr>AmbientCapabilities := AmbientCapabilities b @ [s]\<rparr>) b))))"

definition rlimit_entry ::
  "('el, 'z) simdjson_scheme \<Rightarrow> 'el \<Rightarrow> Bundle \<Rightarrow> Bundle outcome" where
  "rlimit_entry D RLimit b =
     on_get (get_object D RLimit) b (\<lambda>RLimitObject.
     on_get (get_at (at_key D RLimitObject ''type'') (get_string D)) b (\<lambda>Type.
     on_get (get_at (at_key D RLimitObject ''soft'') (get_int64 D)) b (\<lambda>Soft.
     on_get (get_at (at_key D RLimitObject ''hard'') (get_int64 D)) b (\<lambda>Hard.
     Done (b\<lparr>RLimits := RLimits b @ [(Type, Soft, Hard)]\<rparr>)))))"

fun user_key ::
  "('el, 'z) simdjson_scheme \<Rightarrow> string \<times> 'el \<Rightarrow> Bundle \<Rightarrow> Bundle outcome" where
  "user_key D (Key, Element) b =
     (case Key of [] \<Rightarrow> Undef | c # _ \<Rightarrow>
        if c = CHR ''u'' then
          if Key = ''uid'' then
            on_get (get_int D Int32 Element) b (\<lambda>v. Done (b\<lparr>Uid := v\<rparr>))
          else if Key = ''umask'' then
            on_get (get_int D Int32 Element) b (\<lambda>v. Done (b\<lparr>UMask := v\<rparr>))
          else Done b
        else if c = CHR ''g'' then
          if Key = ''gid'' then
            on_get (get_int D Int32 Element) b (\<lambda>v. Done (b\<lparr>Gid := v\<rparr>))
          else Done b
        else if c = CHR ''a'' then
          if Key = ''additionalGids'' then
            on_get (get_array D Element) b (\<lambda>AGids.
              for_each (\<lambda>AGid b. on_get (get_int D Int32 AGid) b (\<lambda>v.
                 Done (b\<lparr>AdditionalGids := AdditionalGids b @ [v]\<rparr>))) AGids b)
          else Done b
        else Done b)"

fun process_key ::
  "('el, 'z) simdjson_scheme \<Rightarrow> 'el object \<Rightarrow> string \<times> 'el \<Rightarrow> Bundle \<Rightarrow> Bundle outcome" where
  "process_key D Process (Key, Element) b =
     (case Key of [] \<Rightarrow> Undef | c # _ \<Rightarrow>
        if c = CHR ''a'' then
          if Key = ''args'' then
            on_get (get_array D Element) b (\<lambda>As.
              push_strings D (\<lambda>s b. b\<lparr>Args := Args b @ [s]\<rparr>) As b)
          else Done b
        else if c = CHR ''c'' then
          if Key = ''consoleSize'' then
            on_get (get_object D Element) b (\<lambda>ConsoleSize.
              for_each (consoleSize_key D) ConsoleSize b)
          else if Key = ''cwd'' then
            on_get (get_string D Element) b (\<lambda>s. Done (b\<lparr>Cwd := s\<rparr>))
          else if Key = ''capabilities'' then
            on_get (get_object D Element) b (\<lambda>Capabilities. loadCapabilities D Capabilities b)
          else Done b
        else if c = CHR ''e'' then
          if Key = ''env'' then
            on_get (get_array D Element) b (\<lambda>Es.
              push_strings D (\<lambda>s b. b\<lparr>Envs := Envs b @ [s]\<rparr>) Es b)
          else Done b
        else if c = CHR ''n'' then
          if Key = ''noNewPrivileges'' then
            on_get (get_bool D Element) b (\<lambda>v. Done (b\<lparr>NoNewPrivileges := v\<rparr>))
          else Done b
        else if c = CHR ''o'' then
          if Key = ''oomScoreAdj'' then
            on_get (get_int D Int32 Element) b (\<lambda>v. Done (b\<lparr>OomScoreAdj := v\<rparr>))
          else Done b
        else if c = CHR ''r'' then
          if Key = ''rlimits'' then
            on_get (get_at (at_key D Process ''rlimits'') (get_array D)) b (\<lambda>Limits.
              for_each (rlimit_entry D) Limits b)
          else Done b
        else if c = CHR ''t'' then
          if Key = ''terminal'' then
            on_get (get_bool D Element) b (\<lambda>v. Done (b\<lparr>Terminal := v\<rparr>))
          else Done b
        else if c = CHR ''u'' then
          if Key = ''user'' then
            on_get (get_object D Element) b (\<lambda>User. for_each (user_key D) User b)
          else Done b
        else Done b)"

definition loadProcess ::
  "('el, 'z) simdjson_scheme \<Rightarrow> 'el object \<Rightarrow> Bundle \<Rightarrow> Bundle outcome" where
  "loadProcess D Process b = for_each (process_key D Process) Process b"

subsection \<open>\<^verbatim>\<open>loadRoot\<close> and \<^verbatim>\<open>loadMounts\<close>\<close>

fun root_key ::
  "('el, 'z) simdjson_scheme \<Rightarrow> string \<times> 'el \<Rightarrow> Bundle \<Rightarrow> Bundle outcome" where
  "root_key D (Key, Element) b =
     (case Key of [] \<Rightarrow> Undef | c # _ \<Rightarrow>
        if c = CHR ''p'' then
          if Key = ''path'' then
            on_get (get_string D Element) b (\<lambda>s. Done (b\<lparr>RootPath := s\<rparr>))
          else Done b
        else if c = CHR ''r'' then
          if Key = ''readonly'' then
            on_get (get_bool D Element) b (\<lambda>v. Done (b\<lparr>RootReadonly := v\<rparr>))
          else Done b
        else Done b)"

definition loadRoot ::
  "('el, 'z) simdjson_scheme \<Rightarrow> 'el object \<Rightarrow> Bundle \<Rightarrow> Bundle outcome" where
  "loadRoot D Root b = for_each (root_key D) Root b"

fun mount_key ::
  "('el, 'z) simdjson_scheme \<Rightarrow> string \<times> 'el \<Rightarrow> mount_desc \<Rightarrow> mount_desc outcome" where
  "mount_key D (Key, Element) d =
     (case Key of [] \<Rightarrow> Undef | c # _ \<Rightarrow>
        if c = CHR ''d'' then
          if Key = ''destination'' then
            on_get (get_string D Element) d (\<lambda>s. Done (d\<lparr>MntDestination := s\<rparr>))
          else Done d
        else if c = CHR ''o'' then
          if Key = ''options'' then
            on_get (get_array D Element) d (\<lambda>Options.
              push_strings D (\<lambda>s d. d\<lparr>MntOptions := MntOptions d @ [s]\<rparr>) Options d)
          else Done d
        else if c = CHR ''s'' then
          if Key = ''source'' then
            on_get (get_string D Element) d (\<lambda>s. Done (d\<lparr>MntSource := s\<rparr>))
          else Done d
        else if c = CHR ''t'' then
          if Key = ''type'' then
            on_get (get_string D Element) d (\<lambda>s. Done (d\<lparr>MntType := s\<rparr>))
          else Done d
        else Done d)"

definition mount_entry ::
  "('el, 'z) simdjson_scheme \<Rightarrow> 'el \<Rightarrow> Bundle \<Rightarrow> Bundle outcome" where
  "mount_entry D Mount b =
     on_get (get_object D Mount) b (\<lambda>MountObject.
       with_local (for_each (mount_key D) MountObject empty_mount) b
         (\<lambda>Desc. b\<lparr>Mounts := Mounts b @ [Desc]\<rparr>))"

definition loadMounts ::
  "('el, 'z) simdjson_scheme \<Rightarrow> 'el list \<Rightarrow> Bundle \<Rightarrow> Bundle outcome" where
  "loadMounts D Ms b = for_each (mount_entry D) Ms b"

subsection \<open>\<^verbatim>\<open>loadLinux\<close>\<close>

fun namespace_key ::
  "('el, 'z) simdjson_scheme \<Rightarrow> string \<times> 'el \<Rightarrow> namespace_desc \<Rightarrow> namespace_desc outcome" where
  "namespace_key D (Key, Element) d =
     (case Key of [] \<Rightarrow> Undef | c # _ \<Rightarrow>
        if c = CHR ''p'' then
          if Key = ''path'' then
            on_get (get_string D Element) d (\<lambda>s. Done (d\<lparr>NsPath := s\<rparr>))
          else Done d
        else if c = CHR ''t'' then
          if Key = ''type'' then
            on_get (get_string D Element) d (\<lambda>s. Done (d\<lparr>NsType := s\<rparr>))
          else Done d
        else Done d)"

definition namespace_entry ::
  "('el, 'z) simdjson_scheme \<Rightarrow> 'el \<Rightarrow> Bundle \<Rightarrow> Bundle outcome" where
  "namespace_entry D Namespace b =
     on_get (get_object D Namespace) b (\<lambda>NamespaceObject.
       with_local (for_each (namespace_key D) NamespaceObject empty_namespace) b
         (\<lambda>Desc. b\<lparr>Namespaces := Namespaces b @ [Desc]\<rparr>))"

fun uid_mapping_key ::
  "('el, 'z) simdjson_scheme \<Rightarrow> string \<times> 'el \<Rightarrow> id_mapping_desc \<Rightarrow> id_mapping_desc outcome" where
  "uid_mapping_key D (Key, Element) d =
     (case Key of [] \<Rightarrow> Undef | c # _ \<Rightarrow>
        if c = CHR ''c'' then
          if Key = ''containerID'' then
            on_get (get_int D UInt32 Element) d (\<lambda>v. Done (d\<lparr>MapContainerId := v\<rparr>))
          else Done d
        else if c = CHR ''h'' then
          if Key = ''hostID'' then
            on_get (get_int D UInt32 Element) d (\<lambda>v. Done (d\<lparr>MapHostId := v\<rparr>))
          else Done d
        else if c = CHR ''s'' then
          if Key = ''size'' then
            on_get (get_int D UInt32 Element) d (\<lambda>v. Done (d\<lparr>MapSize := v\<rparr>))
          else Done d
        else Done d)"

definition uid_mapping_entry ::
  "('el, 'z) simdjson_scheme \<Rightarrow> 'el \<Rightarrow> Bundle \<Rightarrow> Bundle outcome" where
  "uid_mapping_entry D UidMapping b =
     on_get (get_object D UidMapping) b (\<lambda>UidMappingObject.
       with_local (for_each (uid_mapping_key D) UidMappingObject empty_mapping) b
         (\<lambda>Desc. b\<lparr>UidMappings := UidMappings b @ [Desc]\<rparr>))"

fun gid_mapping_key ::
  "('el, 'z) simdjson_scheme \<Rightarrow> string \<times> 'el \<Rightarrow> id_mapping_desc \<Rightarrow> id_mapping_desc outcome" where
  "gid_mapping_key D (Key, Element) d =
     (case Key of [] \<Rightarrow> Undef | c # _ \<Rightarrow>
        if c = CHR ''c'' then
          if Key = ''containerID'' then
            on_get (get_int D UInt32 Element) d (\<lambda>v. Done (d\<lparr>MapContainerId := v\<rparr>))
          else Done d
        else if c = CHR ''h'' then
          if Key = ''hostID'' then
            on_get (get_int D UInt32 Element) d (\<lambda>v. Done (d\<lparr>MapHostId := v\<rparr>))
          else Done d
        else if c = CHR ''s'' then
          if Key = ''size'' then
            on_get (get_int D UInt32 Element) d (\<lambda>v. Done (d\<lparr>MapSize := v\<rparr>))
          else Done d
        else Done d)"

text \<open>The descriptor is pushed to \<^verbatim>\<open>UidMappings\<close>, as line 526 of the source has it.\<close>

definition gid_mapping_entry ::
  "('el, 'z) simdjson_scheme \<Rightarrow> 'el \<Rightarrow> Bundle \<Rightarrow> Bundle outcome" where
  "gid_mapping_entry D GidMapping b =
     on_get (get_object D GidMapping) b (\<lambda>GidMappingObject.
       with_local (for_each (gid_mapping_key D) GidMappingObject empty_mapping) b
         (\<lambda>Desc. b\<lparr>UidMappings := UidMappings b @ [Desc]\<rparr>))"

fun device_key ::
  "('el, 'z) simdjson_scheme \<Rightarrow> string \<times> 'el \<Rightarrow> device_desc \<Rightarrow> device_desc outcome" where
  "device_key D (Key, Element) d =
     (case Key of [] \<Rightarrow> Undef | c # _ \<Rightarrow>
        if c = CHR ''t'' then
          if Key = ''type'' then
            on_get (get_string D Element) d (\<lambda>s. Done (d\<lparr>DevType := s\<rparr>))
          else Done d
        else if c = CHR ''p'' then
          if Key = ''path'' then
            on_get (get_string D Element) d (\<lambda>s. Done (d\<lparr>DevPath := s\<rparr>))
          else Done d
        else if c = CHR ''m'' then
          if Key = ''major'' then
            on_get (get_int64 D Element) d (\<lambda>v. Done (d\<lparr>DevMajor := v\<rparr>))
          else if Key = ''minor'' then
            on_get (get_int64 D Element) d (\<lambda>v. Done (d\<lparr>DevMinor := v\<rparr>))
          else Done d
        else if c = CHR ''f'' then
          if Key = ''fileMode'' then
            on_get (get_int D UInt32 Element) d (\<lambda>v. Done (d\<lparr>DevFileMode := v\<rparr>))
          else Done d
        else if c = CHR ''u'' then
          if Key = ''uid'' then
            on_get (get_int D UInt32 Element) d (\<lambda>v. Done (d\<lparr>DevUid := v\<rparr>))
          else Done d
        else if c = CHR ''g'' then
          if Key = ''gid'' then
            on_get (get_int D UInt32 Element) d (\<lambda>v. Done (d\<lparr>DevGid := v\<rparr>))
          else Done d
        else Done d)"

definition device_entry ::
  "('el, 'z) simdjson_scheme \<Rightarrow> 'el \<Rightarrow> Bundle \<Rightarrow> Bundle outcome" where
  "device_entry D Device b =
     on_get (get_object D Device) b (\<lambda>DeviceObject.
       with_local (for_each (device_key D) DeviceObject empty_device) b
         (\<lambda>Desc. b\<lparr>Devices := Devices b @ [Desc]\<rparr>))"

fun memory_key ::
  "('el, 'z) simdjson_scheme \<Rightarrow> string \<times> 'el \<Rightarrow> Bundle \<Rightarrow> Bundle outcome" where
  "memory_key D (Key, Element) b =
     (case Key of [] \<Rightarrow> Undef | c # _ \<Rightarrow>
        if c = CHR ''l'' then
          if Key = ''limit'' then
            on_get (get_int D UInt64 Element) b (\<lambda>v. Done (b\<lparr>ResourcesMemoryLimit := v\<rparr>))
          else Done b
        else if c = CHR ''r'' then
          if Key = ''reservation'' then
            on_get (get_int D UInt64 Element) b (\<lambda>v. Done (b\<lparr>ResourcesMemoryReservation := v\<rparr>))
          else Done b
        else Done b)"

fun resources_key ::
  "('el, 'z) simdjson_scheme \<Rightarrow> string \<times> 'el \<Rightarrow> Bundle \<Rightarrow> Bundle outcome" where
  "resources_key D (Key, Element) b =
     (case Key of [] \<Rightarrow> Undef | c # _ \<Rightarrow>
        if c = CHR ''m'' then
          if Key = ''memory'' then
            on_get (get_object D Element) b (\<lambda>Memory. for_each (memory_key D) Memory b)
          else Done b
        else if c = CHR ''d'' then
          if Key = ''devices'' then Done b else Done b
        else Done b)"

definition loadResources ::
  "('el, 'z) simdjson_scheme \<Rightarrow> 'el object \<Rightarrow> Bundle \<Rightarrow> Bundle outcome" where
  "loadResources D Resources b = for_each (resources_key D) Resources b"

fun linux_key ::
  "('el, 'z) simdjson_scheme \<Rightarrow> string \<times> 'el \<Rightarrow> Bundle \<Rightarrow> Bundle outcome" where
  "linux_key D (Key, Element) b =
     (case Key of [] \<Rightarrow> Undef | c # _ \<Rightarrow>
        if c = CHR ''n'' then
          if Key = ''namespaces'' then
            on_get (get_array D Element) b (\<lambda>xs. for_each (namespace_entry D) xs b)
          else Done b
        else if c = CHR ''u'' then
          if Key = ''uidMappings'' then
            on_get (get_array D Element) b (\<lambda>xs. for_each (uid_mapping_entry D) xs b)
          else Done b
        else if c = CHR ''g'' then
          if Key = ''gidMappings'' then
            on_get (get_array D Element) b (\<lambda>xs. for_each (gid_mapping_entry D) xs b)
          else Done b
        else if c = CHR ''d'' then
          if Key = ''devices'' then
            on_get (get_array D Element) b (\<lambda>xs. for_each (device_entry D) xs b)
          else Done b
        else if c = CHR ''c'' then
          if Key = ''cgroupsPath'' then
            on_get (get_string D Element) b (\<lambda>s. Done (b\<lparr>CgroupsPath := s\<rparr>))
          else Done b
        else if c = CHR ''r'' then
          if Key = ''resources'' then
            on_get (get_object D Element) b (\<lambda>Resources. loadResources D Resources b)
          else Done b
        else Done b)"

definition loadLinux ::
  "('el, 'z) simdjson_scheme \<Rightarrow> 'el object \<Rightarrow> Bundle \<Rightarrow> Bundle outcome" where
  "loadLinux D Linux b = for_each (linux_key D) Linux b"

subsection \<open>The top level of \<^verbatim>\<open>Bundle::load\<close>\<close>

fun annotation_key ::
  "('el, 'z) simdjson_scheme \<Rightarrow> string \<times> 'el \<Rightarrow> Bundle \<Rightarrow> Bundle outcome" where
  "annotation_key D (Key, Element) b =
     (case Key of [] \<Rightarrow> Undef | c # _ \<Rightarrow>
        if c = CHR ''o'' then
          if Key = ''org.wasmedge.exec.allow_commands'' then
            on_get (get_array D Element) b (\<lambda>Cs.
              push_strings D (\<lambda>s b. b\<lparr>Cmds := Cmds b @ [s]\<rparr>) Cs b)
          else Done b
        else Done b)"

text \<open>The loop body over the members of \<^verbatim>\<open>config.json\<close>, as compiled for Linux.\<close>

fun config_key ::
  "('el, 'z) simdjson_scheme \<Rightarrow> string \<times> 'el \<Rightarrow> Bundle \<Rightarrow> Bundle outcome" where
  "config_key D (Key, Element) b =
     (case Key of [] \<Rightarrow> Undef | c # _ \<Rightarrow>
        if c = CHR ''a'' then
          if Key = ''annotations'' then
            on_get (get_object D Element) b (\<lambda>Annotations.
              for_each (annotation_key D) Annotations b)
          else Done b
        else if c = CHR ''m'' then
          if Key = ''mounts'' then
            on_get (get_array D Element) b (\<lambda>Ms. loadMounts D Ms b)
          else Done b
        else if c = CHR ''o'' then
          if Key = ''ociVersion'' then
            on_get (get_string D Element) b (\<lambda>s. Done (b\<lparr>OCIVersion := s\<rparr>))
          else Done b
        else if c = CHR ''p'' then
          if Key = ''process'' then
            on_get (get_object D Element) b (\<lambda>Process. loadProcess D Process b)
          else Done b
        else if c = CHR ''r'' then
          if Key = ''root'' then
            on_get (get_object D Element) b (\<lambda>Root. loadRoot D Root b)
          else Done b
        else if c = CHR ''l'' then
          if Key = ''linux'' then
            on_get (get_object D Element) b (\<lambda>Linux. loadLinux D Linux b)
          else Done b
        else Done b)"

text \<open>
  The body of \<^verbatim>\<open>Bundle::load\<close> on the document \<open>doc\<close> that \<^verbatim>\<open>Parser.load(ConfigPath)\<close>
  delivers (or an error, for a file that cannot be read or is not JSON).
\<close>

definition load_doc ::
  "('el, 'z) simdjson_scheme \<Rightarrow> simdjson_error + 'el \<Rightarrow> Bundle \<Rightarrow> Bundle outcome" where
  "load_doc D doc b =
     on_get (get_at doc (get_object D)) b (\<lambda>Config. for_each (config_key D) Config b)"

text \<open>\<open>files p\<close> is what \<^verbatim>\<open>Parser.load\<close> returns for the path \<open>p\<close> at the time of the call.\<close>

definition load ::
  "('el, 'z) simdjson_scheme \<Rightarrow> (string \<Rightarrow> simdjson_error + 'el) \<Rightarrow> string \<Rightarrow> string
     \<Rightarrow> Bundle \<Rightarrow> Bundle outcome" where
  "load D files Path ConfigFileName b = load_doc D (files (path_append Path ConfigFileName)) b"

lemmas key_simps = consoleSize_key.simps user_key.simps process_key.simps root_key.simps
  mount_key.simps namespace_key.simps uid_mapping_key.simps gid_mapping_key.simps
  device_key.simps memory_key.simps resources_key.simps linux_key.simps annotation_key.simps
  config_key.simps

declare key_simps [simp del]

end
