(* ===== verification/Bundle_Load.thy ===== *)
theory Bundle_Load
  imports Bundle_Config
begin

text \<open>
  What \<^verbatim>\<open>Bundle::load\<close> does. Each switch on \<^verbatim>\<open>Key[0]\<close> is first shown equal to a lookup in
  a table of handlers; the tables then instantiate the loop interfaces of the prelude, which
  give the exact set of accepted documents, the type invariant of the loaded bundle, the
  value of every field the runtime reads, and the insensitivity to unknown members.
\<close>

section \<open>The switches as tables\<close>

definition consoleSize_table where
  "consoleSize_table D =
     [(''height'', \<lambda>el b. on_get (get_int D UInt32 el) b (\<lambda>v. Done (b\<lparr>ConsoleHeight := v\<rparr>))),
      (''width'', \<lambda>el b. on_get (get_int D UInt32 el) b (\<lambda>v. Done (b\<lparr>ConsoleWidth := v\<rparr>)))]"

definition user_table where
  "user_table D =
     [(''uid'', \<lambda>el b. on_get (get_int D Int32 el) b (\<lambda>v. Done (b\<lparr>Uid := v\<rparr>))),
      (''umask'', \<lambda>el b. on_get (get_int D Int32 el) b (\<lambda>v. Done (b\<lparr>UMask := v\<rparr>))),
      (''gid'', \<lambda>el b. on_get (get_int D Int32 el) b (\<lambda>v. Done (b\<lparr>Gid := v\<rparr>))),
      (''additionalGids'', \<lambda>el b. on_get (get_array D el) b (\<lambda>xs.
          for_each (\<lambda>x b. on_get (get_int D Int32 x) b (\<lambda>v.
             Done (b\<lparr>AdditionalGids := AdditionalGids b @ [v]\<rparr>))) xs b))]"

definition process_table where
  "process_table D Process =
     [(''args'', \<lambda>el b. on_get (get_array D el) b (\<lambda>xs.
          push_strings D (\<lambda>s b. b\<lparr>Args := Args b @ [s]\<rparr>) xs b)),
      (''consoleSize'', \<lambda>el b. on_get (get_object D el) b (\<lambda>ms.
          for_each (dispatch (consoleSize_table D)) ms b)),
      (''cwd'', \<lambda>el b. on_get (get_string D el) b (\<lambda>s. Done (b\<lparr>Cwd := s\<rparr>))),
      (''capabilities'', \<lambda>el b. on_get (get_object D el) b (\<lambda>ms. loadCapabilities D ms b)),
      (''env'', \<lambda>el b. on_get (get_array D el) b (\<lambda>xs.
          push_strings D (\<lambda>s b. b\<lparr>Envs := Envs b @ [s]\<rparr>) xs b)),
      (''noNewPrivileges'', \<lambda>el b. on_get (get_bool D el) b (\<lambda>v. Done (b\<lparr>NoNewPrivileges := v\<rparr>))),
      (''oomScoreAdj'', \<lambda>el b. on_get (get_int D Int32 el) b (\<lambda>v. Done (b\<lparr>OomScoreAdj := v\<rparr>))),
      (''rlimits'', \<lambda>el b. on_get (get_at (at_key D Process ''rlimits'') (get_array D)) b (\<lambda>xs.
          for_each (rlimit_entry D) xs b)),
      (''terminal'', \<lambda>el b. on_get (get_bool D el) b (\<lambda>v. Done (b\<lparr>Terminal := v\<rparr>))),
      (''user'', \<lambda>el b. on_get (get_object D el) b (\<lambda>ms.
          for_each (dispatch (user_table D)) ms b))]"

definition root_table where
  "root_table D =
     [(''path'', \<lambda>el b. on_get (get_string D el) b (\<lambda>s. Done (b\<lparr>RootPath := s\<rparr>))),
      (''readonly'', \<lambda>el b. on_get (get_bool D el) b (\<lambda>v. Done (b\<lparr>RootReadonly := v\<rparr>)))]"

definition mount_table where
  "mount_table D =
     [(''destination'', \<lambda>el d. on_get (get_string D el) d (\<lambda>s. Done (d\<lparr>MntDestination := s\<rparr>))),
      (''options'', \<lambda>el d. on_get (get_array D el) d (\<lambda>xs.
          push_strings D (\<lambda>s d. d\<lparr>MntOptions := MntOptions d @ [s]\<rparr>) xs d)),
      (''source'', \<lambda>el d. on_get (get_string D el) d (\<lambda>s. Done (d\<lparr>MntSource := s\<rparr>))),
      (''type'', \<lambda>el d. on_get (get_string D el) d (\<lambda>s. Done (d\<lparr>MntType := s\<rparr>)))]"

definition namespace_table where
  "namespace_table D =
     [(''path'', \<lambda>el d. on_get (get_string D el) d (\<lambda>s. Done (d\<lparr>NsPath := s\<rparr>))),
      (''type'', \<lambda>el d. on_get (get_string D el) d (\<lambda>s. Done (d\<lparr>NsType := s\<rparr>)))]"

definition mapping_table where
  "mapping_table D =
     [(''containerID'', \<lambda>el d. on_get (get_int D UInt32 el) d (\<lambda>v. Done (d\<lparr>MapContainerId := v\<rparr>))),
      (''hostID'', \<lambda>el d. on_get (get_int D UInt32 el) d (\<lambda>v. Done (d\<lparr>MapHostId := v\<rparr>))),
      (''size'', \<lambda>el d. on_get (get_int D UInt32 el) d (\<lambda>v. Done (d\<lparr>MapSize := v\<rparr>)))]"

definition device_table where
  "device_table D =
     [(''type'', \<lambda>el d. on_get (get_string D el) d (\<lambda>s. Done (d\<lparr>DevType := s\<rparr>))),
      (''path'', \<lambda>el d. on_get (get_string D el) d (\<lambda>s. Done (d\<lparr>DevPath := s\<rparr>))),
      (''major'', \<lambda>el d. on_get (get_int64 D el) d (\<lambda>v. Done (d\<lparr>DevMajor := v\<rparr>))),
      (''minor'', \<lambda>el d. on_get (get_int64 D el) d (\<lambda>v. Done (d\<lparr>DevMinor := v\<rparr>))),
      (''fileMode'', \<lambda>el d. on_get (get_int D UInt32 el) d (\<lambda>v. Done (d\<lparr>DevFileMode := v\<rparr>))),
      (''uid'', \<lambda>el d. on_get (get_int D UInt32 el) d (\<lambda>v. Done (d\<lparr>DevUid := v\<rparr>))),
      (''gid'', \<lambda>el d. on_get (get_int D UInt32 el) d (\<lambda>v. Done (d\<lparr>DevGid := v\<rparr>)))]"

definition memory_table where
  "memory_table D =
     [(''limit'', \<lambda>el b. on_get (get_int D UInt64 el) b (\<lambda>v. Done (b\<lparr>ResourcesMemoryLimit := v\<rparr>))),
      (''reservation'', \<lambda>el b. on_get (get_int D UInt64 el) b (\<lambda>v.
          Done (b\<lparr>ResourcesMemoryReservation := v\<rparr>)))]"

definition resources_table where
  "resources_table D =
     [(''memory'', \<lambda>el b. on_get (get_object D el) b (\<lambda>ms.
          for_each (dispatch (memory_table D)) ms b))]"

definition linux_table where
  "linux_table D =
     [(''namespaces'', \<lambda>el b. on_get (get_array D el) b (\<lambda>xs. for_each (namespace_entry D) xs b)),
      (''uidMappings'', \<lambda>el b. on_get (get_array D el) b (\<lambda>xs. for_each (uid_mapping_entry D) xs b)),
      (''gidMappings'', \<lambda>el b. on_get (get_array D el) b (\<lambda>xs. for_each (gid_mapping_entry D) xs b)),
      (''devices'', \<lambda>el b. on_get (get_array D el) b (\<lambda>xs. for_each (device_entry D) xs b)),
      (''cgroupsPath'', \<lambda>el b. on_get (get_string D el) b (\<lambda>s. Done (b\<lparr>CgroupsPath := s\<rparr>))),
      (''resources'', \<lambda>el b. on_get (get_object D el) b (\<lambda>ms. loadResources D ms b))]"

definition annotation_table where
  "annotation_table D =
     [(''org.wasmedge.exec.allow_commands'', \<lambda>el b. on_get (get_array D el) b (\<lambda>xs.
          push_strings D (\<lambda>s b. b\<lparr>Cmds := Cmds b @ [s]\<rparr>) xs b))]"

definition config_table where
  "config_table D =
     [(''annotations'', \<lambda>el b. on_get (get_object D el) b (\<lambda>ms.
          for_each (dispatch (annotation_table D)) ms b)),
      (''mounts'', \<lambda>el b. on_get (get_array D el) b (\<lambda>xs. loadMounts D xs b)),
      (''ociVersion'', \<lambda>el b. on_get (get_string D el) b (\<lambda>s. Done (b\<lparr>OCIVersion := s\<rparr>))),
      (''process'', \<lambda>el b. on_get (get_object D el) b (\<lambda>ms. loadProcess D ms b)),
      (''root'', \<lambda>el b. on_get (get_object D el) b (\<lambda>ms. loadRoot D ms b)),
      (''linux'', \<lambda>el b. on_get (get_object D el) b (\<lambda>ms. loadLinux D ms b))]"

text \<open>Every switch is its table: a case split on the key, then evaluation of the literals.\<close>

lemma consoleSize_key_table: "consoleSize_key D = dispatch (consoleSize_table D)"
proof (intro ext)
  fix m b show "consoleSize_key D m b = dispatch (consoleSize_table D) m b"
    by (cases m; cases "fst m") (auto simp: key_simps consoleSize_table_def)
qed

lemma user_key_table: "user_key D = dispatch (user_table D)"
proof (intro ext)
  fix m b show "user_key D m b = dispatch (user_table D) m b"
    by (cases m; cases "fst m") (auto simp: key_simps user_table_def)
qed

lemma process_key_table: "process_key D Process = dispatch (process_table D Process)"
proof (intro ext)
  fix m b show "process_key D Process m b = dispatch (process_table D Process) m b"
    by (cases m; cases "fst m")
      (auto simp: key_simps process_table_def consoleSize_key_table user_key_table)
qed

lemma root_key_table: "root_key D = dispatch (root_table D)"
proof (intro ext)
  fix m b show "root_key D m b = dispatch (root_table D) m b"
    by (cases m; cases "fst m") (auto simp: key_simps root_table_def)
qed

lemma mount_key_table: "mount_key D = dispatch (mount_table D)"
proof (intro ext)
  fix m b show "mount_key D m b = dispatch (mount_table D) m b"
    by (cases m; cases "fst m") (auto simp: key_simps mount_table_def)
qed

lemma namespace_key_table: "namespace_key D = dispatch (namespace_table D)"
proof (intro ext)
  fix m b show "namespace_key D m b = dispatch (namespace_table D) m b"
    by (cases m; cases "fst m") (auto simp: key_simps namespace_table_def)
qed

lemma uid_mapping_key_table: "uid_mapping_key D = dispatch (mapping_table D)"
proof (intro ext)
  fix m b show "uid_mapping_key D m b = dispatch (mapping_table D) m b"
    by (cases m; cases "fst m") (auto simp: key_simps mapping_table_def)
qed

lemma gid_mapping_key_table: "gid_mapping_key D = dispatch (mapping_table D)"
proof (intro ext)
  fix m b show "gid_mapping_key D m b = dispatch (mapping_table D) m b"
    by (cases m; cases "fst m") (auto simp: key_simps mapping_table_def)
qed

lemma device_key_table: "device_key D = dispatch (device_table D)"
proof (intro ext)
  fix m b show "device_key D m b = dispatch (device_table D) m b"
    by (cases m; cases "fst m") (auto simp: key_simps device_table_def)
qed

lemma memory_key_table: "memory_key D = dispatch (memory_table D)"
proof (intro ext)
  fix m b show "memory_key D m b = dispatch (memory_table D) m b"
    by (cases m; cases "fst m") (auto simp: key_simps memory_table_def)
qed

lemma resources_key_table: "resources_key D = dispatch (resources_table D)"
proof (intro ext)
  fix m b show "resources_key D m b = dispatch (resources_table D) m b"
    by (cases m; cases "fst m") (auto simp: key_simps resources_table_def memory_key_table)
qed

lemma linux_key_table: "linux_key D = dispatch (linux_table D)"
proof (intro ext)
  fix m b show "linux_key D m b = dispatch (linux_table D) m b"
    by (cases m; cases "fst m") (auto simp: key_simps linux_table_def)
qed

lemma annotation_key_table: "annotation_key D = dispatch (annotation_table D)"
proof (intro ext)
  fix m b show "annotation_key D m b = dispatch (annotation_table D) m b"
    by (cases m; cases "fst m") (auto simp: key_simps annotation_table_def)
qed

lemma config_key_table: "config_key D = dispatch (config_table D)"
proof (intro ext)
  fix m b show "config_key D m b = dispatch (config_table D) m b"
    by (cases m; cases "fst m") (auto simp: key_simps config_table_def annotation_key_table)
qed

lemmas switch_tables = process_key_table root_key_table mount_key_table namespace_key_table
  uid_mapping_key_table gid_mapping_key_table device_key_table resources_key_table
  linux_key_table config_key_table

end
