(* ===== verification/Bundle_Accept.thy ===== *)
theory Bundle_Accept
  imports Bundle_Load
begin

text \<open>
  Which documents \<^verbatim>\<open>Bundle::load\<close> accepts: a schema, written once per switch, and the
  equivalence of the loader's success with it.
\<close>

section \<open>The schema\<close>

definition str_ok where "str_ok D el \<longleftrightarrow> is_right (get_string D el)"
definition bool_ok where "bool_ok D el \<longleftrightarrow> is_right (get_bool D el)"
definition i64_ok where "i64_ok D el \<longleftrightarrow> is_right (get_int64 D el)"
definition int_ok where "int_ok D T el \<longleftrightarrow> is_right (get_int D T el)"

definition arr_ok where
  "arr_ok D p el \<longleftrightarrow> (case get_array D el of Inl _ \<Rightarrow> False | Inr xs \<Rightarrow> list_all p xs)"

definition obj_ok where
  "obj_ok D p el \<longleftrightarrow> (case get_object D el of Inl _ \<Rightarrow> False | Inr ms \<Rightarrow> list_all p ms)"

definition consoleSize_schema where
  "consoleSize_schema D = [(''height'', int_ok D UInt32), (''width'', int_ok D UInt32)]"

definition user_schema where
  "user_schema D = [(''uid'', int_ok D Int32), (''umask'', int_ok D Int32),
     (''gid'', int_ok D Int32), (''additionalGids'', arr_ok D (int_ok D Int32))]"

definition capability_ok where
  "capability_ok D ms k \<longleftrightarrow>
     (case get_at (at_key D ms k) (get_array D) of
        Inl e \<Rightarrow> e = NO_SUCH_FIELD | Inr xs \<Rightarrow> list_all (str_ok D) xs)"

definition capabilities_ok where
  "capabilities_ok D el \<longleftrightarrow>
     (case get_object D el of Inl _ \<Rightarrow> False | Inr ms \<Rightarrow>
        list_all (capability_ok D ms)
          [''effective'', ''bounding'', ''inheritable'', ''permitted'', ''ambient''])"

definition rlimit_ok where
  "rlimit_ok D el \<longleftrightarrow>
     (case get_object D el of Inl _ \<Rightarrow> False | Inr ms \<Rightarrow>
        is_right (get_at (at_key D ms ''type'') (get_string D)) \<and>
        is_right (get_at (at_key D ms ''soft'') (get_int64 D)) \<and>
        is_right (get_at (at_key D ms ''hard'') (get_int64 D)))"

definition rlimits_ok where
  "rlimits_ok D Process el \<longleftrightarrow>
     (case get_at (at_key D Process ''rlimits'') (get_array D) of
        Inl _ \<Rightarrow> False | Inr xs \<Rightarrow> list_all (rlimit_ok D) xs)"

definition process_schema where
  "process_schema D Process =
     [(''args'', arr_ok D (str_ok D)),
      (''consoleSize'', obj_ok D (member_ok (consoleSize_schema D))),
      (''cwd'', str_ok D), (''capabilities'', capabilities_ok D),
      (''env'', arr_ok D (str_ok D)), (''noNewPrivileges'', bool_ok D),
      (''oomScoreAdj'', int_ok D Int32), (''rlimits'', rlimits_ok D Process),
      (''terminal'', bool_ok D), (''user'', obj_ok D (member_ok (user_schema D)))]"

definition root_schema where
  "root_schema D = [(''path'', str_ok D), (''readonly'', bool_ok D)]"

definition mount_schema where
  "mount_schema D = [(''destination'', str_ok D), (''options'', arr_ok D (str_ok D)),
     (''source'', str_ok D), (''type'', str_ok D)]"

definition namespace_schema where
  "namespace_schema D = [(''path'', str_ok D), (''type'', str_ok D)]"

definition mapping_schema where
  "mapping_schema D = [(''containerID'', int_ok D UInt32), (''hostID'', int_ok D UInt32),
     (''size'', int_ok D UInt32)]"

definition device_schema where
  "device_schema D = [(''type'', str_ok D), (''path'', str_ok D), (''major'', i64_ok D),
     (''minor'', i64_ok D), (''fileMode'', int_ok D UInt32), (''uid'', int_ok D UInt32),
     (''gid'', int_ok D UInt32)]"

definition memory_schema where
  "memory_schema D = [(''limit'', int_ok D UInt64), (''reservation'', int_ok D UInt64)]"

definition resources_schema where
  "resources_schema D = [(''memory'', obj_ok D (member_ok (memory_schema D)))]"

definition linux_schema where
  "linux_schema D =
     [(''namespaces'', arr_ok D (obj_ok D (member_ok (namespace_schema D)))),
      (''uidMappings'', arr_ok D (obj_ok D (member_ok (mapping_schema D)))),
      (''gidMappings'', arr_ok D (obj_ok D (member_ok (mapping_schema D)))),
      (''devices'', arr_ok D (obj_ok D (member_ok (device_schema D)))),
      (''cgroupsPath'', str_ok D),
      (''resources'', obj_ok D (member_ok (resources_schema D)))]"

definition annotation_schema where
  "annotation_schema D = [(''org.wasmedge.exec.allow_commands'', arr_ok D (str_ok D))]"

definition process_ok where
  "process_ok D el \<longleftrightarrow>
     (case get_object D el of Inl _ \<Rightarrow> False | Inr ms \<Rightarrow> list_all (member_ok (process_schema D ms)) ms)"

definition config_schema where
  "config_schema D =
     [(''annotations'', obj_ok D (member_ok (annotation_schema D))),
      (''mounts'', arr_ok D (obj_ok D (member_ok (mount_schema D)))),
      (''ociVersion'', str_ok D), (''process'', process_ok D),
      (''root'', obj_ok D (member_ok (root_schema D))),
      (''linux'', obj_ok D (member_ok (linux_schema D)))]"

definition valid_config where
  "valid_config D doc \<longleftrightarrow>
     (case doc of Inl _ \<Rightarrow> False | Inr el \<Rightarrow> obj_ok D (member_ok (config_schema D)) el)"

section \<open>The handlers accept exactly the schema\<close>

named_theorems accept_simps \<open>success of the pieces of a handler\<close>

lemma accept_leaf [accept_simps]:
  "is_done (on_get (get_string D el) s (\<lambda>v. Done (f v))) \<longleftrightarrow> str_ok D el"
  "is_done (on_get (get_bool D el) s (\<lambda>v. Done (g v))) \<longleftrightarrow> bool_ok D el"
  "is_done (on_get (get_int64 D el) s (\<lambda>v. Done (h v))) \<longleftrightarrow> i64_ok D el"
  "is_done (on_get (get_int D T el) s (\<lambda>v. Done (h v))) \<longleftrightarrow> int_ok D T el"
  by (auto simp: is_done_on_get str_ok_def bool_ok_def i64_ok_def int_ok_def is_right_iff)

lemma accept_push_strings: "is_done (push_strings D push xs s) \<longleftrightarrow> list_all (str_ok D) xs"
  unfolding push_strings_def by (rule is_done_for_each) (simp add: accept_leaf)

lemma accept_array:
  assumes "\<And>xs. is_done (f xs) \<longleftrightarrow> list_all p xs"
  shows "is_done (on_get (get_array D el) s f) \<longleftrightarrow> arr_ok D p el"
  by (cases "get_array D el") (simp_all add: arr_ok_def assms)

lemma accept_object:
  assumes "\<And>ms. is_done (f ms) \<longleftrightarrow> list_all p ms"
  shows "is_done (on_get (get_object D el) s f) \<longleftrightarrow> obj_ok D p el"
  by (cases "get_object D el") (simp_all add: obj_ok_def assms)

lemma accept_local:
  assumes "\<And>ms d. is_done (for_each f ms d) \<longleftrightarrow> list_all p ms"
  shows "is_done (on_get (get_object D el) s (\<lambda>ms. with_local (for_each f ms d) s k)) \<longleftrightarrow> obj_ok D p el"
  by (rule accept_object) (simp add: is_done_with_local assms)

lemma accept_capability: "is_done (loadCapability D ms k push b) \<longleftrightarrow> capability_ok D ms k"
  by (auto simp: loadCapability_def capability_ok_def accept_push_strings split: sum.split)

lemma is_done_and_then:
  "(\<And>s. is_done (f s) \<longleftrightarrow> Q) \<Longrightarrow> is_done (and_then r f) \<longleftrightarrow> is_done r \<and> Q"
  by (cases r) auto

lemma accept_capabilities:
  "is_done (on_get (get_object D el) b (\<lambda>ms. loadCapabilities D ms b)) \<longleftrightarrow> capabilities_ok D el"
proof (cases "get_object D el")
  case (Inr ms)
  have "is_done (loadCapabilities D ms b) \<longleftrightarrow>
      capability_ok D ms ''effective'' \<and> capability_ok D ms ''bounding'' \<and>
      capability_ok D ms ''inheritable'' \<and> capability_ok D ms ''permitted'' \<and>
      capability_ok D ms ''ambient''"
    unfolding loadCapabilities_def by (simp add: is_done_and_then accept_capability)
  with Inr show ?thesis by (simp add: capabilities_ok_def)
qed (simp add: capabilities_ok_def)

lemma accept_rlimit: "is_done (rlimit_entry D el b) \<longleftrightarrow> rlimit_ok D el"
  by (cases "get_object D el") (auto simp: rlimit_entry_def rlimit_ok_def is_done_on_get is_right_iff)

lemma accept_rlimits:
  "is_done (on_get (get_at (at_key D P ''rlimits'') (get_array D)) b
     (\<lambda>xs. for_each (rlimit_entry D) xs b)) \<longleftrightarrow> rlimits_ok D P el"
  by (cases "get_at (at_key D P ''rlimits'') (get_array D)")
    (simp_all add: rlimits_ok_def is_done_for_each [where ok = "rlimit_ok D"] accept_rlimit)

interpretation consoleSize: key_table "consoleSize_table D" "consoleSize_schema D" for D
  by unfold_locales (simp add: consoleSize_table_def consoleSize_schema_def accept_simps)

interpretation root: key_table "root_table D" "root_schema D" for D
  by unfold_locales (simp add: root_table_def root_schema_def accept_simps)

interpretation mount: key_table "mount_table D" "mount_schema D" for D
  by unfold_locales
    (simp add: mount_table_def mount_schema_def accept_simps accept_array accept_push_strings)

interpretation namespace: key_table "namespace_table D" "namespace_schema D" for D
  by unfold_locales (simp add: namespace_table_def namespace_schema_def accept_simps)

interpretation mapping: key_table "mapping_table D" "mapping_schema D" for D
  by unfold_locales (simp add: mapping_table_def mapping_schema_def accept_simps)

interpretation device: key_table "device_table D" "device_schema D" for D
  by unfold_locales (simp add: device_table_def device_schema_def accept_simps)

interpretation memory: key_table "memory_table D" "memory_schema D" for D
  by unfold_locales (simp add: memory_table_def memory_schema_def accept_simps)

interpretation annotation: key_table "annotation_table D" "annotation_schema D" for D
  by unfold_locales
    (simp add: annotation_table_def annotation_schema_def accept_array accept_push_strings)

interpretation user: key_table "user_table D" "user_schema D" for D
  by unfold_locales
    (simp add: user_table_def user_schema_def accept_simps accept_array
      is_done_for_each [where ok = "int_ok D Int32"])

lemmas table_loops [accept_simps] =
  consoleSize.loop_ok root.loop_ok mount.loop_ok namespace.loop_ok mapping.loop_ok device.loop_ok
  memory.loop_ok annotation.loop_ok user.loop_ok

interpretation resources: key_table "resources_table D" "resources_schema D" for D
  by unfold_locales
    (simp add: resources_table_def resources_schema_def accept_object accept_simps list_all_iff)

interpretation process: key_table "process_table D P" "process_schema D P" for D P
  by unfold_locales
    (simp add: process_table_def process_schema_def accept_simps accept_array accept_object
      accept_push_strings accept_capabilities accept_rlimits list_all_iff)

lemma accept_descriptors:
  "is_done (mount_entry D el b) \<longleftrightarrow> obj_ok D (member_ok (mount_schema D)) el"
  "is_done (namespace_entry D el b) \<longleftrightarrow> obj_ok D (member_ok (namespace_schema D)) el"
  "is_done (uid_mapping_entry D el b) \<longleftrightarrow> obj_ok D (member_ok (mapping_schema D)) el"
  "is_done (gid_mapping_entry D el b) \<longleftrightarrow> obj_ok D (member_ok (mapping_schema D)) el"
  "is_done (device_entry D el b) \<longleftrightarrow> obj_ok D (member_ok (device_schema D)) el"
  unfolding mount_entry_def namespace_entry_def uid_mapping_entry_def gid_mapping_entry_def
    device_entry_def switch_tables
  by (rule accept_local; simp add: accept_simps list_all_iff)+

lemma accept_descriptor_arrays:
  "is_done (for_each (mount_entry D) xs b) \<longleftrightarrow> list_all (obj_ok D (member_ok (mount_schema D))) xs"
  "is_done (for_each (namespace_entry D) xs b) \<longleftrightarrow> list_all (obj_ok D (member_ok (namespace_schema D))) xs"
  "is_done (for_each (uid_mapping_entry D) xs b) \<longleftrightarrow> list_all (obj_ok D (member_ok (mapping_schema D))) xs"
  "is_done (for_each (gid_mapping_entry D) xs b) \<longleftrightarrow> list_all (obj_ok D (member_ok (mapping_schema D))) xs"
  "is_done (for_each (device_entry D) xs b) \<longleftrightarrow> list_all (obj_ok D (member_ok (device_schema D))) xs"
  by (rule is_done_for_each, rule accept_descriptors)+

interpretation linux: key_table "linux_table D" "linux_schema D" for D
  by unfold_locales
    (simp add: linux_table_def linux_schema_def accept_simps accept_array accept_object
      accept_descriptor_arrays loadResources_def resources_key_table resources.loop_ok list_all_iff)

lemma accept_process:
  "is_done (on_get (get_object D el) b (\<lambda>ms. loadProcess D ms b)) \<longleftrightarrow> process_ok D el"
  by (cases "get_object D el")
    (simp_all add: process_ok_def loadProcess_def process_key_table process.loop_ok list_all_iff)

interpretation config: key_table "config_table D" "config_schema D" for D
  by unfold_locales
    (simp add: config_table_def config_schema_def accept_simps accept_array accept_object
      accept_process loadMounts_def accept_descriptor_arrays loadRoot_def root_key_table
      loadLinux_def linux_key_table linux.loop_ok list_all_iff)

lemma load_accepts: "is_done (load_doc D doc b) \<longleftrightarrow> valid_config D doc"
proof (cases doc)
  case (Inr el)
  have "is_done (on_get (get_object D el) b (\<lambda>Config. for_each (config_key D) Config b))
      \<longleftrightarrow> obj_ok D (member_ok (config_schema D)) el"
    by (rule accept_object) (simp add: config_key_table config.loop_ok list_all_iff)
  with Inr show ?thesis by (simp add: load_doc_def valid_config_def)
qed (simp add: load_doc_def valid_config_def)

end
