(* ===== verification/Bundle_Typed.thy ===== *)
theory Bundle_Typed
  imports Bundle_Load
begin

text \<open>
  The type invariant of a bundle: every integer member holds a value of its C++ type. Loading
  keeps it, whether it succeeds or stops half-way.
\<close>

definition in_int64 :: "int \<Rightarrow> bool" where
  "in_int64 v \<longleftrightarrow> - (2 ^ 63) \<le> v \<and> v < 2 ^ 63"

definition mapping_wf :: "id_mapping_desc \<Rightarrow> bool" where
  "mapping_wf d \<longleftrightarrow> in_c_range UInt32 (MapContainerId d) \<and> in_c_range UInt32 (MapHostId d) \<and>
     in_c_range UInt32 (MapSize d)"

definition device_wf :: "device_desc \<Rightarrow> bool" where
  "device_wf d \<longleftrightarrow> in_int64 (DevMajor d) \<and> in_int64 (DevMinor d) \<and>
     in_c_range UInt32 (DevFileMode d) \<and> in_c_range UInt32 (DevUid d) \<and> in_c_range UInt32 (DevGid d)"

definition bundle_wf :: "Bundle \<Rightarrow> bool" where
  "bundle_wf b \<longleftrightarrow>
     in_c_range UInt32 (ConsoleWidth b) \<and> in_c_range UInt32 (ConsoleHeight b) \<and>
     list_all (\<lambda>(t, soft, hard). in_int64 soft \<and> in_int64 hard) (RLimits b) \<and>
     in_c_range Int32 (OomScoreAdj b) \<and> in_c_range Int32 (Uid b) \<and> in_c_range Int32 (Gid b) \<and>
     in_c_range Int32 (UMask b) \<and> list_all (in_c_range Int32) (AdditionalGids b) \<and>
     list_all mapping_wf (UidMappings b) \<and> list_all mapping_wf (GidMappings b) \<and>
     list_all device_wf (Devices b) \<and>
     in_c_range UInt64 (ResourcesMemoryLimit b) \<and> in_c_range UInt64 (ResourcesMemoryReservation b)"

lemma empty_wf: "bundle_wf empty_bundle" "mapping_wf empty_mapping" "device_wf empty_device"
  by (simp_all add: bundle_wf_def mapping_wf_def device_wf_def in_c_range_def in_int64_def
      empty_bundle_def empty_mapping_def empty_device_def)

text \<open>
  The invariants as seen by the handlers: they hold as soon as \<^verbatim>\<open>get<int64_t>\<close> returns values
  of its type.
\<close>

definition wf_under where "wf_under D b \<longleftrightarrow> (int64_law D \<longrightarrow> bundle_wf b)"
definition mwf_under where "mwf_under D d \<longleftrightarrow> (int64_law D \<longrightarrow> mapping_wf d)"
definition dwf_under where "dwf_under D d \<longleftrightarrow> (int64_law D \<longrightarrow> device_wf d)"

lemma int64_value: "int64_law D \<Longrightarrow> get_int64 D el = Inr v \<Longrightarrow> in_int64 v"
  by (auto simp: int64_law_def in_int64_def)

lemma int64_at_value: "int64_law D \<Longrightarrow> get_at r (get_int64 D) = Inr v \<Longrightarrow> in_int64 v"
  by (auto simp: get_at_Inr_iff intro: int64_value)

text \<open>Members without a range are written freely.\<close>

lemma wf_free [simp]:
  "bundle_wf (b\<lparr>OCIVersion := s\<rparr>) = bundle_wf b" "bundle_wf (b\<lparr>Terminal := v\<rparr>) = bundle_wf b"
  "bundle_wf (b\<lparr>Cwd := s\<rparr>) = bundle_wf b" "bundle_wf (b\<lparr>Envs := xs\<rparr>) = bundle_wf b"
  "bundle_wf (b\<lparr>Args := xs\<rparr>) = bundle_wf b" "bundle_wf (b\<lparr>Cmds := xs\<rparr>) = bundle_wf b"
  "bundle_wf (b\<lparr>EffectiveCapabilities := xs\<rparr>) = bundle_wf b"
  "bundle_wf (b\<lparr>BoundingCapabilities := xs\<rparr>) = bundle_wf b"
  "bundle_wf (b\<lparr>InheritableCapabilities := xs\<rparr>) = bundle_wf b"
  "bundle_wf (b\<lparr>PermittedCapabilities := xs\<rparr>) = bundle_wf b"
  "bundle_wf (b\<lparr>AmbientCapabilities := xs\<rparr>) = bundle_wf b"
  "bundle_wf (b\<lparr>NoNewPrivileges := v\<rparr>) = bundle_wf b"
  "bundle_wf (b\<lparr>RootPath := s\<rparr>) = bundle_wf b" "bundle_wf (b\<lparr>RootReadonly := v\<rparr>) = bundle_wf b"
  "bundle_wf (b\<lparr>Mounts := ms\<rparr>) = bundle_wf b" "bundle_wf (b\<lparr>Namespaces := ns\<rparr>) = bundle_wf b"
  "bundle_wf (b\<lparr>CgroupsPath := s\<rparr>) = bundle_wf b"
  by (simp_all add: bundle_wf_def)

text \<open>Members with a range are written with a value of that range.\<close>

lemma wf_checked [simp]:
  "bundle_wf b \<Longrightarrow> bundle_wf (b\<lparr>ConsoleWidth := v\<rparr>) \<longleftrightarrow> in_c_range UInt32 v"
  "bundle_wf b \<Longrightarrow> bundle_wf (b\<lparr>ConsoleHeight := v\<rparr>) \<longleftrightarrow> in_c_range UInt32 v"
  "bundle_wf b \<Longrightarrow> bundle_wf (b\<lparr>OomScoreAdj := v\<rparr>) \<longleftrightarrow> in_c_range Int32 v"
  "bundle_wf b \<Longrightarrow> bundle_wf (b\<lparr>Uid := v\<rparr>) \<longleftrightarrow> in_c_range Int32 v"
  "bundle_wf b \<Longrightarrow> bundle_wf (b\<lparr>Gid := v\<rparr>) \<longleftrightarrow> in_c_range Int32 v"
  "bundle_wf b \<Longrightarrow> bundle_wf (b\<lparr>UMask := v\<rparr>) \<longleftrightarrow> in_c_range Int32 v"
  "bundle_wf b \<Longrightarrow> bundle_wf (b\<lparr>AdditionalGids := AdditionalGids b @ [v]\<rparr>) \<longleftrightarrow> in_c_range Int32 v"
  "bundle_wf b \<Longrightarrow> bundle_wf (b\<lparr>RLimits := RLimits b @ [(t, v, w)]\<rparr>) \<longleftrightarrow> in_int64 v \<and> in_int64 w"
  "bundle_wf b \<Longrightarrow> bundle_wf (b\<lparr>UidMappings := UidMappings b @ [m]\<rparr>) \<longleftrightarrow> mapping_wf m"
  "bundle_wf b \<Longrightarrow> bundle_wf (b\<lparr>Devices := Devices b @ [d]\<rparr>) \<longleftrightarrow> device_wf d"
  "bundle_wf b \<Longrightarrow> bundle_wf (b\<lparr>ResourcesMemoryLimit := v\<rparr>) \<longleftrightarrow> in_c_range UInt64 v"
  "bundle_wf b \<Longrightarrow> bundle_wf (b\<lparr>ResourcesMemoryReservation := v\<rparr>) \<longleftrightarrow> in_c_range UInt64 v"
  by (auto simp: bundle_wf_def)

lemma keeps_push_strings:
  "(\<And>str s. P s \<Longrightarrow> P (push str s)) \<Longrightarrow> P s \<Longrightarrow> keeps P (push_strings D push xs s)"
  unfolding push_strings_def by (rule keeps_for_each) (auto intro!: keeps_on_get)

lemma keeps_loadCapability:
  "(\<And>str s. P s \<Longrightarrow> P (push str s)) \<Longrightarrow> P b \<Longrightarrow> keeps P (loadCapability D ms k push b)"
  by (auto simp: loadCapability_def intro!: keeps_push_strings split: sum.split)

lemma keeps_loadCapabilities:
  assumes "\<And>b xs. P b \<Longrightarrow> P (b\<lparr>EffectiveCapabilities := xs\<rparr>)"
    "\<And>b xs. P b \<Longrightarrow> P (b\<lparr>BoundingCapabilities := xs\<rparr>)"
    "\<And>b xs. P b \<Longrightarrow> P (b\<lparr>InheritableCapabilities := xs\<rparr>)"
    "\<And>b xs. P b \<Longrightarrow> P (b\<lparr>PermittedCapabilities := xs\<rparr>)"
    "\<And>b xs. P b \<Longrightarrow> P (b\<lparr>AmbientCapabilities := xs\<rparr>)" "P b"
  shows "keeps P (loadCapabilities D ms b)"
  unfolding loadCapabilities_def
  by (intro keeps_and_then keeps_loadCapability assms)

text \<open>The invariant through the tables.\<close>

interpretation consoleSize_wf: key_table_inv "consoleSize_table D" "wf_under D" for D
  by unfold_locales (auto simp: consoleSize_table_def wf_under_def intro!: keeps_on_get
      dest: get_int_range)

interpretation user_wf: key_table_inv "user_table D" "wf_under D" for D
  by unfold_locales (auto simp: user_table_def wf_under_def intro!: keeps_on_get keeps_for_each
      dest: get_int_range)

lemma rlimit_entry_wf: "wf_under D b \<Longrightarrow> keeps (wf_under D) (rlimit_entry D el b)"
  unfolding rlimit_entry_def
  by (intro keeps_on_get) (auto simp: wf_under_def dest: int64_at_value)

interpretation process_wf: key_table_inv "process_table D P" "wf_under D" for D P
proof
  fix k h s e
  assume h: "(k, h) \<in> set (process_table D P)" and s: "wf_under D s"
  have caps: "keeps (wf_under D) (loadCapabilities D ms s)" for ms
    by (rule keeps_loadCapabilities) (use s in \<open>auto simp: wf_under_def\<close>)
  have strings: "keeps (wf_under D) (push_strings D (\<lambda>x b. b\<lparr>Args := Args b @ [x]\<rparr>) xs s)"
    "keeps (wf_under D) (push_strings D (\<lambda>x b. b\<lparr>Envs := Envs b @ [x]\<rparr>) xs s)" for xs
    by (rule keeps_push_strings; use s in \<open>auto simp: wf_under_def\<close>)+
  have rl: "keeps (wf_under D) (for_each (rlimit_entry D) xs s)" for xs
    by (rule keeps_for_each) (auto intro: rlimit_entry_wf s)
  have leaf: "wf_under D (s\<lparr>Cwd := x\<rparr>)" "wf_under D (s\<lparr>NoNewPrivileges := v\<rparr>)"
    "wf_under D (s\<lparr>Terminal := v\<rparr>)" for x v
    using s by (simp_all add: wf_under_def)
  have oom: "get_int D Int32 e = Inr v \<Longrightarrow> wf_under D (s\<lparr>OomScoreAdj := v\<rparr>)" for v
    using s by (auto simp: wf_under_def dest: get_int_range)
  from h show "keeps (wf_under D) (h e s)"
    unfolding process_table_def
    by (auto intro!: keeps_on_get s caps strings rl leaf oom consoleSize_wf.loop_keeps
        user_wf.loop_keeps)
qed

interpretation root_wf: key_table_inv "root_table D" "wf_under D" for D
  by unfold_locales (auto simp: root_table_def wf_under_def intro!: keeps_on_get)

interpretation mapping_table_wf: key_table_inv "mapping_table D" "mwf_under D" for D
  by unfold_locales (auto simp: mapping_table_def mwf_under_def mapping_wf_def intro!: keeps_on_get
      dest: get_int_range)

interpretation device_table_wf: key_table_inv "device_table D" "dwf_under D" for D
  by unfold_locales (auto simp: device_table_def dwf_under_def device_wf_def intro!: keeps_on_get
      dest: get_int_range int64_value)

interpretation memory_wf: key_table_inv "memory_table D" "wf_under D" for D
  by unfold_locales (auto simp: memory_table_def wf_under_def intro!: keeps_on_get
      dest: get_int_range)

interpretation resources_wf: key_table_inv "resources_table D" "wf_under D" for D
  by unfold_locales (auto simp: resources_table_def intro!: keeps_on_get memory_wf.loop_keeps)

lemma mapping_loop_wf:
  "for_each (dispatch (mapping_table D)) ms empty_mapping = Done d \<Longrightarrow> mwf_under D d"
  by (erule keeps_Done [OF mapping_table_wf.loop_keeps, rotated]) (simp add: mwf_under_def empty_wf)

lemma device_loop_wf:
  "for_each (dispatch (device_table D)) ms empty_device = Done d \<Longrightarrow> dwf_under D d"
  by (erule keeps_Done [OF device_table_wf.loop_keeps, rotated]) (simp add: dwf_under_def empty_wf)

lemma entries_wf:
  assumes "wf_under D b"
  shows "keeps (wf_under D) (mount_entry D el b)"
    and "keeps (wf_under D) (namespace_entry D el b)"
    and "keeps (wf_under D) (uid_mapping_entry D el b)"
    and "keeps (wf_under D) (gid_mapping_entry D el b)"
    and "keeps (wf_under D) (device_entry D el b)"
proof -
  have m: "mwf_under D d \<Longrightarrow> wf_under D (b\<lparr>UidMappings := UidMappings b @ [d]\<rparr>)" for d
    using assms by (auto simp: wf_under_def mwf_under_def)
  have v: "dwf_under D d \<Longrightarrow> wf_under D (b\<lparr>Devices := Devices b @ [d]\<rparr>)" for d
    using assms by (auto simp: wf_under_def dwf_under_def)
  have n: "wf_under D (b\<lparr>Mounts := ms\<rparr>)" "wf_under D (b\<lparr>Namespaces := ns\<rparr>)" for ms ns
    using assms by (simp_all add: wf_under_def)
  show "keeps (wf_under D) (mount_entry D el b)" "keeps (wf_under D) (namespace_entry D el b)"
    "keeps (wf_under D) (uid_mapping_entry D el b)" "keeps (wf_under D) (gid_mapping_entry D el b)"
    "keeps (wf_under D) (device_entry D el b)"
    unfolding mount_entry_def namespace_entry_def uid_mapping_entry_def gid_mapping_entry_def
      device_entry_def switch_tables
    by (intro keeps_on_get keeps_with_local assms n m v;
        auto dest: mapping_loop_wf device_loop_wf)+
qed

interpretation linux_wf: key_table_inv "linux_table D" "wf_under D" for D
proof
  fix k h s e
  assume h: "(k, h) \<in> set (linux_table D)" and s: "wf_under D s"
  have leaf: "wf_under D (s\<lparr>CgroupsPath := x\<rparr>)" for x
    using s by (simp add: wf_under_def)
  from h show "keeps (wf_under D) (h e s)"
    unfolding linux_table_def loadResources_def switch_tables
    by (auto intro!: keeps_on_get keeps_for_each s leaf entries_wf resources_wf.loop_keeps)
qed

interpretation annotation_wf: key_table_inv "annotation_table D" "wf_under D" for D
  by unfold_locales (auto simp: annotation_table_def wf_under_def intro!: keeps_on_get keeps_push_strings)

interpretation config_wf: key_table_inv "config_table D" "wf_under D" for D
proof
  fix k h s e
  assume h: "(k, h) \<in> set (config_table D)" and s: "wf_under D s"
  have leaf: "wf_under D (s\<lparr>OCIVersion := x\<rparr>)" for x
    using s by (simp add: wf_under_def)
  from h show "keeps (wf_under D) (h e s)"
    unfolding config_table_def loadProcess_def loadRoot_def loadLinux_def loadMounts_def
      switch_tables
    by (auto intro!: keeps_on_get keeps_for_each s leaf entries_wf process_wf.loop_keeps
        root_wf.loop_keeps linux_wf.loop_keeps annotation_wf.loop_keeps)
qed

lemma load_keeps_wf: "int64_law D \<Longrightarrow> bundle_wf b \<Longrightarrow> keeps bundle_wf (load_doc D doc b)"
proof -
  assume law: "int64_law D" and wf: "bundle_wf b"
  have "keeps (wf_under D) (load_doc D doc b)"
    unfolding load_doc_def config_key_table
    by (intro keeps_on_get config_wf.loop_keeps) (simp_all add: wf_under_def wf)
  then show ?thesis
    using law by (cases "load_doc D doc b") (simp_all add: wf_under_def)
qed

end
