(* ===== verification/Bundle_Spec.thy ===== *)
theory Bundle_Spec
  imports Bundle_Load
begin

text \<open>
  A declarative reading of \<^verbatim>\<open>config.json\<close> and the proof that the streaming loader
  implements it: every member of the loaded bundle is a function of the elements found at
  fixed paths of the document. Scalars take the last occurrence, vectors collect all
  occurrences in document order.
\<close>

section \<open>Values at paths\<close>

definition members :: "('el, 'z) simdjson_scheme \<Rightarrow> 'el \<Rightarrow> 'el object" where
  "members D el = (case get_object D el of Inl _ \<Rightarrow> [] | Inr ms \<Rightarrow> ms)"

definition elems :: "('el, 'z) simdjson_scheme \<Rightarrow> 'el \<Rightarrow> 'el list" where
  "elems D el = (case get_array D el of Inl _ \<Rightarrow> [] | Inr xs \<Rightarrow> xs)"

fun at_path :: "('el, 'z) simdjson_scheme \<Rightarrow> string list \<Rightarrow> 'el object \<Rightarrow> 'el list" where
  "at_path D [] ms = []"
| "at_path D [k] ms = values_of k ms"
| "at_path D (k # k' # ks) [] = []"
| "at_path D (k # k' # ks) ((k0, el) # ms) =
     (if k0 = k then at_path D (k' # ks) (members D el) else []) @ at_path D (k # k' # ks) ms"

definition payload :: "'a \<Rightarrow> simdjson_error + 'a \<Rightarrow> 'a" where
  "payload d r = (case r of Inl _ \<Rightarrow> d | Inr v \<Rightarrow> v)"

lemma payload_simps [simp]: "payload d (Inr v) = v" "payload d (Inl e) = d"
  by (simp_all add: payload_def)

definition str where "str D el = payload [] (get_string D el)"
definition flag where "flag D el = payload False (get_bool D el)"
definition num where "num D T el = payload 0 (get_int D T el)"
definition num64 where "num64 D el = payload 0 (get_int64 D el)"
definition strings where "strings D el = map (str D) (elems D el)"

fun latest :: "'a \<Rightarrow> 'a list \<Rightarrow> 'a" where
  "latest d [] = d"
| "latest d (x # xs) = latest x xs"

lemma latest_append [simp]: "latest d (xs @ ys) = latest (latest d xs) ys"
  by (induction xs arbitrary: d) auto

lemma latest_last: "latest d xs = (if xs = [] then d else last xs)"
  by (induction xs arbitrary: d) auto

section \<open>The reading of each object\<close>

definition consoleSize_spec where
  "consoleSize_spec D ms b = b
     \<lparr>ConsoleHeight := latest (ConsoleHeight b) (map (num D UInt32) (values_of ''height'' ms)),
      ConsoleWidth := latest (ConsoleWidth b) (map (num D UInt32) (values_of ''width'' ms))\<rparr>"

definition user_spec where
  "user_spec D ms b = b
     \<lparr>Uid := latest (Uid b) (map (num D Int32) (values_of ''uid'' ms)),
      UMask := latest (UMask b) (map (num D Int32) (values_of ''umask'' ms)),
      Gid := latest (Gid b) (map (num D Int32) (values_of ''gid'' ms)),
      AdditionalGids := AdditionalGids b @
        concat (map (\<lambda>el. map (num D Int32) (elems D el)) (values_of ''additionalGids'' ms))\<rparr>"

definition capability where
  "capability D k el = map (str D) (payload [] (get_at (at_key D (members D el) k) (get_array D)))"

definition rlimit where
  "rlimit D el = (let ms = members D el in
     (payload [] (get_at (at_key D ms ''type'') (get_string D)),
      payload 0 (get_at (at_key D ms ''soft'') (get_int64 D)),
      payload 0 (get_at (at_key D ms ''hard'') (get_int64 D))))"

definition rlimits_of where
  "rlimits_of D P = map (rlimit D) (payload [] (get_at (at_key D P ''rlimits'') (get_array D)))"

definition process_spec where
  "process_spec D P ms b = b
     \<lparr>Args := Args b @ concat (map (strings D) (at_path D [''args''] ms)),
      ConsoleHeight := latest (ConsoleHeight b)
        (map (num D UInt32) (at_path D [''consoleSize'', ''height''] ms)),
      ConsoleWidth := latest (ConsoleWidth b)
        (map (num D UInt32) (at_path D [''consoleSize'', ''width''] ms)),
      Cwd := latest (Cwd b) (map (str D) (at_path D [''cwd''] ms)),
      EffectiveCapabilities := EffectiveCapabilities b @
        concat (map (capability D ''effective'') (at_path D [''capabilities''] ms)),
      BoundingCapabilities := BoundingCapabilities b @
        concat (map (capability D ''bounding'') (at_path D [''capabilities''] ms)),
      InheritableCapabilities := InheritableCapabilities b @
        concat (map (capability D ''inheritable'') (at_path D [''capabilities''] ms)),
      PermittedCapabilities := PermittedCapabilities b @
        concat (map (capability D ''permitted'') (at_path D [''capabilities''] ms)),
      AmbientCapabilities := AmbientCapabilities b @
        concat (map (capability D ''ambient'') (at_path D [''capabilities''] ms)),
      Envs := Envs b @ concat (map (strings D) (at_path D [''env''] ms)),
      NoNewPrivileges := latest (NoNewPrivileges b) (map (flag D) (at_path D [''noNewPrivileges''] ms)),
      OomScoreAdj := latest (OomScoreAdj b) (map (num D Int32) (at_path D [''oomScoreAdj''] ms)),
      RLimits := RLimits b @ concat (map (\<lambda>_. rlimits_of D P) (at_path D [''rlimits''] ms)),
      Terminal := latest (Terminal b) (map (flag D) (at_path D [''terminal''] ms)),
      Uid := latest (Uid b) (map (num D Int32) (at_path D [''user'', ''uid''] ms)),
      UMask := latest (UMask b) (map (num D Int32) (at_path D [''user'', ''umask''] ms)),
      Gid := latest (Gid b) (map (num D Int32) (at_path D [''user'', ''gid''] ms)),
      AdditionalGids := AdditionalGids b @ concat (map (\<lambda>el. map (num D Int32) (elems D el))
        (at_path D [''user'', ''additionalGids''] ms))\<rparr>"

definition root_spec where
  "root_spec D ms b = b
     \<lparr>RootPath := latest (RootPath b) (map (str D) (at_path D [''path''] ms)),
      RootReadonly := latest (RootReadonly b) (map (flag D) (at_path D [''readonly''] ms))\<rparr>"

definition mount_spec where
  "mount_spec D ms d = d
     \<lparr>MntDestination := latest (MntDestination d) (map (str D) (values_of ''destination'' ms)),
      MntSource := latest (MntSource d) (map (str D) (values_of ''source'' ms)),
      MntType := latest (MntType d) (map (str D) (values_of ''type'' ms)),
      MntOptions := MntOptions d @ concat (map (strings D) (values_of ''options'' ms))\<rparr>"

definition namespace_spec where
  "namespace_spec D ms d = d
     \<lparr>NsType := latest (NsType d) (map (str D) (values_of ''type'' ms)),
      NsPath := latest (NsPath d) (map (str D) (values_of ''path'' ms))\<rparr>"

definition mapping_spec where
  "mapping_spec D ms d = d
     \<lparr>MapContainerId := latest (MapContainerId d) (map (num D UInt32) (values_of ''containerID'' ms)),
      MapHostId := latest (MapHostId d) (map (num D UInt32) (values_of ''hostID'' ms)),
      MapSize := latest (MapSize d) (map (num D UInt32) (values_of ''size'' ms))\<rparr>"

definition device_spec where
  "device_spec D ms d = d
     \<lparr>DevType := latest (DevType d) (map (str D) (values_of ''type'' ms)),
      DevPath := latest (DevPath d) (map (str D) (values_of ''path'' ms)),
      DevMajor := latest (DevMajor d) (map (num64 D) (values_of ''major'' ms)),
      DevMinor := latest (DevMinor d) (map (num64 D) (values_of ''minor'' ms)),
      DevFileMode := latest (DevFileMode d) (map (num D UInt32) (values_of ''fileMode'' ms)),
      DevUid := latest (DevUid d) (map (num D UInt32) (values_of ''uid'' ms)),
      DevGid := latest (DevGid d) (map (num D UInt32) (values_of ''gid'' ms))\<rparr>"

definition mounts_at where
  "mounts_at D el = map (\<lambda>x. mount_spec D (members D x) empty_mount) (elems D el)"
definition namespaces_at where
  "namespaces_at D el = map (\<lambda>x. namespace_spec D (members D x) empty_namespace) (elems D el)"
definition mappings_at where
  "mappings_at D el = map (\<lambda>x. mapping_spec D (members D x) empty_mapping) (elems D el)"
definition devices_at where
  "devices_at D el = map (\<lambda>x. device_spec D (members D x) empty_device) (elems D el)"

text \<open>
  Both \<^verbatim>\<open>uidMappings\<close> and \<^verbatim>\<open>gidMappings\<close> end in the member \<^verbatim>\<open>UidMappings\<close>, in the order in
  which the document has them.
\<close>

definition id_mapping_members :: "'el object \<Rightarrow> 'el list" where
  "id_mapping_members ms = map snd (filter (\<lambda>m. fst m = ''uidMappings'' \<or> fst m = ''gidMappings'') ms)"

lemma id_mapping_members_simps [simp]:
  "id_mapping_members [] = []"
  "id_mapping_members ((k, el) # ms) =
     (if k = ''uidMappings'' \<or> k = ''gidMappings'' then el # id_mapping_members ms
      else id_mapping_members ms)"
  by (simp_all add: id_mapping_members_def)

definition linux_spec where
  "linux_spec D ms b = b
     \<lparr>Namespaces := Namespaces b @ concat (map (namespaces_at D) (at_path D [''namespaces''] ms)),
      UidMappings := UidMappings b @ concat (map (mappings_at D) (id_mapping_members ms)),
      Devices := Devices b @ concat (map (devices_at D) (at_path D [''devices''] ms)),
      CgroupsPath := latest (CgroupsPath b) (map (str D) (at_path D [''cgroupsPath''] ms)),
      ResourcesMemoryLimit := latest (ResourcesMemoryLimit b)
        (map (num D UInt64) (at_path D [''resources'', ''memory'', ''limit''] ms)),
      ResourcesMemoryReservation := latest (ResourcesMemoryReservation b)
        (map (num D UInt64) (at_path D [''resources'', ''memory'', ''reservation''] ms))\<rparr>"

definition memory_spec where
  "memory_spec D ms b = b
     \<lparr>ResourcesMemoryLimit := latest (ResourcesMemoryLimit b)
        (map (num D UInt64) (at_path D [''limit''] ms)),
      ResourcesMemoryReservation := latest (ResourcesMemoryReservation b)
        (map (num D UInt64) (at_path D [''reservation''] ms))\<rparr>"

definition resources_spec where
  "resources_spec D ms b = b
     \<lparr>ResourcesMemoryLimit := latest (ResourcesMemoryLimit b)
        (map (num D UInt64) (at_path D [''memory'', ''limit''] ms)),
      ResourcesMemoryReservation := latest (ResourcesMemoryReservation b)
        (map (num D UInt64) (at_path D [''memory'', ''reservation''] ms))\<rparr>"

definition annotation_spec where
  "annotation_spec D ms b = b
     \<lparr>Cmds := Cmds b @ concat (map (strings D)
        (at_path D [''org.wasmedge.exec.allow_commands''] ms))\<rparr>"

text \<open>The whole document; paths start at its root.\<close>

definition config_spec where
  "config_spec D ms b = b
     \<lparr>OCIVersion := latest (OCIVersion b) (map (str D) (at_path D [''ociVersion''] ms)),
      Cmds := Cmds b @ concat (map (strings D)
        (at_path D [''annotations'', ''org.wasmedge.exec.allow_commands''] ms)),
      Mounts := Mounts b @ concat (map (mounts_at D) (at_path D [''mounts''] ms)),
      Args := Args b @ concat (map (strings D) (at_path D [''process'', ''args''] ms)),
      ConsoleHeight := latest (ConsoleHeight b)
        (map (num D UInt32) (at_path D [''process'', ''consoleSize'', ''height''] ms)),
      ConsoleWidth := latest (ConsoleWidth b)
        (map (num D UInt32) (at_path D [''process'', ''consoleSize'', ''width''] ms)),
      Cwd := latest (Cwd b) (map (str D) (at_path D [''process'', ''cwd''] ms)),
      EffectiveCapabilities := EffectiveCapabilities b @
        concat (map (capability D ''effective'') (at_path D [''process'', ''capabilities''] ms)),
      BoundingCapabilities := BoundingCapabilities b @
        concat (map (capability D ''bounding'') (at_path D [''process'', ''capabilities''] ms)),
      InheritableCapabilities := InheritableCapabilities b @
        concat (map (capability D ''inheritable'') (at_path D [''process'', ''capabilities''] ms)),
      PermittedCapabilities := PermittedCapabilities b @
        concat (map (capability D ''permitted'') (at_path D [''process'', ''capabilities''] ms)),
      AmbientCapabilities := AmbientCapabilities b @
        concat (map (capability D ''ambient'') (at_path D [''process'', ''capabilities''] ms)),
      Envs := Envs b @ concat (map (strings D) (at_path D [''process'', ''env''] ms)),
      NoNewPrivileges := latest (NoNewPrivileges b)
        (map (flag D) (at_path D [''process'', ''noNewPrivileges''] ms)),
      OomScoreAdj := latest (OomScoreAdj b)
        (map (num D Int32) (at_path D [''process'', ''oomScoreAdj''] ms)),
      RLimits := RLimits b @ concat (map (\<lambda>el. concat (map (\<lambda>_. rlimits_of D (members D el))
        (values_of ''rlimits'' (members D el)))) (at_path D [''process''] ms)),
      Terminal := latest (Terminal b) (map (flag D) (at_path D [''process'', ''terminal''] ms)),
      Uid := latest (Uid b) (map (num D Int32) (at_path D [''process'', ''user'', ''uid''] ms)),
      UMask := latest (UMask b) (map (num D Int32) (at_path D [''process'', ''user'', ''umask''] ms)),
      Gid := latest (Gid b) (map (num D Int32) (at_path D [''process'', ''user'', ''gid''] ms)),
      AdditionalGids := AdditionalGids b @ concat (map (\<lambda>el. map (num D Int32) (elems D el))
        (at_path D [''process'', ''user'', ''additionalGids''] ms)),
      RootPath := latest (RootPath b) (map (str D) (at_path D [''root'', ''path''] ms)),
      RootReadonly := latest (RootReadonly b) (map (flag D) (at_path D [''root'', ''readonly''] ms)),
      Namespaces := Namespaces b @
        concat (map (namespaces_at D) (at_path D [''linux'', ''namespaces''] ms)),
      UidMappings := UidMappings b @ concat (map (\<lambda>el. concat (map (mappings_at D)
        (id_mapping_members (members D el)))) (at_path D [''linux''] ms)),
      Devices := Devices b @ concat (map (devices_at D) (at_path D [''linux'', ''devices''] ms)),
      CgroupsPath := latest (CgroupsPath b) (map (str D) (at_path D [''linux'', ''cgroupsPath''] ms)),
      ResourcesMemoryLimit := latest (ResourcesMemoryLimit b)
        (map (num D UInt64) (at_path D [''linux'', ''resources'', ''memory'', ''limit''] ms)),
      ResourcesMemoryReservation := latest (ResourcesMemoryReservation b)
        (map (num D UInt64) (at_path D [''linux'', ''resources'', ''memory'', ''reservation''] ms))\<rparr>"

section \<open>The loops compute it\<close>

lemma push_loop:
  "for_each (\<lambda>x s. on_get (g x) s (\<lambda>v. Done (push v s))) xs s = Done s' \<Longrightarrow>
     s' = fold push (map (\<lambda>x. payload d (g x)) xs) s"
  by (induction xs arbitrary: s) (fastforce simp: outcome_splits)+

lemma push_strings_Done: "push_strings D push xs s = Done s' \<Longrightarrow> s' = fold push (map (str D) xs) s"
  unfolding push_strings_def str_def by (rule push_loop)

lemma on_get_array_Done:
  "on_get (get_array D el) s k = Done s' \<Longrightarrow> k (elems D el) = Done s'"
  by (cases "get_array D el") (simp_all add: elems_def)

lemma on_get_object_Done:
  "on_get (get_object D el) s k = Done s' \<Longrightarrow> k (members D el) = Done s'"
  by (cases "get_object D el") (simp_all add: members_def)

lemma on_get_leaf_Done:
  "on_get (get_string D el) s (\<lambda>v. Done (f v)) = Done s' \<Longrightarrow> s' = f (str D el)"
  "on_get (get_bool D el) s (\<lambda>v. Done (g v)) = Done s' \<Longrightarrow> s' = g (flag D el)"
  "on_get (get_int D T el) s (\<lambda>v. Done (h v)) = Done s' \<Longrightarrow> s' = h (num D T el)"
  "on_get (get_int64 D el) s (\<lambda>v. Done (h v)) = Done s' \<Longrightarrow> s' = h (num64 D el)"
  by (auto simp: on_get_Done_iff str_def flag_def num_def num64_def)

lemmas get_Done = on_get_array_Done on_get_object_Done on_get_leaf_Done

text \<open>A loop over a table computes a specification that its handlers compose.\<close>

lemma table_loop_spec:
  assumes nil: "\<And>s. spec [] s = s"
    and skip: "\<And>k e ms s. k \<notin> fst ` set table \<Longrightarrow> spec ((k, e) # ms) s = spec ms s"
    and hit: "\<And>k h e ms s s'. (k, h) \<in> set table \<Longrightarrow> h e s = Done s' \<Longrightarrow>
                spec ((k, e) # ms) s = spec ms s'"
  shows "for_each (dispatch table) ms s = Done s' \<Longrightarrow> s' = spec ms s"
proof (induction ms arbitrary: s)
  case (Cons m ms)
  obtain k e where m: "m = (k, e)" by (cases m)
  from Cons.prems obtain t where t: "dispatch table (k, e) s = Done t"
    and rest: "for_each (dispatch table) ms t = Done s'"
    unfolding m by (auto simp: and_then_Done_iff simp del: dispatch.simps)
  have "spec ((k, e) # ms) s = spec ms t"
  proof (cases "map_of table k")
    case None
    with t have "t = s" by (simp split: if_splits)
    moreover from None have "k \<notin> fst ` set table" by (simp only: map_of_eq_None_iff not_False_eq_True)
    ultimately show ?thesis by (simp add: skip)
  next
    case (Some h)
    with t have "h e s = Done t" by (simp split: if_splits)
    with hit [OF map_of_SomeD [OF Some]] show ?thesis .
  qed
  with Cons.IH [OF rest] show ?case by (simp add: m)
qed (simp add: nil)

lemma push_field:
  "fold (\<lambda>s b. b\<lparr>Args := Args b @ [s]\<rparr>) xs b = b\<lparr>Args := Args b @ xs\<rparr>"
  "fold (\<lambda>s b. b\<lparr>Envs := Envs b @ [s]\<rparr>) xs b = b\<lparr>Envs := Envs b @ xs\<rparr>"
  "fold (\<lambda>s b. b\<lparr>Cmds := Cmds b @ [s]\<rparr>) xs b = b\<lparr>Cmds := Cmds b @ xs\<rparr>"
  "fold (\<lambda>v b. b\<lparr>AdditionalGids := AdditionalGids b @ [v]\<rparr>) vs b
     = b\<lparr>AdditionalGids := AdditionalGids b @ vs\<rparr>"
  "fold (\<lambda>s d. d\<lparr>MntOptions := MntOptions d @ [s]\<rparr>) xs d = d\<lparr>MntOptions := MntOptions d @ xs\<rparr>"
  by (induction xs arbitrary: b d, auto, induction vs arbitrary: b, auto)

lemma push_caps:
  "fold (\<lambda>s b. b\<lparr>EffectiveCapabilities := EffectiveCapabilities b @ [s]\<rparr>) xs b
     = b\<lparr>EffectiveCapabilities := EffectiveCapabilities b @ xs\<rparr>"
  "fold (\<lambda>s b. b\<lparr>BoundingCapabilities := BoundingCapabilities b @ [s]\<rparr>) xs b
     = b\<lparr>BoundingCapabilities := BoundingCapabilities b @ xs\<rparr>"
  "fold (\<lambda>s b. b\<lparr>InheritableCapabilities := InheritableCapabilities b @ [s]\<rparr>) xs b
     = b\<lparr>InheritableCapabilities := InheritableCapabilities b @ xs\<rparr>"
  "fold (\<lambda>s b. b\<lparr>PermittedCapabilities := PermittedCapabilities b @ [s]\<rparr>) xs b
     = b\<lparr>PermittedCapabilities := PermittedCapabilities b @ xs\<rparr>"
  "fold (\<lambda>s b. b\<lparr>AmbientCapabilities := AmbientCapabilities b @ [s]\<rparr>) xs b
     = b\<lparr>AmbientCapabilities := AmbientCapabilities b @ xs\<rparr>"
  by (induction xs arbitrary: b) auto

lemma consoleSize_loop:
  "for_each (dispatch (consoleSize_table D)) ms b = Done b' \<Longrightarrow> b' = consoleSize_spec D ms b"
  by (erule table_loop_spec [rotated 3])
    ((auto simp: consoleSize_table_def dest!: get_Done)?; simp add: consoleSize_spec_def)+

lemma mapping_loop:
  "for_each (dispatch (mapping_table D)) ms d = Done d' \<Longrightarrow> d' = mapping_spec D ms d"
  by (erule table_loop_spec [rotated 3])
    ((auto simp: mapping_table_def dest!: get_Done)?; simp add: mapping_spec_def)+

lemma namespace_loop:
  "for_each (dispatch (namespace_table D)) ms d = Done d' \<Longrightarrow> d' = namespace_spec D ms d"
  by (erule table_loop_spec [rotated 3])
    ((auto simp: namespace_table_def dest!: get_Done)?; simp add: namespace_spec_def)+

lemma device_loop:
  "for_each (dispatch (device_table D)) ms d = Done d' \<Longrightarrow> d' = device_spec D ms d"
  by (erule table_loop_spec [rotated 3])
    ((auto simp: device_table_def dest!: get_Done)?; simp add: device_spec_def)+

lemma mount_loop:
  "for_each (dispatch (mount_table D)) ms d = Done d' \<Longrightarrow> d' = mount_spec D ms d"
  by (erule table_loop_spec [rotated 3])
    ((auto simp: mount_table_def dest!: get_Done push_strings_Done)?; simp add: mount_spec_def strings_def push_field)+

lemma root_loop:
  "for_each (dispatch (root_table D)) ms b = Done b' \<Longrightarrow> b' = root_spec D ms b"
  by (erule table_loop_spec [rotated 3])
    ((auto simp: root_table_def dest!: get_Done)?; simp add: root_spec_def)+

lemma memory_loop:
  "for_each (dispatch (memory_table D)) ms b = Done b' \<Longrightarrow> b' = memory_spec D ms b"
  by (erule table_loop_spec [rotated 3])
    ((auto simp: memory_table_def dest!: get_Done)?; simp add: memory_spec_def)+

lemma resources_loop:
  "for_each (dispatch (resources_table D)) ms b = Done b' \<Longrightarrow> b' = resources_spec D ms b"
  by (erule table_loop_spec [rotated 3])
    ((auto simp: resources_table_def dest!: get_Done memory_loop)?; simp add: resources_spec_def memory_spec_def)+

lemma annotation_loop:
  "for_each (dispatch (annotation_table D)) ms b = Done b' \<Longrightarrow> b' = annotation_spec D ms b"
  by (erule table_loop_spec [rotated 3])
    ((auto simp: annotation_table_def dest!: get_Done push_strings_Done)?; simp add: annotation_spec_def strings_def push_field)+

lemma gids_loop:
  "for_each (\<lambda>x b. on_get (get_int D Int32 x) b (\<lambda>v.
     Done (b\<lparr>AdditionalGids := AdditionalGids b @ [v]\<rparr>))) xs b = Done b' \<Longrightarrow>
   b' = b\<lparr>AdditionalGids := AdditionalGids b @ map (num D Int32) xs\<rparr>"
  by (drule push_loop [where d = 0]) (simp add: push_field num_def)

lemma user_loop:
  "for_each (dispatch (user_table D)) ms b = Done b' \<Longrightarrow> b' = user_spec D ms b"
  by (erule table_loop_spec [rotated 3])
    ((auto simp: user_table_def dest!: get_Done gids_loop)?; simp add: user_spec_def)+


lemma loadCapability_Done:
  "loadCapability D ms k push b = Done b' \<Longrightarrow>
     b' = fold push (map (str D) (payload [] (get_at (at_key D ms k) (get_array D)))) b"
  by (auto simp: loadCapability_def split: sum.splits if_splits dest!: push_strings_Done)

lemma loadCapabilities_Done:
  assumes "loadCapabilities D (members D el) b = Done b'"
  shows "b' = b
    \<lparr>EffectiveCapabilities := EffectiveCapabilities b @ capability D ''effective'' el,
     BoundingCapabilities := BoundingCapabilities b @ capability D ''bounding'' el,
     InheritableCapabilities := InheritableCapabilities b @ capability D ''inheritable'' el,
     PermittedCapabilities := PermittedCapabilities b @ capability D ''permitted'' el,
     AmbientCapabilities := AmbientCapabilities b @ capability D ''ambient'' el\<rparr>"
  using assms unfolding loadCapabilities_def and_then_Done_iff
  by (elim exE conjE) ((drule loadCapability_Done)+, simp add: push_caps capability_def)

lemma rlimit_loop:
  "for_each (rlimit_entry D) xs b = Done b' \<Longrightarrow> b' = b\<lparr>RLimits := RLimits b @ map (rlimit D) xs\<rparr>"
proof (induction xs arbitrary: b)
  case (Cons x xs)
  from Cons.prems obtain t where t: "rlimit_entry D x b = Done t"
    and rest: "for_each (rlimit_entry D) xs t = Done b'"
    by (auto simp: and_then_Done_iff)
  from t have "t = b\<lparr>RLimits := RLimits b @ [rlimit D x]\<rparr>"
    by (auto simp: rlimit_entry_def on_get_Done_iff rlimit_def members_def)
  with Cons.IH [OF rest] show ?case by simp
qed simp

lemma rlimits_Done:
  "on_get (get_at (at_key D P ''rlimits'') (get_array D)) b (\<lambda>xs. for_each (rlimit_entry D) xs b)
     = Done b' \<Longrightarrow> b' = b\<lparr>RLimits := RLimits b @ rlimits_of D P\<rparr>"
  by (auto simp: on_get_Done_iff rlimits_of_def dest: rlimit_loop)

lemma process_loop:
  "for_each (dispatch (process_table D P)) ms b = Done b' \<Longrightarrow> b' = process_spec D P ms b"
  by (erule table_loop_spec [rotated 3])
    ((auto simp: process_table_def dest!: get_Done push_strings_Done consoleSize_loop user_loop
        loadCapabilities_Done rlimits_Done)?;
     simp add: process_spec_def strings_def push_field consoleSize_spec_def user_spec_def)+

lemma descriptor_loop:
  assumes "\<And>x s s'. f x s = Done s' \<Longrightarrow> s' = push (g x) s"
  shows "for_each f xs s = Done s' \<Longrightarrow> s' = fold push (map g xs) s"
proof (induction xs arbitrary: s)
  case (Cons x xs)
  then show ?case by (auto simp: and_then_Done_iff dest!: assms)
qed simp


lemma push_desc:
  "fold (\<lambda>d b. b\<lparr>Mounts := Mounts b @ [d]\<rparr>) ds b = b\<lparr>Mounts := Mounts b @ ds\<rparr>"
  "fold (\<lambda>d b. b\<lparr>Namespaces := Namespaces b @ [d]\<rparr>) ns b = b\<lparr>Namespaces := Namespaces b @ ns\<rparr>"
  "fold (\<lambda>d b. b\<lparr>UidMappings := UidMappings b @ [d]\<rparr>) us b = b\<lparr>UidMappings := UidMappings b @ us\<rparr>"
  "fold (\<lambda>d b. b\<lparr>Devices := Devices b @ [d]\<rparr>) vs b = b\<lparr>Devices := Devices b @ vs\<rparr>"
  by (induction ds arbitrary: b, auto, induction ns arbitrary: b, auto,
      induction us arbitrary: b, auto, induction vs arbitrary: b, auto)

lemma entry_Done:
  "mount_entry D x b = Done b' \<Longrightarrow>
     b' = b\<lparr>Mounts := Mounts b @ [mount_spec D (members D x) empty_mount]\<rparr>"
  "namespace_entry D x b = Done b' \<Longrightarrow>
     b' = b\<lparr>Namespaces := Namespaces b @ [namespace_spec D (members D x) empty_namespace]\<rparr>"
  "uid_mapping_entry D x b = Done b' \<Longrightarrow>
     b' = b\<lparr>UidMappings := UidMappings b @ [mapping_spec D (members D x) empty_mapping]\<rparr>"
  "gid_mapping_entry D x b = Done b' \<Longrightarrow>
     b' = b\<lparr>UidMappings := UidMappings b @ [mapping_spec D (members D x) empty_mapping]\<rparr>"
  "device_entry D x b = Done b' \<Longrightarrow>
     b' = b\<lparr>Devices := Devices b @ [device_spec D (members D x) empty_device]\<rparr>"
  unfolding mount_entry_def namespace_entry_def uid_mapping_entry_def gid_mapping_entry_def
    device_entry_def switch_tables
  by (drule on_get_object_Done, clarsimp simp: with_local_Done_iff,
      drule mount_loop namespace_loop mapping_loop device_loop, simp)+

lemma entries_Done:
  "for_each (mount_entry D) (elems D el) b = Done b' \<Longrightarrow> b' = b\<lparr>Mounts := Mounts b @ mounts_at D el\<rparr>"
  "for_each (namespace_entry D) (elems D el) b = Done b' \<Longrightarrow>
     b' = b\<lparr>Namespaces := Namespaces b @ namespaces_at D el\<rparr>"
  "for_each (uid_mapping_entry D) (elems D el) b = Done b' \<Longrightarrow>
     b' = b\<lparr>UidMappings := UidMappings b @ mappings_at D el\<rparr>"
  "for_each (gid_mapping_entry D) (elems D el) b = Done b' \<Longrightarrow>
     b' = b\<lparr>UidMappings := UidMappings b @ mappings_at D el\<rparr>"
  "for_each (device_entry D) (elems D el) b = Done b' \<Longrightarrow> b' = b\<lparr>Devices := Devices b @ devices_at D el\<rparr>"
  by - (drule descriptor_loop [rotated, where push = "\<lambda>d b. b\<lparr>Mounts := Mounts b @ [d]\<rparr>"], erule entry_Done(1), simp add: push_desc mounts_at_def
    | drule descriptor_loop [rotated, where push = "\<lambda>d b. b\<lparr>Namespaces := Namespaces b @ [d]\<rparr>"], erule entry_Done(2), simp add: push_desc namespaces_at_def
    | drule descriptor_loop [rotated, where push = "\<lambda>d b. b\<lparr>UidMappings := UidMappings b @ [d]\<rparr>"], erule entry_Done(3), simp add: push_desc mappings_at_def
    | drule descriptor_loop [rotated, where push = "\<lambda>d b. b\<lparr>UidMappings := UidMappings b @ [d]\<rparr>"], erule entry_Done(4), simp add: push_desc mappings_at_def
    | drule descriptor_loop [rotated, where push = "\<lambda>d b. b\<lparr>Devices := Devices b @ [d]\<rparr>"], erule entry_Done(5), simp add: push_desc devices_at_def)+

lemma linux_loop:
  "for_each (dispatch (linux_table D)) ms b = Done b' \<Longrightarrow> b' = linux_spec D ms b"
  by (erule table_loop_spec [rotated 3])
    ((auto simp: linux_table_def loadResources_def resources_key_table
        dest!: get_Done entries_Done resources_loop)?;
     simp add: linux_spec_def resources_spec_def)+

lemma config_loop:
  "for_each (dispatch (config_table D)) ms b = Done b' \<Longrightarrow> b' = config_spec D ms b"
  by (erule table_loop_spec [rotated 3])
    ((auto simp: config_table_def loadMounts_def loadProcess_def loadRoot_def loadLinux_def
        process_key_table root_key_table linux_key_table
        dest!: get_Done entries_Done annotation_loop process_loop root_loop linux_loop)?;
     simp add: config_spec_def annotation_spec_def process_spec_def root_spec_def linux_spec_def)+

lemma load_Done: "load_doc D (Inr el) b = Done b' \<Longrightarrow> b' = config_spec D (members D el) b"
  unfolding load_doc_def config_key_table
  by (auto dest!: get_Done config_loop)

end
