(* ===== verification/Container_State.thy ===== *)
theory Container_State
  imports Bundle_Config
begin

text \<open>
  The container state: \<^verbatim>\<open>include/state.h\<close> and \<^verbatim>\<open>src/state.cpp\<close>. The state is what runw
  keeps in \<^verbatim>\<open>state.json\<close> between invocations: \<^verbatim>\<open>print\<close> writes it, \<^verbatim>\<open>load\<close> reads it back.
\<close>

section \<open>Data\<close>

datatype StatusCode = Unknown | Creating | Created | Running | Stopped

record State =
  ContainerId :: string
  BundlePath :: string
  CreatedTimestamp :: string
  StartedTimestamp :: string
  FinishedTimestamp :: string
  Config :: Bundle
  Status :: StatusCode
  ExitCode :: int
  Pid :: int
  SystemdCgroup :: bool

definition kOCIVersion :: string where "kOCIVersion = ''1.0.2''"
definition kStatusUnknown :: string where "kStatusUnknown = ''unknown''"
definition kStatusCreating :: string where "kStatusCreating = ''creating''"
definition kStatusCreated :: string where "kStatusCreated = ''created''"
definition kStatusRunning :: string where "kStatusRunning = ''running''"
definition kStatusStopped :: string where "kStatusStopped = ''stopped''"

lemmas status_names = kStatusUnknown_def kStatusCreating_def kStatusCreated_def
  kStatusRunning_def kStatusStopped_def

text \<open>The default constructor and the one that takes an identifier and a bundle path.\<close>

definition default_state :: State where
  "default_state = \<lparr>ContainerId = [], BundlePath = [], CreatedTimestamp = [],
     StartedTimestamp = [], FinishedTimestamp = [], Config = empty_bundle, Status = Unknown,
     ExitCode = 0, Pid = - 1, SystemdCgroup = False\<rparr>"

definition new_state :: "string \<Rightarrow> string \<Rightarrow> State" where
  "new_state Cid Path = default_state\<lparr>ContainerId := Cid, BundlePath := Path\<rparr>"

section \<open>Helpers\<close>

fun getStatusString :: "StatusCode \<Rightarrow> string" where
  "getStatusString Creating = kStatusCreating"
| "getStatusString Created = kStatusCreated"
| "getStatusString Running = kStatusRunning"
| "getStatusString Stopped = kStatusStopped"
| "getStatusString Unknown = kStatusUnknown"

definition escape_char :: "char \<Rightarrow> string" where
  "escape_char C =
     (if C = CHR 0x08 then [CHR 0x5C, CHR ''b'']
      else if C = CHR 0x0C then [CHR 0x5C, CHR ''f'']
      else if C = CHR 0x0A then [CHR 0x5C, CHR ''n'']
      else if C = CHR 0x0D then [CHR 0x5C, CHR ''r'']
      else if C = CHR 0x09 then [CHR 0x5C, CHR ''t'']
      else if C = CHR 0x22 then [CHR 0x5C, CHR 0x22]
      else if C = CHR 0x5C then [CHR 0x5C, CHR 0x5C]
      else [C])"

fun jsonEscape :: "string \<Rightarrow> string" where
  "jsonEscape [] = []"
| "jsonEscape (C # String) = escape_char C @ jsonEscape String"

text \<open>A \<^verbatim>\<open>char\<close> promoted to \<^verbatim>\<open>int\<close>; the type is signed on the platforms runw is built for.\<close>

definition schar :: "char \<Rightarrow> int" where
  "schar c = (if char_val c < 128 then char_val c else char_val c - 256)"

definition parseStatus :: "string \<Rightarrow> StatusCode" where
  "parseStatus StatusString =
     (if length StatusString < 6 then Unknown
      else
        let k = schar (StatusString ! 0) + schar (StatusString ! 5)
        in if k = schar CHR ''c'' + schar CHR ''i'' then
             (if StatusString = kStatusCreating then Creating else Unknown)
           else if k = schar CHR ''c'' + schar CHR ''e'' then
             (if StatusString = kStatusCreated then Created else Unknown)
           else if k = schar CHR ''r'' + schar CHR ''n'' then
             (if StatusString = kStatusRunning then Running else Unknown)
           else if k = schar CHR ''s'' + schar CHR ''e'' then
             (if StatusString = kStatusStopped then Stopped else Unknown)
           else Unknown)"

text \<open>The conversion of an \<^verbatim>\<open>int64_t\<close> to a 32-bit \<^verbatim>\<open>int\<close> or \<^verbatim>\<open>pid_t\<close>: modulo $2^{32}$.\<close>

definition to_int32 :: "int \<Rightarrow> int" where
  "to_int32 v = (let r = v mod 4294967296 in if r < 2147483648 then r else r - 4294967296)"

section \<open>Time stamps\<close>

text \<open>
  \<^verbatim>\<open>strftime(\<dots>, "%Y-%m-%dT%H:%M:%SZ", gmtime(&Now))\<close>: the proleptic Gregorian date of the
  seconds since the epoch. The clock is taken to show a year that \<^verbatim>\<open>struct tm\<close> can hold, so that
  \<^verbatim>\<open>gmtime\<close> does not return a null pointer.
\<close>

definition pad2 :: "int \<Rightarrow> string" where
  "pad2 n = [digit_char (nat n div 10 mod 10), digit_char (nat n mod 10)]"

definition civil :: "int \<Rightarrow> int \<times> int \<times> int" where
  "civil days =
     (let z = days + 719468; era = z div 146097; doe = z mod 146097;
          yoe = (doe - doe div 1460 + doe div 36524 - doe div 146096) div 365;
          doy = doe - (365 * yoe + yoe div 4 - yoe div 100);
          mp = (5 * doy + 2) div 153;
          d = doy - (153 * mp + 2) div 5 + 1;
          m = (if mp < 10 then mp + 3 else mp - 9)
      in (yoe + era * 400 + (if m \<le> 2 then 1 else 0), m, d))"

definition timestamp :: "int \<Rightarrow> string" where
  "timestamp Now =
     (let (y, m, d) = civil (Now div 86400); s = Now mod 86400
      in show_int y @ ''-'' @ pad2 m @ ''-'' @ pad2 d @ ''T'' @ pad2 (s div 3600) @ '':''
         @ pad2 (s div 60 mod 60) @ '':'' @ pad2 (s mod 60) @ ''Z'')"

section \<open>Operations\<close>

definition setCreating :: "State \<Rightarrow> State" where
  "setCreating st = st\<lparr>Status := Creating\<rparr>"

definition setCreated :: "int \<Rightarrow> int \<Rightarrow> State \<Rightarrow> State" where
  "setCreated Now pid st = st\<lparr>Status := Created, CreatedTimestamp := timestamp Now, Pid := pid\<rparr>"

definition setRunning :: "int \<Rightarrow> State \<Rightarrow> State" where
  "setRunning Now st = st\<lparr>Status := Running, StartedTimestamp := timestamp Now\<rparr>"

definition setStopped :: "int \<Rightarrow> int \<Rightarrow> State \<Rightarrow> State" where
  "setStopped Now Code st =
     st\<lparr>Status := Stopped, ExitCode := Code, FinishedTimestamp := timestamp Now\<rparr>"

definition setSystemdCgroup :: "bool \<Rightarrow> State \<Rightarrow> State" where
  "setSystemdCgroup Value st = st\<lparr>SystemdCgroup := Value\<rparr>"

definition getPid :: "State \<Rightarrow> int" where
  "getPid st = Pid st"

definition loadBundle ::
  "('el, 'z) simdjson_scheme \<Rightarrow> (string \<Rightarrow> simdjson_error + 'el) \<Rightarrow> string \<Rightarrow> State
     \<Rightarrow> State outcome" where
  "loadBundle D files ConfigFileName st =
     (case load D files (BundlePath st) ConfigFileName (Config st) of
        Done c \<Rightarrow> Done (st\<lparr>Config := c\<rparr>)
      | Failed c \<Rightarrow> Failed (st\<lparr>Config := c\<rparr>)
      | Undef \<Rightarrow> Undef)"

definition field :: "('el, 'z) simdjson_scheme \<Rightarrow> 'el \<Rightarrow> string \<Rightarrow> ('el \<Rightarrow> simdjson_error + 'a) \<Rightarrow> simdjson_error + 'a" where
  "field D el k get = get_at (element_at D el k) get"

text \<open>The four blocks of \<^verbatim>\<open>State::load\<close> that read the members depending on the status.\<close>

definition load_pid :: "('el, 'z) simdjson_scheme \<Rightarrow> 'el \<Rightarrow> State \<Rightarrow> State outcome" where
  "load_pid D el st =
     (if Status st = Created \<or> Status st = Running then
        on_get (field D el ''pid'' (get_int64 D)) st (\<lambda>v. Done (st\<lparr>Pid := to_int32 v\<rparr>))
      else Done st)"

definition load_created :: "('el, 'z) simdjson_scheme \<Rightarrow> 'el \<Rightarrow> State \<Rightarrow> State outcome" where
  "load_created D el st =
     (if Status st = Created \<or> Status st = Running \<or> Status st = Stopped then
        on_get (field D el ''created'' (get_string D)) st (\<lambda>s. Done (st\<lparr>CreatedTimestamp := s\<rparr>))
      else Done st)"

definition load_started :: "('el, 'z) simdjson_scheme \<Rightarrow> 'el \<Rightarrow> State \<Rightarrow> State outcome" where
  "load_started D el st =
     (if Status st = Running \<or> Status st = Stopped then
        on_get (field D el ''started'' (get_string D)) st (\<lambda>s. Done (st\<lparr>StartedTimestamp := s\<rparr>))
      else Done st)"

definition load_finished :: "('el, 'z) simdjson_scheme \<Rightarrow> 'el \<Rightarrow> State \<Rightarrow> State outcome" where
  "load_finished D el st =
     (if Status st = Stopped then
        on_get (field D el ''exitCode'' (get_int64 D)) st (\<lambda>v.
          let st = st\<lparr>ExitCode := to_int32 v\<rparr> in
          on_get (field D el ''finished'' (get_string D)) st (\<lambda>s.
            Done (st\<lparr>FinishedTimestamp := s\<rparr>)))
      else Done st)"

definition state_load ::
  "('el, 'z) simdjson_scheme \<Rightarrow> (string \<Rightarrow> simdjson_error + 'el) \<Rightarrow> string \<Rightarrow> string \<Rightarrow> State
     \<Rightarrow> State outcome" where
  "state_load D files Path ConfigFileName st =
     on_get (files Path) st (\<lambda>el.
     on_get (field D el ''ociVersion'' (get_string D)) st (\<lambda>Version.
     if Version \<noteq> kOCIVersion then Failed st else
     on_get (field D el ''status'' (get_string D)) st (\<lambda>StatusString.
     let st = st\<lparr>Status := parseStatus StatusString\<rparr> in
     if Status st = Unknown then Failed st else
     on_get (field D el ''id'' (get_string D)) st (\<lambda>s.
     let st = st\<lparr>ContainerId := s\<rparr> in
     on_get (field D el ''bundle'' (get_string D)) st (\<lambda>s.
     let st = st\<lparr>BundlePath := s\<rparr> in
     on_get (field D el ''systemd-cgroup'' (get_bool D)) st (\<lambda>v.
     let st = st\<lparr>SystemdCgroup := v\<rparr> in
     and_then (load_pid D el st) (\<lambda>st.
     and_then (load_created D el st) (\<lambda>st.
     and_then (load_started D el st) (\<lambda>st.
     and_then (load_finished D el st) (\<lambda>st.
     loadBundle D files ConfigFileName st))))))))))"

definition quoted :: "string \<Rightarrow> string" where
  "quoted s = CHR 0x22 # s @ [CHR 0x22]"

definition show_bool :: "bool \<Rightarrow> string" where
  "show_bool b = (if b then ''true'' else ''false'')"

text \<open>The raw string literals of \<^verbatim>\<open>State::print\<close>, split at the places where a value is inserted.\<close>

definition print :: "State \<Rightarrow> string" where
  "print st =
     ''{'' @ quoted ''ociVersion'' @ '':'' @ quoted kOCIVersion
     @ '','' @ quoted ''id'' @ '':'' @ quoted (jsonEscape (ContainerId st))
     @ '','' @ quoted ''status'' @ '':'' @ quoted (getStatusString (Status st))
     @ '','' @ quoted ''bundle'' @ '':'' @ quoted (jsonEscape (BundlePath st))
     @ '','' @ quoted ''systemd-cgroup'' @ '':'' @ show_bool (SystemdCgroup st)
     @ (if Status st = Created \<or> Status st = Running
        then '','' @ quoted ''pid'' @ '':'' @ show_int (Pid st) else [])
     @ (if Status st = Created \<or> Status st = Running \<or> Status st = Stopped
        then '','' @ quoted ''created'' @ '':'' @ quoted (CreatedTimestamp st) else [])
     @ (if Status st = Running \<or> Status st = Stopped
        then '','' @ quoted ''started'' @ '':'' @ quoted (StartedTimestamp st) else [])
     @ (if Status st = Stopped
        then '','' @ quoted ''exitCode'' @ '':'' @ show_int (ExitCode st)
             @ '','' @ quoted ''finished'' @ '':'' @ quoted (FinishedTimestamp st) else [])
     @ ''}'' @ [CHR 0x0A]"

end
