(* ===== verification/State_File.thy ===== *)
theory State_File
  imports Container_State
begin

text \<open>
  What a printed state file is and what is read back from it: the decoding of status names,
  the inverse of \<^verbatim>\<open>jsonEscape\<close>, the fact that \<^verbatim>\<open>State::print\<close> writes a JSON object, and the
  round trip through \<^verbatim>\<open>State::load\<close>.
\<close>

section \<open>Codecs\<close>

text \<open>An encoder with a decoder that inverts it on the values of interest.\<close>

locale codec =
  fixes enc :: "'a \<Rightarrow> 'b" and dec :: "'b \<Rightarrow> 'a option" and good :: "'a \<Rightarrow> bool"
  assumes dec_enc: "good x \<Longrightarrow> dec (enc x) = Some x"
begin

lemma enc_inject: "good x \<Longrightarrow> good y \<Longrightarrow> enc x = enc y \<longleftrightarrow> x = y"
  by (metis dec_enc option.inject)

end

subsection \<open>Status names\<close>

lemma parseStatus_iff:
  "parseStatus s = (if s = kStatusCreating then Creating
     else if s = kStatusCreated then Created
     else if s = kStatusRunning then Running
     else if s = kStatusStopped then Stopped
     else Unknown)"
  unfolding parseStatus_def
  by (auto simp: status_names schar_def char_val_def Let_def)

interpretation status: codec getStatusString
  "\<lambda>s. if parseStatus s = Unknown then None else Some (parseStatus s)" "\<lambda>c. c \<noteq> Unknown"
proof
  fix c assume "c \<noteq> Unknown"
  then show "(if parseStatus (getStatusString c) = Unknown then None
      else Some (parseStatus (getStatusString c))) = Some c"
    by (cases c) (simp_all add: parseStatus_iff status_names)
qed

subsection \<open>String literals\<close>

text \<open>The two-character escapes of RFC 8259 and the characters a literal may hold as they are.\<close>

definition escape_of :: "char \<Rightarrow> char option" where
  "escape_of c = map_of [(CHR 0x22, CHR 0x22), (CHR 0x5C, CHR 0x5C), (CHR ''/'', CHR ''/''),
     (CHR ''b'', CHR 0x08), (CHR ''f'', CHR 0x0C), (CHR ''n'', CHR 0x0A), (CHR ''r'', CHR 0x0D),
     (CHR ''t'', CHR 0x09)] c"

definition plain_char :: "char \<Rightarrow> bool" where
  "plain_char c \<longleftrightarrow> c \<noteq> CHR 0x22 \<and> c \<noteq> CHR 0x5C \<and> 32 \<le> char_val c \<and> char_val c < 128"

fun unescape :: "string \<Rightarrow> string option" where
  "unescape [] = Some []"
| "unescape (c # s) =
     (if c = CHR 0x5C then
        (case s of [] \<Rightarrow> None
         | d # t \<Rightarrow> (case escape_of d of None \<Rightarrow> None | Some e \<Rightarrow> map_option ((#) e) (unescape t)))
      else if plain_char c then map_option ((#) c) (unescape s)
      else None)"

text \<open>The characters that survive the trip: ASCII, and no control character but the five with an escape.\<close>

definition escapable :: "char \<Rightarrow> bool" where
  "escapable c \<longleftrightarrow> plain_char c \<or>
     c \<in> {CHR 0x08, CHR 0x0C, CHR 0x0A, CHR 0x0D, CHR 0x09, CHR 0x22, CHR 0x5C}"

lemma escape_of_simps:
  "escape_of CHR 0x22 = Some CHR 0x22" "escape_of CHR 0x5C = Some CHR 0x5C"
  "escape_of CHR ''b'' = Some CHR 0x08" "escape_of CHR ''f'' = Some CHR 0x0C"
  "escape_of CHR ''n'' = Some CHR 0x0A" "escape_of CHR ''r'' = Some CHR 0x0D"
  "escape_of CHR ''t'' = Some CHR 0x09"
  by (simp_all add: escape_of_def)

lemma unescape_escape_char:
  "escapable c \<Longrightarrow> unescape (escape_char c @ s) = map_option ((#) c) (unescape s)"
  by (auto simp: escapable_def escape_char_def escape_of_simps)

lemma unescape_jsonEscape: "list_all escapable s \<Longrightarrow> unescape (jsonEscape s) = Some s"
  by (induction s) (simp_all add: unescape_escape_char)

text \<open>Any other control character is copied verbatim, and the literal is no longer JSON.\<close>

lemma unescape_bad:
  "\<not> escapable c \<Longrightarrow> unescape (escape_char c @ s) = None"
  by (auto simp: escapable_def escape_char_def)

lemma unescape_jsonEscape_iff: "unescape (jsonEscape s) = (if list_all escapable s then Some s else None)"
proof (induction s)
  case (Cons c s)
  then show ?case
    by (cases "escapable c") (auto simp: unescape_escape_char unescape_bad)
qed simp

interpretation escape: codec jsonEscape unescape "list_all escapable"
  by unfold_locales (rule unescape_jsonEscape)

lemma unescape_plain: "list_all plain_char s \<Longrightarrow> unescape s = Some s"
  by (induction s) (auto simp: plain_char_def)

section \<open>Flat JSON objects\<close>

text \<open>
  The text of an object whose members are strings, integers and Booleans: the part of JSON
  that a state file uses. A string token is given by its raw text, between the quotes.
\<close>

datatype token = TStr string | TInt int | TBool bool

fun token_text :: "token \<Rightarrow> string" where
  "token_text (TStr t) = quoted t"
| "token_text (TInt i) = show_int i"
| "token_text (TBool b) = show_bool b"

definition member_text :: "string \<times> token \<Rightarrow> string" where
  "member_text m = quoted (fst m) @ '':'' @ token_text (snd m)"

fun members_text :: "(string \<times> token) list \<Rightarrow> string" where
  "members_text [] = []"
| "members_text [m] = member_text m"
| "members_text (m # ms) = member_text m @ '','' @ members_text ms"

definition object_text :: "(string \<times> token) list \<Rightarrow> string" where
  "object_text ms = ''{'' @ members_text ms @ ''}'' @ [CHR 0x0A]"

fun token_valid :: "token \<Rightarrow> bool" where
  "token_valid (TStr t) \<longleftrightarrow> unescape t \<noteq> None"
| "token_valid (TInt i) \<longleftrightarrow> - (2 ^ 63) \<le> i \<and> i < 2 ^ 63"
| "token_valid (TBool b) \<longleftrightarrow> True"

fun denotes :: "('el, 'z) simdjson_scheme \<Rightarrow> token \<Rightarrow> 'el \<Rightarrow> bool" where
  "denotes D (TStr t) el \<longleftrightarrow> map_option Inr (unescape t) = Some (get_string D el)"
| "denotes D (TInt i) el \<longleftrightarrow> get_int64 D el = Inr i"
| "denotes D (TBool b) el \<longleftrightarrow> get_bool D el = Inr b"

text \<open>
  The documented behaviour of the parser on such texts (simdjson parses every document of
  RFC 8259): the element is an object with the members of the text, in order, each with the
  value its token denotes.
\<close>

definition parses_flat :: "('el, 'z) simdjson_scheme \<Rightarrow> bool" where
  "parses_flat D \<longleftrightarrow>
     (\<forall>ms. ms \<noteq> [] \<longrightarrow> list_all (\<lambda>m. list_all plain_char (fst m) \<and> token_valid (snd m)) ms \<longrightarrow>
        (\<exists>el els. parse_json D (object_text ms) = Inr el \<and> get_object D el = Inr els \<and>
           list_all2 (\<lambda>m e. fst m = fst e \<and> denotes D (snd m) (snd e)) ms els))"

lemma list_all2_lookup:
  "list_all2 (\<lambda>m e. fst m = fst e \<and> denotes D (snd m) (snd e)) ms els \<Longrightarrow>
     map_of ms k = Some tok \<Longrightarrow> \<exists>e. map_of els k = Some e \<and> denotes D tok e"
  by (induction ms els rule: list_all2_induct) (auto split: if_splits)

lemma parses_flat_field:
  assumes "parses_flat D" "dom_laws D" "ms \<noteq> []"
    and "list_all (\<lambda>m. list_all plain_char (fst m) \<and> token_valid (snd m)) ms"
  obtains el where "parse_json D (object_text ms) = Inr el"
    and "\<And>k tok. map_of ms k = Some tok \<Longrightarrow> \<exists>e. element_at D el k = Inr e \<and> denotes D tok e"
proof -
  from assms(1,3,4) obtain el els where el: "parse_json D (object_text ms) = Inr el"
    and obj: "get_object D el = Inr els"
    and fit: "list_all2 (\<lambda>m e. fst m = fst e \<and> denotes D (snd m) (snd e)) ms els"
    unfolding parses_flat_def by blast
  have "\<exists>e. element_at D el k = Inr e \<and> denotes D tok e" if "map_of ms k = Some tok" for k tok
    using list_all2_lookup [OF fit that] element_at_object [OF assms(2) obj] by auto
  with el that show thesis by blast
qed

section \<open>The state file as an object\<close>

definition state_tokens :: "State \<Rightarrow> (string \<times> token) list" where
  "state_tokens st =
     [(''ociVersion'', TStr kOCIVersion), (''id'', TStr (jsonEscape (ContainerId st))),
      (''status'', TStr (getStatusString (Status st))),
      (''bundle'', TStr (jsonEscape (BundlePath st))),
      (''systemd-cgroup'', TBool (SystemdCgroup st))]
     @ (if Status st = Created \<or> Status st = Running then [(''pid'', TInt (Pid st))] else [])
     @ (if Status st = Created \<or> Status st = Running \<or> Status st = Stopped
        then [(''created'', TStr (CreatedTimestamp st))] else [])
     @ (if Status st = Running \<or> Status st = Stopped
        then [(''started'', TStr (StartedTimestamp st))] else [])
     @ (if Status st = Stopped
        then [(''exitCode'', TInt (ExitCode st)), (''finished'', TStr (FinishedTimestamp st))]
        else [])"

lemma print_is_object: "print st = object_text (state_tokens st)"
  by (cases "Status st") (simp_all add: print_def object_text_def state_tokens_def member_text_def)

text \<open>What must hold of a state for its file to be JSON with the intended values.\<close>

definition printable :: "State \<Rightarrow> bool" where
  "printable st \<longleftrightarrow> list_all escapable (ContainerId st) \<and> list_all escapable (BundlePath st) \<and>
     list_all plain_char (CreatedTimestamp st) \<and> list_all plain_char (StartedTimestamp st) \<and>
     list_all plain_char (FinishedTimestamp st) \<and>
     in_c_range Int32 (Pid st) \<and> in_c_range Int32 (ExitCode st)"

lemma to_int32_id: "in_c_range Int32 v \<Longrightarrow> to_int32 v = v"
proof -
  assume *: "in_c_range Int32 v"
  show ?thesis
  proof (cases "0 \<le> v")
    case True
    with * have "v mod 4294967296 = v" by (simp add: in_c_range_def mod_pos_pos_trivial)
    with True * show ?thesis by (simp add: to_int32_def in_c_range_def)
  next
    case False
    with * have "(v + 4294967296) mod 4294967296 = v + 4294967296"
      by (intro mod_pos_pos_trivial) (simp_all add: in_c_range_def)
    then have "v mod 4294967296 = v + 4294967296" by simp
    with False * show ?thesis by (simp add: to_int32_def in_c_range_def)
  qed
qed

section \<open>The round trip\<close>

lemma names_plain: "list_all plain_char kOCIVersion" "list_all plain_char (getStatusString c)"
  by (simp add: plain_char_def char_val_def kOCIVersion_def)
    (cases c; simp add: plain_char_def char_val_def status_names)

lemma state_keys_plain: "list_all (\<lambda>m. list_all plain_char (fst m)) (state_tokens st)"
  by (simp add: state_tokens_def) (simp add: plain_char_def char_val_def)

lemma int32_int64: "in_c_range Int32 v \<Longrightarrow> - (2 ^ 63) \<le> v \<and> v < 2 ^ 63"
  by (auto simp: in_c_range_def)

lemma state_values_valid: "printable st \<Longrightarrow> list_all (\<lambda>m. token_valid (snd m)) (state_tokens st)"
  using int32_int64 [of "Pid st"] int32_int64 [of "ExitCode st"]
  by (simp add: state_tokens_def printable_def unescape_jsonEscape unescape_plain names_plain)

lemma state_tokens_valid:
  "printable st \<Longrightarrow>
     list_all (\<lambda>m. list_all plain_char (fst m) \<and> token_valid (snd m)) (state_tokens st)"
  using state_keys_plain [of st] state_values_valid [of st] by (auto simp: list_all_iff)

text \<open>The state that a later invocation reads back from the file of \<open>st\<close>.\<close>

definition persisted :: "State \<Rightarrow> Bundle \<Rightarrow> State" where
  "persisted st c = default_state
     \<lparr>ContainerId := ContainerId st, BundlePath := BundlePath st, Status := Status st,
      SystemdCgroup := SystemdCgroup st,
      Pid := (if Status st = Created \<or> Status st = Running then Pid st else - 1),
      CreatedTimestamp := (if Status st = Creating then [] else CreatedTimestamp st),
      StartedTimestamp := (if Status st = Running \<or> Status st = Stopped then StartedTimestamp st else []),
      ExitCode := (if Status st = Stopped then ExitCode st else 0),
      FinishedTimestamp := (if Status st = Stopped then FinishedTimestamp st else []),
      Config := c\<rparr>"

lemma field_string:
  "\<exists>e. element_at D el k = Inr e \<and> denotes D (TStr t) e \<Longrightarrow> unescape t = Some s \<Longrightarrow>
     field D el k (get_string D) = Inr s"
  by (auto simp: field_def)

lemma field_int: "\<exists>e. element_at D el k = Inr e \<and> denotes D (TInt i) e \<Longrightarrow> field D el k (get_int64 D) = Inr i"
  by (auto simp: field_def)

lemma field_bool: "\<exists>e. element_at D el k = Inr e \<and> denotes D (TBool b) e \<Longrightarrow> field D el k (get_bool D) = Inr b"
  by (auto simp: field_def)

lemma read_back:
  assumes laws: "parses_flat D" "dom_laws D" and st: "printable st" "Status st \<noteq> Unknown"
    and here: "files Path = parse_json D (print st)"
    and cfg: "load D files (BundlePath st) ConfigFileName empty_bundle = Done c"
  shows "state_load D files Path ConfigFileName default_state = Done (persisted st c)"
proof -
  have ne: "state_tokens st \<noteq> []" by (simp add: state_tokens_def)
  obtain el where el: "parse_json D (print st) = Inr el"
    and fld: "\<And>k tok. map_of (state_tokens st) k = Some tok \<Longrightarrow>
                \<exists>e. element_at D el k = Inr e \<and> denotes D tok e"
    using parses_flat_field [OF laws ne state_tokens_valid [OF st(1)]] print_is_object by metis
  have pr: "list_all escapable (ContainerId st)" "list_all escapable (BundlePath st)"
    "list_all plain_char (CreatedTimestamp st)" "list_all plain_char (StartedTimestamp st)"
    "list_all plain_char (FinishedTimestamp st)" "to_int32 (Pid st) = Pid st"
    "to_int32 (ExitCode st) = ExitCode st"
    using st(1) by (simp_all add: printable_def to_int32_id)
  have "field D el ''ociVersion'' (get_string D) = Inr kOCIVersion"
    by (rule field_string [OF fld unescape_plain]) (simp_all add: state_tokens_def names_plain)
  moreover have "field D el ''status'' (get_string D) = Inr (getStatusString (Status st))"
    by (rule field_string [OF fld unescape_plain]) (simp_all add: state_tokens_def names_plain)
  moreover have "field D el ''id'' (get_string D) = Inr (ContainerId st)"
    by (rule field_string [OF fld unescape_jsonEscape [OF pr(1)]]) (simp add: state_tokens_def)
  moreover have "field D el ''bundle'' (get_string D) = Inr (BundlePath st)"
    by (rule field_string [OF fld unescape_jsonEscape [OF pr(2)]]) (simp add: state_tokens_def)
  moreover have "field D el ''systemd-cgroup'' (get_bool D) = Inr (SystemdCgroup st)"
    by (rule field_bool [OF fld]) (simp add: state_tokens_def)
  moreover have "Status st = Created \<or> Status st = Running \<Longrightarrow>
      field D el ''pid'' (get_int64 D) = Inr (Pid st)"
    by (rule field_int [OF fld]) (auto simp: state_tokens_def)
  moreover have "Status st = Created \<or> Status st = Running \<or> Status st = Stopped \<Longrightarrow>
      field D el ''created'' (get_string D) = Inr (CreatedTimestamp st)"
    by (rule field_string [OF fld unescape_plain [OF pr(3)]]) (auto simp: state_tokens_def)
  moreover have "Status st = Running \<or> Status st = Stopped \<Longrightarrow>
      field D el ''started'' (get_string D) = Inr (StartedTimestamp st)"
    by (rule field_string [OF fld unescape_plain [OF pr(4)]]) (auto simp: state_tokens_def)
  moreover have "Status st = Stopped \<Longrightarrow> field D el ''exitCode'' (get_int64 D) = Inr (ExitCode st)"
    by (rule field_int [OF fld]) (simp add: state_tokens_def)
  moreover have "Status st = Stopped \<Longrightarrow>
      field D el ''finished'' (get_string D) = Inr (FinishedTimestamp st)"
    by (rule field_string [OF fld unescape_plain [OF pr(5)]]) (simp add: state_tokens_def)
  moreover have "parseStatus (getStatusString (Status st)) = Status st"
    using status.dec_enc [OF st(2)] by (simp split: if_splits)
  ultimately show ?thesis
    using st(2) el cfg
    by (cases "Status st") (simp_all add: state_load_def here load_pid_def load_created_def
        load_started_def load_finished_def loadBundle_def pr persisted_def default_state_def)
qed

text \<open>The time stamps runw writes are always plain.\<close>

lemma plain_digit: "d < 10 \<Longrightarrow> plain_char (digit_char d)"
proof -
  assume d: "d < 10"
  then have v: "char_val (digit_char d) = 48 + int d" by (rule char_val_digit)
  have "digit_char d \<noteq> CHR 0x22"
  proof
    assume "digit_char d = CHR 0x22"
    with v show False by (simp add: char_val_def)
  qed
  moreover have "digit_char d \<noteq> CHR 0x5C"
  proof
    assume "digit_char d = CHR 0x5C"
    with v d show False by (simp add: char_val_def)
  qed
  ultimately show ?thesis using v d by (simp add: plain_char_def)
qed

lemma show_nat_plain: "list_all plain_char (show_nat n)"
proof (induction n rule: show_nat.induct)
  case (1 n)
  then show ?case by (subst show_nat.simps) (auto simp: plain_digit)
qed

lemma timestamp_plain: "list_all plain_char (timestamp Now)"
proof -
  have "list_all plain_char (show_int y)" for y
    by (simp add: show_int_def show_nat_plain) (simp add: plain_char_def char_val_def)
  moreover have "list_all plain_char (pad2 n)" for n
    by (simp add: pad2_def plain_digit)
  moreover have "list_all plain_char ''-''" "list_all plain_char ''T''" "list_all plain_char '':''"
    "list_all plain_char ''Z''"
    by (simp_all add: plain_char_def char_val_def)
  ultimately show ?thesis
    unfolding timestamp_def Let_def by (simp split: prod.split)
qed

lemma timestamp_example: "timestamp 1700000000 = ''2023-11-14T22:13:20Z''"
  by code_simp

text \<open>Every transition keeps a state printable.\<close>

lemma printable_transitions:
  assumes "printable st"
  shows "printable (setCreating st)" "printable (setRunning Now st)"
    "in_c_range Int32 pid \<Longrightarrow> printable (setCreated Now pid st)"
    "in_c_range Int32 code \<Longrightarrow> printable (setStopped Now code st)"
  using assms timestamp_plain
  by (simp_all add: printable_def setCreating_def setCreated_def setRunning_def setStopped_def)

end
