(* ===== verification/Json_Reader.thy ===== *)
theory Json_Reader
  imports State_File
begin

text \<open>
  An executable reader for flat JSON objects. It fills the parser slot of the concrete DOM
  and satisfies the parser hypothesis of the state-file results, so that they can be
  evaluated end to end.
\<close>

section \<open>The reader\<close>

text \<open>The raw text of a string literal, up to its closing quote.\<close>

fun scan :: "string \<Rightarrow> (string \<times> string) option" where
  "scan [] = None"
| "scan (c # s) =
     (if c = CHR 0x22 then Some ([], s)
      else if c = CHR 0x5C then
        (case s of [] \<Rightarrow> None
         | d # t \<Rightarrow> map_option (\<lambda>(r, u). (c # d # r, u)) (scan t))
      else map_option (\<lambda>(r, u). (c # r, u)) (scan s))"

definition read_number :: "string \<Rightarrow> (json \<times> string) option" where
  "read_number s =
     (case s of [] \<Rightarrow> None
      | c # t \<Rightarrow>
          if c = CHR ''-'' then Some (JInt (- dec_value (takeWhile is_digit t)), dropWhile is_digit t)
          else Some (JInt (dec_value (takeWhile is_digit s)), dropWhile is_digit s))"

definition read_value :: "string \<Rightarrow> (json \<times> string) option" where
  "read_value s =
     (case s of [] \<Rightarrow> None
      | c # t \<Rightarrow>
          if c = CHR 0x22 then
            (case scan t of None \<Rightarrow> None
             | Some (r, u) \<Rightarrow> (case unescape r of None \<Rightarrow> None | Some v \<Rightarrow> Some (JString v, u)))
          else if c = CHR ''t'' then Some (JBool True, drop 3 t)
          else if c = CHR ''f'' then Some (JBool False, drop 4 t)
          else read_number s)"

definition read_member :: "string \<Rightarrow> ((string \<times> json) \<times> string) option" where
  "read_member s =
     (case s of [] \<Rightarrow> None
      | c # t \<Rightarrow>
          if c = CHR 0x22 then
            (case scan t of None \<Rightarrow> None
             | Some (k, u) \<Rightarrow>
                 (case read_value (drop 1 u) of None \<Rightarrow> None | Some (v, w) \<Rightarrow> Some ((k, v), w)))
          else None)"

fun read_members :: "nat \<Rightarrow> string \<Rightarrow> ((string \<times> json) list \<times> string) option" where
  "read_members 0 s = None"
| "read_members (Suc n) s =
     (case read_member s of None \<Rightarrow> None
      | Some (m, u) \<Rightarrow>
          (case u of [] \<Rightarrow> None
           | c # w \<Rightarrow>
               if c = CHR '','' then map_option (\<lambda>(ms, x). (m # ms, x)) (read_members n w)
               else Some ([m], u)))"

definition read_object :: "string \<Rightarrow> simdjson_error + json" where
  "read_object s =
     (case s of [] \<Rightarrow> Inl (Other_error 1)
      | c # t \<Rightarrow>
          if c \<noteq> CHR ''{'' then Inl (Other_error 1)
          else (case read_members (length t) t of
                  None \<Rightarrow> Inl (Other_error 1)
                | Some (ms, u) \<Rightarrow>
                    if u = ''}'' @ [CHR 0x0A] then Inr (JObject ms) else Inl (Other_error 1)))"

section \<open>It reads what tokens print\<close>

fun token_value :: "token \<Rightarrow> json" where
  "token_value (TStr t) = JString (the (unescape t))"
| "token_value (TInt i) = JInt i"
| "token_value (TBool b) = JBool b"

lemma scan_unescape: "unescape t \<noteq> None \<Longrightarrow> scan (t @ CHR 0x22 # u) = Some (t, u)"
proof (induction t rule: unescape.induct)
  case (2 c s)
  show ?case
  proof (cases "c = CHR 0x5C")
    case True
    with "2.prems" obtain d t e where t: "s = d # t" "escape_of d = Some e" "unescape t \<noteq> None"
      by (cases s) (simp_all split: option.splits)
    with "2.IH"(1) [OF True t(1,2)] True show ?thesis by simp
  next
    case False
    with "2.prems" have c: "plain_char c" "unescape s \<noteq> None" by (simp_all split: if_splits)
    then have "c \<noteq> CHR 0x22" by (simp add: plain_char_def)
    with "2.IH"(2) [OF False c] False show ?thesis by simp
  qed
qed simp

lemma scan_plain: "list_all plain_char t \<Longrightarrow> scan (t @ CHR 0x22 # u) = Some (t, u)"
  by (rule scan_unescape) (simp add: unescape_plain)

definition ends_value :: "char \<Rightarrow> bool" where
  "ends_value c \<longleftrightarrow> c = CHR '','' \<or> c = CHR ''}''"

lemma span_digits:
  assumes "list_all is_digit ds" "ends_value c"
  shows "takeWhile is_digit (ds @ c # u) = ds" "dropWhile is_digit (ds @ c # u) = c # u"
proof -
  have "\<not> is_digit c" using assms(2) by (auto simp: ends_value_def is_digit_def char_val_def)
  with assms(1) show "takeWhile is_digit (ds @ c # u) = ds" "dropWhile is_digit (ds @ c # u) = c # u"
    by (induction ds) auto
qed

lemma show_nat_head:
  obtains d ds where "show_nat n = d # ds" "is_digit d"
  using show_nat_digits [of n] by (cases "show_nat n") auto

lemma digit_not_special:
  "is_digit d \<Longrightarrow> d \<noteq> CHR 0x22 \<and> d \<noteq> CHR ''t'' \<and> d \<noteq> CHR ''f'' \<and> d \<noteq> CHR ''-''"
  by (auto simp: is_digit_def char_val_def)

lemma read_number_int:
  assumes "ends_value c"
  shows "read_number (show_int i @ c # u) = Some (JInt i, c # u)"
proof (cases "i < 0")
  case True
  then show ?thesis
    using span_digits [OF show_nat_digits assms]
    by (simp add: read_number_def show_int_def)
next
  case False
  obtain d ds where d: "show_nat (nat i) = d # ds" "is_digit d" by (rule show_nat_head)
  have "takeWhile is_digit (show_nat (nat i) @ c # u) = show_nat (nat i)"
    "dropWhile is_digit (show_nat (nat i) @ c # u) = c # u"
    by (rule span_digits [OF show_nat_digits assms])+
  with False show ?thesis
    using digit_not_special [OF d(2)] dec_value_show_nat [of "nat i"]
    by (simp add: read_number_def show_int_def d(1) del: dec_value_show_nat takeWhile.simps dropWhile.simps)
qed

lemma read_value_token:
  assumes "token_valid tok" "ends_value c"
  shows "read_value (token_text tok @ c # u) = Some (token_value tok, c # u)"
proof (cases tok)
  case (TStr t)
  with assms(1) obtain v where v: "unescape t = Some v" by auto
  then have "scan (t @ CHR 0x22 # c # u) = Some (t, c # u)" by (simp add: scan_unescape)
  with v TStr show ?thesis by (simp add: read_value_def quoted_def)
next
  case (TInt i)
  obtain d ds where d: "show_nat (nat i) = d # ds" "is_digit d" by (rule show_nat_head)
  have "read_value (show_int i @ c # u) = read_number (show_int i @ c # u)"
    using digit_not_special [OF d(2)] by (simp add: read_value_def show_int_def d(1))
  with TInt read_number_int [OF assms(2)] show ?thesis by simp
next
  case (TBool b)
  then show ?thesis by (simp add: read_value_def show_bool_def)
qed

lemma read_member_text:
  assumes "list_all plain_char k" "token_valid tok" "ends_value c"
  shows "read_member (member_text (k, tok) @ c # u) = Some ((k, token_value tok), c # u)"
proof -
  have "scan (k @ CHR 0x22 # CHR '':'' # token_text tok @ c # u) = Some (k, CHR '':'' # token_text tok @ c # u)"
    by (rule scan_plain [OF assms(1)])
  with read_value_token [OF assms(2,3)] show ?thesis
    by (simp add: read_member_def member_text_def quoted_def)
qed

lemma read_members_text:
  "ms \<noteq> [] \<Longrightarrow> list_all (\<lambda>m. list_all plain_char (fst m) \<and> token_valid (snd m)) ms \<Longrightarrow>
     length ms \<le> n \<Longrightarrow>
     read_members n (members_text ms @ CHR ''}'' # u)
       = Some (map (\<lambda>m. (fst m, token_value (snd m))) ms, CHR ''}'' # u)"
proof (induction ms arbitrary: n rule: members_text.induct)
  case (2 m)
  obtain k tok where m: "m = (k, tok)" by (cases m)
  from 2 obtain n' where n: "n = Suc n'" by (cases n) auto
  have "read_member (member_text (k, tok) @ CHR ''}'' # u) = Some ((k, token_value tok), CHR ''}'' # u)"
    by (rule read_member_text) (use 2 m in \<open>auto simp: ends_value_def\<close>)
  then show ?case by (simp add: n m)
next
  case (3 m m' ms)
  obtain k tok where m: "m = (k, tok)" by (cases m)
  from 3 obtain n' where n: "n = Suc n'" by (cases n) auto
  have "read_member (member_text (k, tok) @ CHR '','' # members_text (m' # ms) @ CHR ''}'' # u)
      = Some ((k, token_value tok), CHR '','' # members_text (m' # ms) @ CHR ''}'' # u)"
    by (rule read_member_text) (use 3 m in \<open>auto simp: ends_value_def\<close>)
  moreover have "read_members n' (members_text (m' # ms) @ CHR ''}'' # u)
      = Some (map (\<lambda>m. (fst m, token_value (snd m))) (m' # ms), CHR ''}'' # u)"
    by (rule "3.IH") (use 3 n in auto)
  ultimately show ?case by (simp add: n m del: members_text.simps) (simp add: members_text.simps)
qed simp

lemma length_members_text: "length ms \<le> length (members_text ms)"
  by (induction ms rule: members_text.induct) (auto simp: member_text_def quoted_def)

lemma read_object_text:
  assumes "ms \<noteq> []" "list_all (\<lambda>m. list_all plain_char (fst m) \<and> token_valid (snd m)) ms"
  shows "read_object (object_text ms) = Inr (JObject (map (\<lambda>m. (fst m, token_value (snd m))) ms))"
proof -
  have "length ms \<le> length (members_text ms @ CHR ''}'' # [CHR 0x0A])"
    using length_members_text [of ms] by simp
  from read_members_text [OF assms this, of "[CHR 0x0A]"] show ?thesis
    by (simp add: read_object_def object_text_def)
qed

text \<open>The concrete DOM with this reader meets every hypothesis of the state-file results.\<close>

definition reader_dom :: "json simdjson" where
  "reader_dom = json_dom read_object"

lemma reader_dom_laws: "dom_laws reader_dom"
  by (simp add: reader_dom_def json_dom_laws)

lemma reader_denotes: "token_valid tok \<Longrightarrow> denotes reader_dom tok (token_value tok)"
  by (cases tok) (auto simp: reader_dom_def)

lemma reader_parses_flat: "parses_flat reader_dom"
  unfolding parses_flat_def
proof (intro allI impI)
  fix ms :: "(string \<times> token) list"
  assume ms: "ms \<noteq> []" "list_all (\<lambda>m. list_all plain_char (fst m) \<and> token_valid (snd m)) ms"
  let ?els = "map (\<lambda>m. (fst m, token_value (snd m))) ms"
  have "list_all2 (\<lambda>m e. fst m = fst e \<and> denotes reader_dom (snd m) (snd e)) ms ?els"
    using ms(2) by (auto simp: list_all2_conv_all_nth list_all_iff intro!: reader_denotes)
  moreover have "parse_json reader_dom (object_text ms) = Inr (JObject ?els)"
    "get_object reader_dom (JObject ?els) = Inr ?els"
    using read_object_text [OF ms] by (simp_all add: reader_dom_def)
  ultimately show "\<exists>el els. parse_json reader_dom (object_text ms) = Inr el \<and>
      get_object reader_dom el = Inr els \<and>
      list_all2 (\<lambda>m e. fst m = fst e \<and> denotes reader_dom (snd m) (snd e)) ms els"
    by blast
qed

end
