(* ===== verification/Bundle_Properties.thy ===== *)
theory Bundle_Properties
  imports Bundle_Accept Bundle_Typed Bundle_Spec Json_Reader
begin

text \<open>
  What is proved of the configuration loader (\<^verbatim>\<open>Bundle::load\<close>): which documents it accepts,
  what it stores, which members it ignores or misplaces, and when its behaviour is defined.
\<close>

section \<open>Single members that decide a field\<close>

text \<open>The root path and the memory limits are written under one key each.\<close>

interpretation root_path: key_table_field "root_table D" RootPath "''path''" "\<lambda>el _. str D el" for D
  by unfold_locales (auto simp: root_table_def str_def on_get_Done_iff)

interpretation memory_limit: key_table_field "memory_table D" ResourcesMemoryLimit "''limit''"
  "\<lambda>el _. num D UInt64 el" for D
  by unfold_locales (auto simp: memory_table_def num_def on_get_Done_iff)

lemma fold_const: "fold (\<lambda>x _. f x) xs d = latest d (map f xs)"
  by (induction xs arbitrary: d) auto

section \<open>The list of group mappings\<close>

definition gids :: "id_mapping_desc list \<Rightarrow> Bundle \<Rightarrow> bool" where
  "gids g b \<longleftrightarrow> GidMappings b = g"

interpretation consoleSize_gids: key_table_inv "consoleSize_table D" "gids g" for D g
  by unfold_locales (auto simp: consoleSize_table_def gids_def intro!: keeps_on_get)

interpretation user_gids: key_table_inv "user_table D" "gids g" for D g
  by unfold_locales (auto simp: user_table_def gids_def intro!: keeps_on_get keeps_for_each)

interpretation process_gids: key_table_inv "process_table D P" "gids g" for D P g
proof
  fix k h s e
  assume h: "(k, h) \<in> set (process_table D P)" and s: "gids g s"
  have caps: "keeps (gids g) (loadCapabilities D ms s)" for ms
    by (rule keeps_loadCapabilities) (use s in \<open>auto simp: gids_def\<close>)
  have rl: "keeps (gids g) (for_each (rlimit_entry D) xs s)" for xs
    by (rule keeps_for_each) (use s in \<open>auto simp: rlimit_entry_def gids_def intro!: keeps_on_get\<close>)
  have strings: "keeps (gids g) (push_strings D (\<lambda>x b. b\<lparr>Args := Args b @ [x]\<rparr>) xs s)"
    "keeps (gids g) (push_strings D (\<lambda>x b. b\<lparr>Envs := Envs b @ [x]\<rparr>) xs s)" for xs
    by (rule keeps_push_strings; use s in \<open>auto simp: gids_def\<close>)+
  have leaf: "gids g (s\<lparr>Cwd := x\<rparr>)" "gids g (s\<lparr>NoNewPrivileges := v\<rparr>)" "gids g (s\<lparr>Terminal := v\<rparr>)"
    "gids g (s\<lparr>OomScoreAdj := n\<rparr>)" for x v n
    using s by (simp_all add: gids_def)
  from h show "keeps (gids g) (h e s)"
    unfolding process_table_def
    by (auto intro!: keeps_on_get s caps strings rl leaf consoleSize_gids.loop_keeps user_gids.loop_keeps)
qed

interpretation root_gids: key_table_inv "root_table D" "gids g" for D g
  by unfold_locales (auto simp: root_table_def gids_def intro!: keeps_on_get)

interpretation memory_gids: key_table_inv "memory_table D" "gids g" for D g
  by unfold_locales (auto simp: memory_table_def gids_def intro!: keeps_on_get)

interpretation resources_gids: key_table_inv "resources_table D" "gids g" for D g
  by unfold_locales (auto simp: resources_table_def intro!: keeps_on_get memory_gids.loop_keeps)

lemma entries_gids:
  assumes "gids g b"
  shows "keeps (gids g) (mount_entry D el b)" "keeps (gids g) (namespace_entry D el b)"
    "keeps (gids g) (uid_mapping_entry D el b)" "keeps (gids g) (gid_mapping_entry D el b)"
    "keeps (gids g) (device_entry D el b)"
  unfolding mount_entry_def namespace_entry_def uid_mapping_entry_def gid_mapping_entry_def device_entry_def
  by (intro keeps_on_get keeps_with_local assms; use assms in \<open>simp add: gids_def\<close>)+

interpretation linux_gids: key_table_inv "linux_table D" "gids g" for D g
proof
  fix k h s e
  assume h: "(k, h) \<in> set (linux_table D)" and s: "gids g s"
  have leaf: "gids g (s\<lparr>CgroupsPath := x\<rparr>)" for x using s by (simp add: gids_def)
  from h show "keeps (gids g) (h e s)"
    unfolding linux_table_def loadResources_def switch_tables
    by (auto intro!: keeps_on_get keeps_for_each s leaf entries_gids resources_gids.loop_keeps)
qed

interpretation annotation_gids: key_table_inv "annotation_table D" "gids g" for D g
  by unfold_locales (auto simp: annotation_table_def gids_def intro!: keeps_on_get keeps_push_strings)

interpretation config_gids: key_table_inv "config_table D" "gids g" for D g
proof
  fix k h s e
  assume h: "(k, h) \<in> set (config_table D)" and s: "gids g s"
  have leaf: "gids g (s\<lparr>OCIVersion := x\<rparr>)" for x using s by (simp add: gids_def)
  from h show "keeps (gids g) (h e s)"
    unfolding config_table_def loadProcess_def loadRoot_def loadLinux_def loadMounts_def switch_tables
    by (auto intro!: keeps_on_get keeps_for_each s leaf entries_gids process_gids.loop_keeps
        root_gids.loop_keeps linux_gids.loop_keeps annotation_gids.loop_keeps)
qed

section \<open>Undefined behaviour\<close>











text \<open>An empty key that the loop reaches is undefined behaviour indeed.\<close>

lemma empty_key_undefined:
  "get_object D el = Inr (before @ ([], x) # rest) \<Longrightarrow> is_done (for_each (config_key D) before b) \<Longrightarrow>
     load_doc D (Inr el) b = Undef"
  by (auto simp: load_doc_def for_each_append is_done_iff key_simps)

section \<open>A configuration used in the examples\<close>

definition sample_config :: json where
  "sample_config = JObject
     [(''ociVersion'', JString ''1.0.2''),
      (''process'', JObject
         [(''args'', JArray [JString ''app.wasm'', JString ''-v'']), (''cwd'', JString ''/''),
          (''user'', JObject [(''uid'', JInt 1000), (''gid'', JInt 1000)])]),
      (''root'', JObject [(''path'', JString ''rootfs''), (''readonly'', JBool True)]),
      (''linux'', JObject
         [(''cgroupsPath'', JString ''user.slice:runw:1''),
          (''gidMappings'', JArray [JObject [(''hostID'', JInt 5), (''size'', JInt 1)]]),
          (''namespaces'', JArray [JObject [(''type'', JString ''pid'')]])])]"

definition sample_bundle :: Bundle where
  "sample_bundle = empty_bundle
     \<lparr>OCIVersion := ''1.0.2'', Args := [''app.wasm'', ''-v''], Cwd := ''/'', Uid := 1000, Gid := 1000,
      RootPath := ''rootfs'', RootReadonly := True, CgroupsPath := ''user.slice:runw:1'',
      UidMappings := [\<lparr>MapContainerId = 0, MapHostId = 5, MapSize = 1\<rparr>],
      Namespaces := [\<lparr>NsType = ''pid'', NsPath = []\<rparr>]\<rparr>"

lemmas sample_defs = load_doc_def loadProcess_def loadRoot_def loadLinux_def
  push_strings_def namespace_entry_def gid_mapping_entry_def empty_namespace_def empty_mapping_def
  get_int_def in_c_range_def

lemma sample_loads: "load_doc reader_dom (Inr sample_config) empty_bundle = Done sample_bundle"
  by (simp add: sample_config_def sample_bundle_def reader_dom_def sample_defs key_simps empty_bundle_def)

section \<open>Members that are skipped\<close>

text \<open>The loops that only dispatch on the keys.\<close>

lemma dispatching_loops_skip:
  "for_each (config_key D) (known [''annotations'', ''mounts'', ''ociVersion'', ''process'', ''root'', ''linux''] ms) b =
       for_each (config_key D) ms b"
  "for_each (consoleSize_key D) (known [''height'', ''width''] ms) b =
       for_each (consoleSize_key D) ms b"
  "for_each (user_key D) (known [''uid'', ''umask'', ''gid'', ''additionalGids''] ms) b =
       for_each (user_key D) ms b"
  "loadRoot D (known [''path'', ''readonly''] ms) b = loadRoot D ms b"
  "for_each (mount_key D) (known [''destination'', ''options'', ''source'', ''type''] ms) m =
       for_each (mount_key D) ms m"
  "loadLinux D (known [''namespaces'', ''uidMappings'', ''gidMappings'', ''devices'', ''cgroupsPath'', ''resources''] ms) b =
       loadLinux D ms b"
  "for_each (namespace_key D) (known [''path'', ''type''] ms) n = for_each (namespace_key D) ms n"
  "for_each (uid_mapping_key D) (known [''containerID'', ''hostID'', ''size''] ms) i =
       for_each (uid_mapping_key D) ms i"
  "for_each (gid_mapping_key D) (known [''containerID'', ''hostID'', ''size''] ms) i =
       for_each (gid_mapping_key D) ms i"
  "for_each (device_key D) (known [''type'', ''path'', ''major'', ''minor'', ''fileMode'', ''uid'', ''gid''] ms) d =
       for_each (device_key D) ms d"
  "loadResources D (known [''memory''] ms) b = loadResources D ms b"
  "for_each (memory_key D) (known [''limit'', ''reservation''] ms) b = for_each (memory_key D) ms b"
  "for_each (annotation_key D) (known [''org.wasmedge.exec.allow_commands''] ms) b =
       for_each (annotation_key D) ms b"
  unfolding loadRoot_def loadLinux_def loadResources_def consoleSize_key_table user_key_table memory_key_table
    annotation_key_table switch_tables
  by (rule known_skips, simp add: consoleSize_table_def user_table_def root_table_def mount_table_def
      namespace_table_def mapping_table_def device_table_def memory_table_def resources_table_def
      linux_table_def annotation_table_def config_table_def)+

text \<open>The objects that are also accessed by key.\<close>

lemma known_at: "at_key_law D \<Longrightarrow> k \<in> set ks \<Longrightarrow> at_key D (known ks ms) k = at_key D ms k"
  by (simp add: at_key_law_def known_lookup)

lemma process_skips:
  assumes "at_key_law D"
  shows "loadProcess D (known [''args'', ''consoleSize'', ''cwd'', ''capabilities'', ''env'', ''noNewPrivileges'',
       ''oomScoreAdj'', ''rlimits'', ''terminal'', ''user''] ms) b = loadProcess D ms b"
proof -
  have "process_table D (known ks ms) = process_table D ms" if "''rlimits'' \<in> set ks" for ks
    unfolding process_table_def using known_at [OF assms that] by simp
  then show ?thesis
    unfolding loadProcess_def process_key_table by (simp, intro known_skips) (simp add: process_table_def)
qed

lemma capabilities_skip:
  assumes "at_key_law D"
  shows "loadCapabilities D (known [''effective'', ''bounding'', ''inheritable'', ''permitted'', ''ambient''] ms) b =
       loadCapabilities D ms b"
  unfolding loadCapabilities_def loadCapability_def by (simp add: known_at [OF assms])

lemma rlimit_skips:
  assumes "at_key_law D"
  shows "(get_object D el = Inr ms \<and> get_object D el' = Inr (known [''type'', ''soft'', ''hard''] ms) \<longrightarrow>
       rlimit_entry D el' b = rlimit_entry D el b)"
  by (simp add: rlimit_entry_def known_at [OF assms])

section \<open>Properties\<close>

text \<open>
  C1. \<^verbatim>\<open>Bundle::load\<close> succeeds on a document exactly when it is an object that fits the schema:
  no member it looks at has an empty key, and every member it knows, at every depth, has a value
  of the expected type and range. Nothing else (order, repeated or unknown members, the object
  being filled) matters.
\<close>

theorem bundle_load_accepts: "is_done (load_doc D doc b) \<longleftrightarrow> valid_config D doc"
  by (rule load_accepts)

text \<open>
  C2. When \<^verbatim>\<open>Bundle::load\<close> succeeds, the object holds what the declarative reading of the
  document prescribes, field by field, with the paths starting at the root: scalars take the
  value of the last member found, vectors are extended by all of them in document order, and all
  other fields are as before.
\<close>

theorem bundle_load_result:
  "load_doc D (Inr el) b = Done b' \<Longrightarrow> b' = config_spec D (members D el) b"
  by (rule load_Done)

theorem bundle_load_result_witness:
  "load_doc reader_dom (Inr sample_config) empty_bundle = Done sample_bundle \<and>
   sample_bundle = config_spec reader_dom (members reader_dom sample_config) empty_bundle"
  using bundle_load_result [OF sample_loads] sample_loads by simp

text \<open>
  C25. Members with keys that the loader does not know are skipped, in every object it goes through:
  the document, \<^verbatim>\<open>process\<close> with its console size, capabilities, limits and user, \<^verbatim>\<open>root\<close>, each mount,
  \<^verbatim>\<open>linux\<close> with its namespaces, mappings, devices, resources and memory limits, and the annotations.
  Without them the outcome and the object are the same.
\<close>

theorem unknown_members_ignored:
  assumes "at_key_law D"
  shows "for_each (config_key D) (known [''annotations'', ''mounts'', ''ociVersion'', ''process'', ''root'', ''linux''] ms) b =
       for_each (config_key D) ms b \<and>
     loadProcess D (known [''args'', ''consoleSize'', ''cwd'', ''capabilities'', ''env'', ''noNewPrivileges'',
       ''oomScoreAdj'', ''rlimits'', ''terminal'', ''user''] ms) b = loadProcess D ms b \<and>
     for_each (consoleSize_key D) (known [''height'', ''width''] ms) b =
       for_each (consoleSize_key D) ms b \<and>
     loadCapabilities D (known [''effective'', ''bounding'', ''inheritable'', ''permitted'', ''ambient''] ms) b =
       loadCapabilities D ms b \<and>
     (get_object D el = Inr ms \<and> get_object D el' = Inr (known [''type'', ''soft'', ''hard''] ms) \<longrightarrow>
       rlimit_entry D el' b = rlimit_entry D el b) \<and>
     for_each (user_key D) (known [''uid'', ''umask'', ''gid'', ''additionalGids''] ms) b =
       for_each (user_key D) ms b \<and>
     loadRoot D (known [''path'', ''readonly''] ms) b = loadRoot D ms b \<and>
     for_each (mount_key D) (known [''destination'', ''options'', ''source'', ''type''] ms) m =
       for_each (mount_key D) ms m \<and>
     loadLinux D (known [''namespaces'', ''uidMappings'', ''gidMappings'', ''devices'', ''cgroupsPath'', ''resources''] ms) b =
       loadLinux D ms b \<and>
     for_each (namespace_key D) (known [''path'', ''type''] ms) n = for_each (namespace_key D) ms n \<and>
     for_each (uid_mapping_key D) (known [''containerID'', ''hostID'', ''size''] ms) i =
       for_each (uid_mapping_key D) ms i \<and>
     for_each (gid_mapping_key D) (known [''containerID'', ''hostID'', ''size''] ms) i =
       for_each (gid_mapping_key D) ms i \<and>
     for_each (device_key D) (known [''type'', ''path'', ''major'', ''minor'', ''fileMode'', ''uid'', ''gid''] ms) d =
       for_each (device_key D) ms d \<and>
     loadResources D (known [''memory''] ms) b = loadResources D ms b \<and>
     for_each (memory_key D) (known [''limit'', ''reservation''] ms) b = for_each (memory_key D) ms b \<and>
     for_each (annotation_key D) (known [''org.wasmedge.exec.allow_commands''] ms) b =
       for_each (annotation_key D) ms b"
  by (intro conjI dispatching_loops_skip process_skips [OF assms] capabilities_skip [OF assms]
      rlimit_skips [OF assms])

theorem unknown_members_ignored_witness:
  "loadProcess reader_dom (known [''args'', ''consoleSize'', ''cwd'', ''capabilities'', ''env'', ''noNewPrivileges'',
      ''oomScoreAdj'', ''rlimits'', ''terminal'', ''user'']
      [(''selinuxLabel'', JNull), (''cwd'', JString ''/'')]) empty_bundle =
   Done (empty_bundle\<lparr>Cwd := ''/''\<rparr>)"
proof -
  have law: "at_key_law reader_dom" using reader_dom_laws by (simp add: dom_laws_def)
  have "loadProcess reader_dom [(''selinuxLabel'', JNull), (''cwd'', JString ''/'')] empty_bundle =
      Done (empty_bundle\<lparr>Cwd := ''/''\<rparr>)"
    by (simp add: loadProcess_def key_simps reader_dom_def json_dom_def)
  with unknown_members_ignored [OF law, of "[(''selinuxLabel'', JNull), (''cwd'', JString ''/'')]" empty_bundle]
  show ?thesis by simp
qed

text \<open>
  C33. The group mappings of the configuration never reach the object's list of group mappings: a
  load, successful or not, leaves that list as it was. They are treated as user mappings instead:
  \<^verbatim>\<open>gidMappings\<close> does exactly what \<^verbatim>\<open>uidMappings\<close> does.
\<close>

theorem gid_mappings_never_filled:
  "keeps (\<lambda>b'. GidMappings b' = GidMappings b) (load_doc D doc b) \<and>
   linux_key D (''gidMappings'', el) b = linux_key D (''uidMappings'', el) b"
proof
  have "keeps (gids (GidMappings b)) (load_doc D doc b)"
    unfolding load_doc_def config_key_table
    by (intro keeps_on_get config_gids.loop_keeps) (simp_all add: gids_def)
  then show "keeps (\<lambda>b'. GidMappings b' = GidMappings b) (load_doc D doc b)"
    by (cases "load_doc D doc b") (simp_all add: gids_def)
  have "gid_mapping_entry D = uid_mapping_entry D"
    by (intro ext) (simp add: gid_mapping_entry_def uid_mapping_entry_def gid_mapping_key_table uid_mapping_key_table)
  then show "linux_key D (''gidMappings'', el) b = linux_key D (''uidMappings'', el) b"
    by (simp add: linux_key_table linux_table_def)
qed




end
