(* ===== verification/State_Properties.thy ===== *)
theory State_Properties
  imports Bundle_Properties
begin

text \<open>
  What is proved of the container state (\<^verbatim>\<open>state.cpp\<close>): the file written by one invocation is
  read back by the next after every transition, names and strings are encoded without loss, and what
  is loaded is in range.
\<close>

section \<open>An example state\<close>

definition sample_state :: State where
  "sample_state = (new_state ''c1'' ''/b'')\<lparr>Status := Running, Pid := 4711,
     CreatedTimestamp := ''2023-11-14T22:13:20Z'', StartedTimestamp := ''2023-11-14T22:13:21Z''\<rparr>"

definition sample_files :: "State \<Rightarrow> string \<Rightarrow> simdjson_error + json" where
  "sample_files st p =
     (if p = ''/run/c1/state.json'' then parse_json reader_dom (print st)
      else if p = ''/b/config.json'' then Inr sample_config else Inl (Other_error 0))"

lemma sample_printable: "printable sample_state"
  by (simp add: printable_def sample_state_def new_state_def default_state_def in_c_range_def)
    (simp add: escapable_def plain_char_def char_val_def)

lemma sample_files_load:
  "load reader_dom (sample_files st) ''/b'' ''config.json'' empty_bundle = Done sample_bundle"
proof -
  have "path_append ''/b'' ''config.json'' = ''/b/config.json''"
    by (simp add: path_append_def is_absolute_def)
  then show ?thesis by (simp add: load_def sample_files_def sample_loads)
qed

section \<open>Loading\<close>

lemma loadBundle_frame:
  "loadBundle D files name st = Done st' \<Longrightarrow> \<exists>c. st' = st\<lparr>Config := c\<rparr>"
  by (auto simp: loadBundle_def split: outcome.splits)

lemma to_int32_range: "in_c_range Int32 (to_int32 v)"
proof -
  have "0 \<le> v mod 4294967296" "v mod 4294967296 < 4294967296" by simp_all
  then show ?thesis by (auto simp: to_int32_def in_c_range_def Let_def)
qed

lemma load_pid_Done:
  "load_pid D el st = Done st' \<Longrightarrow> st' = st\<lparr>Pid := Pid st'\<rparr> \<and>
     (if Status st = Created \<or> Status st = Running
      then \<exists>v. field D el ''pid'' (get_int64 D) = Inr v \<and> Pid st' = to_int32 v
      else Pid st' = Pid st)"
  by (auto simp: load_pid_def on_get_Done_iff split: if_splits)

lemma load_times_Done:
  "load_created D el st = Done st' \<Longrightarrow> \<exists>x. st' = st\<lparr>CreatedTimestamp := x\<rparr>"
  "load_started D el st = Done st' \<Longrightarrow> \<exists>x. st' = st\<lparr>StartedTimestamp := x\<rparr>"
  by (auto simp: load_created_def load_started_def on_get_Done_iff split: if_splits
      intro: exI [of _ "CreatedTimestamp st"] exI [of _ "StartedTimestamp st"])

lemma load_finished_Done:
  "load_finished D el st = Done st' \<Longrightarrow>
     (\<exists>x v. st' = st\<lparr>ExitCode := to_int32 v, FinishedTimestamp := x\<rparr>) \<or> st' = st"
  by (auto simp: load_finished_def on_get_Done_iff Let_def split: if_splits)

text \<open>Every successful load names a known status; the pid is taken from the file for a live container only.\<close>

lemma state_load_stages:
  assumes "state_load D files Path name st = Done st'"
  obtains el st1 st2 c b where "files Path = Inr el" "load_pid D el st1 = Done st2"
    "Status st1 \<noteq> Unknown" "Pid st1 = Pid st" "ExitCode st1 = ExitCode st"
    "Pid st' = Pid st2" "Status st' = Status st1"
    "ExitCode st' = ExitCode st \<or> (\<exists>v. ExitCode st' = to_int32 v)"
proof -
  from assms obtain el ss cid bp sc st1 st2 st3 st4 st5 where el: "files Path = Inr el"
    and st1: "st1 = st\<lparr>Status := parseStatus ss, ContainerId := cid, BundlePath := bp, SystemdCgroup := sc\<rparr>"
    and ss: "parseStatus ss \<noteq> Unknown"
    and p: "load_pid D el st1 = Done st2" and t: "load_created D el st2 = Done st3"
    "load_started D el st3 = Done st4" and f: "load_finished D el st4 = Done st5"
    and b: "loadBundle D files name st5 = Done st'"
    unfolding state_load_def
    by (clarsimp simp: on_get_Done_iff and_then_Done_iff Let_def split: if_splits)
  from load_pid_Done [OF p] obtain x2 where s2: "st2 = st1\<lparr>Pid := x2\<rparr>" by blast
  from load_times_Done(1) [OF t(1)] obtain x3 where s3: "st3 = st2\<lparr>CreatedTimestamp := x3\<rparr>" by blast
  from load_times_Done(2) [OF t(2)] obtain x4 where s4: "st4 = st3\<lparr>StartedTimestamp := x4\<rparr>" by blast
  from loadBundle_frame [OF b] obtain c where s6: "st' = st5\<lparr>Config := c\<rparr>" by blast
  show thesis
    by (rule that [OF el p]) (use load_finished_Done [OF f] ss in \<open>auto simp: st1 s2 s3 s4 s6\<close>)
qed

lemma state_load_Done:
  assumes "state_load D files Path name st = Done st'"
  shows "Status st' \<noteq> Unknown"
    and "Status st' = Created \<or> Status st' = Running \<Longrightarrow>
      \<exists>el v. files Path = Inr el \<and> field D el ''pid'' (get_int64 D) = Inr v \<and> Pid st' = to_int32 v"
    and "Status st' = Creating \<or> Status st' = Stopped \<Longrightarrow> Pid st' = Pid st"
    and "in_c_range Int32 (Pid st) \<Longrightarrow> in_c_range Int32 (Pid st')"
    and "in_c_range Int32 (ExitCode st) \<Longrightarrow> in_c_range Int32 (ExitCode st')"
  by (rule state_load_stages [OF assms],
      use to_int32_range in \<open>auto dest!: load_pid_Done split: if_splits\<close>)+

section \<open>Properties\<close>

text \<open>
  C4. The state file round trip: a state with a known status whose strings are ASCII text without
  control characters other than the five escaped ones, printed into \<^verbatim>\<open>state.json\<close> by one
  invocation, is loaded by the next one with every field that is persisted for its status
  unchanged, together with the freshly loaded bundle. The JSON parser is only assumed to parse
  flat objects correctly.
\<close>

theorem state_file_round_trip:
  assumes "parses_flat D" "dom_laws D" "printable st" "Status st \<noteq> Unknown"
    "files Path = parse_json D (print st)"
    "load D files (BundlePath st) ConfigFileName empty_bundle = Done c"
  shows "state_load D files Path ConfigFileName default_state = Done (persisted st c)"
  using assms by (rule read_back)

theorem state_file_round_trip_witness:
  "state_load reader_dom (sample_files sample_state) ''/run/c1/state.json'' ''config.json'' default_state
     = Done (persisted sample_state sample_bundle) \<and>
   Pid (persisted sample_state sample_bundle) = 4711 \<and> Status (persisted sample_state sample_bundle) = Running"
proof -
  have "BundlePath sample_state = ''/b''" by (simp add: sample_state_def new_state_def)
  then show ?thesis
    using state_file_round_trip [OF reader_parses_flat reader_dom_laws sample_printable, of
        "sample_files sample_state" "''/run/c1/state.json''" "''config.json''" sample_bundle]
      sample_files_load [of sample_state]
    by (simp add: sample_files_def [of _ "''/run/c1/state.json''"] persisted_def sample_state_def)
qed

text \<open>
  C24. A successfully loaded state has a known status and a pid and exit code that fit a 32-bit
  \<^verbatim>\<open>int\<close>; for a container that is being created or has stopped the pid keeps its initial value \<^verbatim>\<open>-1\<close>.
\<close>

theorem state_load_typed:
  "state_load D files Path ConfigFileName default_state = Done st \<Longrightarrow>
     Status st \<noteq> Unknown \<and> in_c_range Int32 (Pid st) \<and> in_c_range Int32 (ExitCode st) \<and>
     (Status st = Creating \<or> Status st = Stopped \<longrightarrow> Pid st = - 1)"
  using state_load_Done [of D files Path ConfigFileName default_state st]
  by (auto simp: default_state_def in_c_range_def)

definition stopped_state :: State where
  "stopped_state = sample_state\<lparr>Status := Stopped, ExitCode := 3, FinishedTimestamp := ''2023-11-14T22:13:22Z''\<rparr>"

lemma stopped_loads:
  "state_load reader_dom (sample_files stopped_state) ''/run/c1/state.json'' ''config.json'' default_state
     = Done (persisted stopped_state sample_bundle)"
proof (rule read_back [OF reader_parses_flat reader_dom_laws])
  show "printable stopped_state"
    using sample_printable
    by (simp add: stopped_state_def printable_def in_c_range_def)
      (simp add: plain_char_def char_val_def)
  have "BundlePath stopped_state = ''/b''" by (simp add: stopped_state_def sample_state_def new_state_def)
  then show "load reader_dom (sample_files stopped_state) (BundlePath stopped_state) ''config.json'' empty_bundle
      = Done sample_bundle"
    using sample_files_load by simp
qed (simp_all add: stopped_state_def sample_files_def)

theorem state_load_typed_witness:
  "state_load reader_dom (sample_files stopped_state) ''/run/c1/state.json'' ''config.json'' default_state
     = Done (persisted stopped_state sample_bundle) \<and> Pid (persisted stopped_state sample_bundle) = - 1"
  using state_load_typed [OF stopped_loads] stopped_loads
  by (simp add: persisted_def stopped_state_def)

text \<open>
  C26. On ASCII strings \<^verbatim>\<open>jsonEscape\<close> is inverted by reading a JSON string literal exactly when the
  only control characters are \<^verbatim>\<open>\b \f \n \r \t\<close>; any other control character is copied as it is and the
  text is not a legal literal.
\<close>

theorem json_escape_round_trip:
  "list_all (\<lambda>c. char_val c < 128) s \<Longrightarrow>
     unescape (jsonEscape s) =
       (if list_all (\<lambda>c. 32 \<le> char_val c \<or> c \<in> {CHR 0x08, CHR 0x0C, CHR 0x0A, CHR 0x0D, CHR 0x09}) s
        then Some s else None)"
proof -
  assume *: "list_all (\<lambda>c. char_val c < 128) s"
  have val: "char_val CHR 0x22 = 34" "char_val CHR 0x5C = 92" by (simp_all add: char_val_def)
  have one: "escapable c \<longleftrightarrow> 32 \<le> char_val c \<or> c \<in> {CHR 0x08, CHR 0x0C, CHR 0x0A, CHR 0x0D, CHR 0x09}"
    if "char_val c < 128" for c
    using that by (cases "c = CHR 0x22"; cases "c = CHR 0x5C") (auto simp: escapable_def plain_char_def val)
  from * have "list_all escapable s \<longleftrightarrow>
      list_all (\<lambda>c. 32 \<le> char_val c \<or> c \<in> {CHR 0x08, CHR 0x0C, CHR 0x0A, CHR 0x0D, CHR 0x09}) s"
    unfolding list_all_iff using one by blast
  then show ?thesis by (simp add: unescape_jsonEscape_iff)
qed

theorem json_escape_round_trip_witness:
  "unescape (jsonEscape [CHR ''a'', CHR 0x09, CHR 0x22]) = Some [CHR ''a'', CHR 0x09, CHR 0x22] \<and>
   unescape (jsonEscape [CHR 0x01]) = None"
  using json_escape_round_trip [of "[CHR ''a'', CHR 0x09, CHR 0x22]"] json_escape_round_trip [of "[CHR 0x01]"]
  by (simp add: char_val_def)

text \<open>
  C28. \<^verbatim>\<open>parseStatus\<close>, which looks at the length and at the sum of two characters first, recognises
  the four status names and nothing else.
\<close>

theorem parse_status_exact:
  "parseStatus s = (case map_of (map (\<lambda>c. (getStatusString c, c)) [Creating, Created, Running, Stopped]) s of
     None \<Rightarrow> Unknown | Some c \<Rightarrow> c)"
  by (auto simp: parseStatus_iff status_names)

text \<open>
  C27. The life of a container as the next invocation sees it: the state printed after each of the
  transitions creating, created, running and stopped is loaded with exactly the status, the pid, the
  time stamps and the exit code recorded so far. The pid is only kept while the container lives.
\<close>

theorem transitions_read_back:
  assumes "parses_flat D" "dom_laws D" "printable st" "in_c_range Int32 pid" "in_c_range Int32 code"
    and "files Path = parse_json D (print st')"
    and "load D files (BundlePath st) ConfigFileName empty_bundle = Done c"
  shows "(st' = setCreating st \<longrightarrow> state_load D files Path ConfigFileName default_state =
      Done (default_state\<lparr>ContainerId := ContainerId st, BundlePath := BundlePath st,
        SystemdCgroup := SystemdCgroup st, Config := c, Status := Creating\<rparr>)) \<and>
    (st' = setCreated n1 pid (setCreating st) \<longrightarrow> state_load D files Path ConfigFileName default_state =
      Done (default_state\<lparr>ContainerId := ContainerId st, BundlePath := BundlePath st,
        SystemdCgroup := SystemdCgroup st, Config := c, Status := Created, Pid := pid,
        CreatedTimestamp := timestamp n1\<rparr>)) \<and>
    (st' = setRunning n2 (setCreated n1 pid (setCreating st)) \<longrightarrow>
      state_load D files Path ConfigFileName default_state =
      Done (default_state\<lparr>ContainerId := ContainerId st, BundlePath := BundlePath st,
        SystemdCgroup := SystemdCgroup st, Config := c, Status := Running, Pid := pid,
        CreatedTimestamp := timestamp n1, StartedTimestamp := timestamp n2\<rparr>)) \<and>
    (st' = setStopped n3 code (setRunning n2 (setCreated n1 pid (setCreating st))) \<longrightarrow>
      state_load D files Path ConfigFileName default_state =
      Done (default_state\<lparr>ContainerId := ContainerId st, BundlePath := BundlePath st,
        SystemdCgroup := SystemdCgroup st, Config := c, Status := Stopped, Pid := - 1,
        CreatedTimestamp := timestamp n1, StartedTimestamp := timestamp n2,
        FinishedTimestamp := timestamp n3, ExitCode := code\<rparr>))"
proof -
  have read: "state_load D files Path ConfigFileName default_state = Done (persisted st' c)"
    if "printable st'" "Status st' \<noteq> Unknown" "BundlePath st' = BundlePath st"
    using read_back [OF assms(1,2) that(1,2), of files Path ConfigFileName c] assms(6,7) that(3) by simp
  note fields = setCreating_def setCreated_def setRunning_def setStopped_def persisted_def default_state_def
  show ?thesis
    by (intro conjI impI; subst read)
      (simp_all add: printable_transitions assms(3-5) del: One_nat_def, simp_all add: fields)
qed

theorem transitions_read_back_witness:
  "state_load reader_dom (sample_files (setStopped 1700000000 3 (setRunning 1700000000 (setCreated 1700000000 17
      (setCreating sample_state))))) ''/run/c1/state.json'' ''config.json'' default_state =
    Done (default_state\<lparr>ContainerId := ''c1'', BundlePath := ''/b'', Config := sample_bundle, Status := Stopped,
      Pid := - 1, CreatedTimestamp := ''2023-11-14T22:13:20Z'', StartedTimestamp := ''2023-11-14T22:13:20Z'',
      FinishedTimestamp := ''2023-11-14T22:13:20Z'', ExitCode := 3\<rparr>)"
proof -
  let ?st = "setStopped 1700000000 3 (setRunning 1700000000 (setCreated 1700000000 17 (setCreating sample_state)))"
  have "ContainerId sample_state = ''c1''" "BundlePath sample_state = ''/b''" "\<not> SystemdCgroup sample_state"
    by (simp_all add: sample_state_def new_state_def default_state_def)
  then show ?thesis
    using transitions_read_back [OF reader_parses_flat reader_dom_laws sample_printable, of 17 3
        "sample_files ?st" "''/run/c1/state.json''" ?st "''config.json''" sample_bundle 1700000000 1700000000 1700000000]
      sample_files_load [of ?st]
    by (simp add: in_c_range_def timestamp_example sample_files_def [of _ "''/run/c1/state.json''"])
      (simp add: default_state_def)
qed

end
