(* ===== verification/Signals.thy ===== *)
theory Signals
  imports Runw_Text
begin

text \<open>
  Signal arguments of \<^verbatim>\<open>runw kill\<close>: \<^verbatim>\<open>parseNumeric\<close> and \<^verbatim>\<open>parseSignal\<close> of \<^verbatim>\<open>src/runw.cpp\<close>.
  \<open>None\<close> is undefined behaviour: an overflowing \<^verbatim>\<open>int\<close>, or a byte that, as a negative \<^verbatim>\<open>char\<close> other
  than \<^verbatim>\<open>EOF\<close>, is outside the domain of \<^verbatim>\<open>isdigit\<close> and \<^verbatim>\<open>toupper\<close>.
\<close>

definition int_max :: int where "int_max = 2147483647"

section \<open>Definitions\<close>

text \<open>\<^verbatim>\<open>char\<close> is signed on the platforms the program is built for, and \<^verbatim>\<open>EOF\<close> is \<^verbatim>\<open>-1\<close>, the byte 255.\<close>

definition ctype_ok :: "char \<Rightarrow> bool" where
  "ctype_ok C \<longleftrightarrow> char_val C < 128 \<or> char_val C = 255"

fun parseNumeric_loop :: "int \<Rightarrow> string \<Rightarrow> int option" where
  "parseNumeric_loop Value [] = Some Value"
| "parseNumeric_loop Value (C # Name) =
     (if \<not> ctype_ok C then None
      else if is_digit C then
        (if dec_step Value C > int_max then None else parseNumeric_loop (dec_step Value C) Name)
      else Some (- 1))"

definition parseNumeric :: "string \<Rightarrow> int option" where
  "parseNumeric Name = parseNumeric_loop 0 Name"

text \<open>The Linux table, with the numbers of \<^verbatim>\<open>signal.h\<close> on x86-64.\<close>

definition kSignalNames :: "(string \<times> int) list" where
  "kSignalNames =
     [(''SIGABRT'', 6), (''SIGALRM'', 14), (''SIGBUS'', 7), (''SIGCHLD'', 17), (''SIGCONT'', 18),
      (''SIGFPE'', 8), (''SIGHUP'', 1), (''SIGILL'', 4), (''SIGINT'', 2), (''SIGIO'', 29),
      (''SIGKILL'', 9), (''SIGPIPE'', 13), (''SIGPROF'', 27), (''SIGPWR'', 30), (''SIGQUIT'', 3),
      (''SIGSEGV'', 11), (''SIGSTKFLT'', 16), (''SIGSTOP'', 19), (''SIGSYS'', 31),
      (''SIGTERM'', 15), (''SIGTRAP'', 5), (''SIGTSTP'', 20), (''SIGTTIN'', 21), (''SIGTTOU'', 22),
      (''SIGURG'', 23), (''SIGUSR1'', 10), (''SIGUSR2'', 12), (''SIGVTALRM'', 26),
      (''SIGWINCH'', 28), (''SIGXCPU'', 24), (''SIGXFSZ'', 25)]"

definition parseSignal :: "string \<Rightarrow> int option" where
  "parseSignal Name =
     (case parseNumeric Name of
        None \<Rightarrow> None
      | Some Value \<Rightarrow>
          if Value \<noteq> - 1 then Some Value
          else if \<not> list_all ctype_ok Name then None
          else
            let Upper = map to_upper Name;
                Upper = (if take 3 Upper \<noteq> ''SIG'' then ''SIG'' @ Upper else Upper)
            in case map_of kSignalNames Upper of Some n \<Rightarrow> Some n | None \<Rightarrow> Some (- 1))"

section \<open>Numbers\<close>

lemma foldl_dec_takeWhile_ge:
  "0 \<le> v \<Longrightarrow> v \<le> foldl dec_step v (takeWhile is_digit s)"
  by (rule foldl_dec_ge) (auto simp: list_all_iff dest: set_takeWhileD)

lemma digit_ctype: "is_digit c \<Longrightarrow> ctype_ok c"
  by (simp add: is_digit_def ctype_ok_def)

lemma upper_ctype: "ctype_ok (to_upper c) = ctype_ok c"
  by (auto simp: ctype_ok_def char_val_to_upper)

lemma all_digit_ctype: "list_all is_digit s \<Longrightarrow> list_all ctype_ok s"
  by (auto simp: list_all_iff digit_ctype)

definition stops_badly :: "string \<Rightarrow> bool" where
  "stops_badly s = (case dropWhile is_digit s of [] \<Rightarrow> False | c # _ \<Rightarrow> \<not> ctype_ok c)"

lemma stops_badly_simps [simp]:
  "\<not> stops_badly []" "stops_badly (c # s) = (if is_digit c then stops_badly s else \<not> ctype_ok c)"
  by (simp_all add: stops_badly_def)

lemma parseNumeric_loop_eq:
  "0 \<le> v \<Longrightarrow> parseNumeric_loop v s =
     (if foldl dec_step v (takeWhile is_digit s) > int_max \<and> s \<noteq> [] \<and> is_digit (hd s) \<or> stops_badly s then None
      else if list_all is_digit s then Some (foldl dec_step v s) else Some (- 1))"
proof (induction s arbitrary: v)
  case (Cons c s)
  show ?case
  proof (cases "is_digit c")
    case True
    then have pos: "0 \<le> dec_step v c" using Cons.prems by (auto simp: dec_step_def is_digit_def)
    have le: "dec_step v c \<le> foldl dec_step (dec_step v c) (takeWhile is_digit s)"
      by (rule foldl_dec_takeWhile_ge [OF pos])
    show ?thesis
    proof (cases "dec_step v c > int_max")
      case big: True
      with le True show ?thesis by simp
    next
      case False
      with True have "parseNumeric_loop v (c # s) = parseNumeric_loop (dec_step v c) s"
        by (simp add: digit_ctype)
      also note Cons.IH [OF pos]
      finally show ?thesis using True False
        by (cases s) (simp_all del: parseNumeric_loop.simps)
    qed
  qed simp
qed simp

text \<open>
  The exact result: the value of a string of digits, \<^verbatim>\<open>-1\<close> otherwise, unless the leading digits
  overflow or the first character that is no digit is outside the domain of \<^verbatim>\<open>isdigit\<close>.
\<close>

lemma parseNumeric_eq:
  "parseNumeric s =
     (if dec_value (takeWhile is_digit s) > int_max \<or> stops_badly s then None
      else if list_all is_digit s then Some (dec_value s) else Some (- 1))"
proof -
  have "dec_value (takeWhile is_digit s) > int_max \<Longrightarrow> s \<noteq> [] \<and> is_digit (hd s)"
    by (cases s) (auto simp: dec_value_def int_max_def split: if_splits)
  then show ?thesis
    by (auto simp: parseNumeric_def parseNumeric_loop_eq dec_value_def)
qed

lemma stops_badly_ctype: "stops_badly s \<Longrightarrow> \<not> list_all ctype_ok s"
  by (induction s) (auto split: if_splits)

lemma takeWhile_all: "list_all p s \<Longrightarrow> takeWhile p s = s"
  by (simp add: list_all_iff takeWhile_eq_all_conv)

lemma takeWhile_upper: "takeWhile is_digit (map to_upper s) = takeWhile is_digit s"
  by (induction s) (auto simp: to_upper_digit)

lemma all_digit_upper: "list_all is_digit (map to_upper s) = list_all is_digit s"
  by (induction s) auto

lemma all_ctype_upper: "list_all ctype_ok (map to_upper s) = list_all ctype_ok s"
  by (induction s) (auto simp: upper_ctype)

lemma list_all_drop: "list_all p s \<Longrightarrow> list_all p (drop n s)"
  by (auto simp: list_all_iff dest: in_set_dropD)

lemma all_digit_upper_id: "list_all is_digit s \<Longrightarrow> map to_upper s = s"
  by (induction s) (auto simp: to_upper_digit)

section \<open>Names\<close>

definition canonical :: "string \<Rightarrow> string" where
  "canonical s = (let u = map to_upper s in if take 3 u = ''SIG'' then u else ''SIG'' @ u)"

lemma parseSignal_eq:
  "parseSignal s =
     (if dec_value (takeWhile is_digit s) > int_max \<or> \<not> list_all ctype_ok s then None
      else if list_all is_digit s then Some (dec_value s)
      else case map_of kSignalNames (canonical s) of Some n \<Rightarrow> Some n | None \<Rightarrow> Some (- 1))"
proof (cases "list_all is_digit s")
  case True
  from dec_value_nonneg [OF True] have "dec_value s \<noteq> - 1" by simp
  with True all_digit_ctype [OF True] stops_badly_ctype [of s] show ?thesis
    by (auto simp: parseSignal_def parseNumeric_eq)
next
  case False
  with stops_badly_ctype [of s] show ?thesis
    by (auto simp: parseSignal_def parseNumeric_eq canonical_def Let_def)
qed

lemma canonical_upper: "canonical (map to_upper s) = canonical s"
  by (simp add: canonical_def comp_def)

lemma canonical_prefix:
  "take 3 (map to_upper s) \<noteq> ''SIG'' \<Longrightarrow> canonical (''SIG'' @ s) = canonical s"
proof -
  have "map to_upper ''SIG'' = ''SIG''" by code_simp
  then show "take 3 (map to_upper s) \<noteq> ''SIG'' \<Longrightarrow> canonical (''SIG'' @ s) = canonical s"
    by (simp add: canonical_def Let_def)
qed

lemma signal_numbers: "map_of kSignalNames k = Some n \<Longrightarrow> 1 \<le> n \<and> n \<le> 31"
  by (drule map_of_SomeD) (auto simp: kSignalNames_def)

lemma signal_names_distinct: "distinct (map fst kSignalNames)" "distinct (map snd kSignalNames)"
  by (simp_all add: kSignalNames_def)

text \<open>The names are upper case, start with the prefix and have a letter after it.\<close>

lemma signal_name_shape:
  "(k, v) \<in> set kSignalNames \<Longrightarrow>
     canonical k = k \<and> canonical (drop 3 k) = k \<and> list_all ctype_ok k \<and> k \<noteq> [] \<and> \<not> is_digit (hd k) \<and>
     drop 3 k \<noteq> [] \<and> \<not> is_digit (hd (drop 3 k))"
proof -
  assume *: "(k, v) \<in> set kSignalNames"
  have "list_all (\<lambda>(k, v). take 3 k = ''SIG'' \<and> take 3 (drop 3 k) \<noteq> ''SIG'' \<and> list_all (\<lambda>c. to_upper c = c) k \<and>
      list_all ctype_ok k \<and> drop 3 k \<noteq> [] \<and> \<not> is_digit (hd (drop 3 k))) kSignalNames"
    by code_simp
  with * have k: "take 3 k = ''SIG''" "take 3 (drop 3 k) \<noteq> ''SIG''" "list_all (\<lambda>c. to_upper c = c) k"
    "list_all ctype_ok k" "drop 3 k \<noteq> []" "\<not> is_digit (hd (drop 3 k))"
    by (auto simp: list_all_iff)
  from k(3) have up: "map to_upper k = k" by (simp add: list_all_iff map_idI)
  then have up3: "map to_upper (drop 3 k) = drop 3 k" by (metis drop_map)
  have "k = ''SIG'' @ drop 3 k" using k(1) by (metis append_take_drop_id)
  then have "canonical (drop 3 k) = k" using k(2) up3 by (simp add: canonical_def)
  moreover have "canonical k = k" using k(1) up by (simp add: canonical_def)
  moreover have "hd k = CHR ''S''" using \<open>k = ''SIG'' @ drop 3 k\<close> by (metis hd_append2 list.distinct(1) list.sel(1))
  moreover have "\<not> is_digit CHR ''S''" by (simp add: is_digit_def char_val_def)
  ultimately show ?thesis using k by auto
qed

lemma parseSignal_name:
  "s \<noteq> [] \<Longrightarrow> \<not> is_digit (hd s) \<Longrightarrow> list_all ctype_ok s \<Longrightarrow> parseSignal s =
     (case map_of kSignalNames (canonical s) of Some n \<Rightarrow> Some n | None \<Rightarrow> Some (- 1))"
  by (cases s) (auto simp: parseSignal_eq dec_value_def int_max_def)

section \<open>Properties\<close>

text \<open>
  C21. \<^verbatim>\<open>parseSignal\<close> is, for every argument, the number written in decimal, or else the number of
  the signal whose name is the upper-case argument with the prefix \<^verbatim>\<open>SIG\<close> added if it is missing,
  or else \<^verbatim>\<open>-1\<close>. The only exceptions are arguments that start with digits of a value above the
  largest \<^verbatim>\<open>int\<close>, where the loop overflows, and arguments with a byte from 128 to 254, which as a
  negative \<^verbatim>\<open>char\<close> is outside the domain of \<^verbatim>\<open>isdigit\<close> and \<^verbatim>\<open>toupper\<close>.
\<close>

theorem parse_signal_exact:
  "parseSignal s =
     (if dec_value (takeWhile is_digit s) > int_max \<or>
         (\<exists>c \<in> set s. 128 \<le> char_val c \<and> char_val c < 255) then None
      else if list_all is_digit s then Some (dec_value s)
      else case map_of kSignalNames (canonical s) of Some n \<Rightarrow> Some n | None \<Rightarrow> Some (- 1))"
proof -
  have "ctype_ok c \<longleftrightarrow> \<not> (128 \<le> char_val c \<and> char_val c < 255)" for c
    using char_val_bounds(2) [of c] by (auto simp: ctype_ok_def)
  then have "list_all ctype_ok s \<longleftrightarrow> \<not> (\<exists>c \<in> set s. 128 \<le> char_val c \<and> char_val c < 255)"
    by (simp add: list_all_iff)
  then show ?thesis by (simp add: parseSignal_eq)
qed

text \<open>
  C29. A number printed in decimal and given as a signal argument is that signal number, for every
  number an \<^verbatim>\<open>int\<close> can hold; and every name of the table, with or without its prefix, is the
  signal with its number.
\<close>

theorem parse_signal_round_trip:
  "(int n \<le> int_max \<longrightarrow> parseSignal (show_nat n) = Some (int n)) \<and>
   ((k, v) \<in> set kSignalNames \<longrightarrow> parseSignal k = Some v \<and> parseSignal (drop 3 k) = Some v)"
proof (intro conjI impI)
  assume "int n \<le> int_max"
  then show "parseSignal (show_nat n) = Some (int n)"
    using show_nat_digits [of n] by (simp add: parseSignal_eq takeWhile_all all_digit_ctype)
next
  assume *: "(k, v) \<in> set kSignalNames"
  then have k: "map_of kSignalNames k = Some v" using signal_names_distinct(1) by simp
  from signal_name_shape [OF *] show "parseSignal k = Some v" "parseSignal (drop 3 k) = Some v"
    using k by (simp_all add: parseSignal_name list_all_drop)
qed

theorem parse_signal_round_trip_witness:
  "parseSignal (show_nat 15) = Some 15 \<and> parseSignal ''TERM'' = Some 15"
  using parse_signal_round_trip [of 15 "''SIGTERM''" 15] by (simp add: int_max_def kSignalNames_def)

text \<open>
  C30. Signal arguments are read without regard to case, and for an argument that does not start
  with a digit the prefix \<^verbatim>\<open>SIG\<close> is optional.
\<close>

theorem parse_signal_spelling:
  "parseSignal (map to_upper s) = parseSignal s \<and>
   (take 3 (map to_upper s) \<noteq> ''SIG'' \<and> s \<noteq> [] \<and> \<not> is_digit (hd s) \<longrightarrow>
      parseSignal (''SIG'' @ s) = parseSignal s)"
proof (intro conjI impI)
  show "parseSignal (map to_upper s) = parseSignal s"
    by (auto simp: parseSignal_eq canonical_upper takeWhile_upper all_digit_upper all_digit_upper_id
        all_ctype_upper)
  assume s: "take 3 (map to_upper s) \<noteq> ''SIG'' \<and> s \<noteq> [] \<and> \<not> is_digit (hd s)"
  moreover have "\<not> is_digit CHR ''S''" by (simp add: is_digit_def char_val_def)
  moreover have "list_all ctype_ok ''SIG''" by code_simp
  ultimately show "parseSignal (''SIG'' @ s) = parseSignal s"
    using canonical_prefix [of s]
    by (cases "list_all ctype_ok s") (simp_all add: parseSignal_name, simp add: parseSignal_eq)
qed

theorem parse_signal_spelling_witness: "parseSignal (''SIG'' @ ''hup'') = parseSignal ''hup'' \<and> parseSignal ''hup'' = Some 1"
proof -
  have "take 3 (map to_upper ''hup'') \<noteq> ''SIG''" "\<not> is_digit CHR ''h''" "parseSignal ''hup'' = Some 1"
    by code_simp+
  with parse_signal_spelling [of "''hup''"] show ?thesis by simp
qed

end
