(* ===== verification/Sdbus.thy ===== *)
theory Sdbus
  imports Runw_Text
begin

text \<open>
  The wrapper around sd-bus: \<^verbatim>\<open>include/sdbus.h\<close> and \<^verbatim>\<open>src/sdbus.cpp\<close>. libsystemd is not part
  of the repository: it is a parameter, a function that answers one library call at a time and
  carries a state \<open>'w\<close> of its own. The world of the wrapper pairs that state with the log of
  the calls made so far, so that the order of calls and the reference counting can be stated.
\<close>

section \<open>The library as a parameter\<close>

text \<open>Arguments of the variadic \<^verbatim>\<open>sd_bus_message_append\<close>.\<close>

datatype sd_arg = SArg string | IArg int | NullArg

datatype sd_call =
    DefaultUser
  | DefaultSystem
  | MatchSignal nat string string string string
  | NewMethodCall nat string string string string
  | Append nat string "sd_arg list"
  | OpenContainer nat char string
  | CloseContainer nat
  | BusCall nat nat int
  | MsgRead nat string
  | Process nat
  | ProcessReturn nat int
  | Wait nat int
  | UnrefMsg nat
  | UnrefBus nat

text \<open>
  An answer: the return value, the handle written through an output parameter, the strings a
  read delivers, and the errno of a filled-in \<^verbatim>\<open>sd_bus_error\<close>. For \<open>Process\<close> the handle list
  holds the signal message that sd-bus hands to the installed callback, if there is one;
  \<open>ProcessReturn\<close> tells the library what the callback returned and is answered with the return
  value of \<^verbatim>\<open>sd_bus_process\<close>.
\<close>

record sd_answer =
  ans_ret :: int
  ans_handle :: nat
  ans_strings :: "string list"
  ans_errno :: int
  ans_delivered :: "nat option"

type_synonym 'w sd_lib = "'w \<Rightarrow> sd_call \<Rightarrow> sd_answer \<times> 'w"
type_synonym 'w bus_world = "'w \<times> sd_call list"

definition perform :: "'w sd_lib \<Rightarrow> sd_call \<Rightarrow> 'w bus_world \<Rightarrow> sd_answer \<times> 'w bus_world" where
  "perform L c s = (case L (fst s) c of (a, w) \<Rightarrow> (a, (w, snd s @ [c])))"

text \<open>\<^verbatim>\<open>cxx20::expected<T, int>\<close> with the state threaded through.\<close>

type_synonym ('a, 'w) bus_op = "'w bus_world \<Rightarrow> (int + 'a) \<times> 'w bus_world"

definition bindE :: "('a, 'w) bus_op \<Rightarrow> ('a \<Rightarrow> ('b, 'w) bus_op) \<Rightarrow> ('b, 'w) bus_op" where
  "bindE m f s = (case m s of (Inl e, s') \<Rightarrow> (Inl e, s') | (Inr v, s') \<Rightarrow> f v s')"

definition returnE :: "'a \<Rightarrow> ('a, 'w) bus_op" where
  "returnE v s = (Inr v, s)"

text \<open>The common shape of a wrapper: a negative return value becomes the error \<^verbatim>\<open>-Err\<close>.\<close>

definition wrap :: "'w sd_lib \<Rightarrow> sd_call \<Rightarrow> (sd_answer \<Rightarrow> 'a) \<Rightarrow> ('a, 'w) bus_op" where
  "wrap L c get s = (case perform L c s of (a, s') \<Rightarrow>
     if ans_ret a < 0 then (Inl (- ans_ret a), s') else (Inr (get a), s'))"

section \<open>\<^verbatim>\<open>class SDBus\<close>\<close>

definition defaultUser :: "'w sd_lib \<Rightarrow> (nat, 'w) bus_op" where
  "defaultUser L = wrap L DefaultUser ans_handle"

definition defaultSystem :: "'w sd_lib \<Rightarrow> (nat, 'w) bus_op" where
  "defaultSystem L = wrap L DefaultSystem ans_handle"

definition bus_destroy :: "'w sd_lib \<Rightarrow> nat \<Rightarrow> 'w bus_world \<Rightarrow> 'w bus_world" where
  "bus_destroy L Bus s = snd (perform L (UnrefBus Bus) s)"

definition matchSignalAsync ::
  "'w sd_lib \<Rightarrow> nat \<Rightarrow> string \<Rightarrow> string \<Rightarrow> string \<Rightarrow> string \<Rightarrow> (unit, 'w) bus_op" where
  "matchSignalAsync L Bus Sender Path Interface Member =
     wrap L (MatchSignal Bus Sender Path Interface Member) (\<lambda>_. ())"

definition methodCall ::
  "'w sd_lib \<Rightarrow> nat \<Rightarrow> string \<Rightarrow> string \<Rightarrow> string \<Rightarrow> string \<Rightarrow> (nat, 'w) bus_op" where
  "methodCall L Bus Destination Path Interface Member =
     wrap L (NewMethodCall Bus Destination Path Interface Member) ans_handle"

text \<open>
  \<^verbatim>\<open>SDBus::call\<close> takes the message by value and releases it: the caller's object no longer
  owns the request, and the reply overwrites the only pointer to it. An error is the errno of
  the \<^verbatim>\<open>SDBusError\<close>.
\<close>

definition call :: "'w sd_lib \<Rightarrow> nat \<Rightarrow> nat \<Rightarrow> int \<Rightarrow> (nat, 'w) bus_op" where
  "call L Bus Message USec s = (case perform L (BusCall Bus Message USec) s of (a, s') \<Rightarrow>
     if ans_ret a < 0 then (Inl (ans_errno a), s') else (Inr (ans_handle a), s'))"

section \<open>\<^verbatim>\<open>class SDBusMessage\<close>\<close>

definition msg_destroy :: "'w sd_lib \<Rightarrow> nat \<Rightarrow> 'w bus_world \<Rightarrow> 'w bus_world" where
  "msg_destroy L Msg s = snd (perform L (UnrefMsg Msg) s)"

definition msg_read :: "'w sd_lib \<Rightarrow> nat \<Rightarrow> string \<Rightarrow> (string list, 'w) bus_op" where
  "msg_read L Msg Types = wrap L (MsgRead Msg Types) ans_strings"

definition msg_append :: "'w sd_lib \<Rightarrow> nat \<Rightarrow> string \<Rightarrow> sd_arg list \<Rightarrow> (unit, 'w) bus_op" where
  "msg_append L Msg Types As = wrap L (Append Msg Types As) (\<lambda>_. ())"

definition openContainer :: "'w sd_lib \<Rightarrow> nat \<Rightarrow> char \<Rightarrow> string \<Rightarrow> (unit, 'w) bus_op" where
  "openContainer L Msg Type Contents = wrap L (OpenContainer Msg Type Contents) (\<lambda>_. ())"

definition closeContainer :: "'w sd_lib \<Rightarrow> nat \<Rightarrow> (unit, 'w) bus_op" where
  "closeContainer L Msg = wrap L (CloseContainer Msg) (\<lambda>_. ())"

section \<open>Dispatch: \<^verbatim>\<open>process\<close>, \<^verbatim>\<open>wait\<close> and the callback trampoline\<close>

text \<open>
  \<^verbatim>\<open>matchSignalAsyncCallback\<close> wraps the borrowed message into an owning \<^verbatim>\<open>SDBusMessage\<close>, calls
  the C++ callback and drops the wrapper, which releases a reference. The callback threads its
  own object (of type \<open>'c\<close>).
\<close>

definition matchSignalAsyncCallback ::
  "'w sd_lib \<Rightarrow> (nat \<Rightarrow> 'c \<Rightarrow> 'w bus_world \<Rightarrow> int \<times> 'c \<times> 'w bus_world) \<Rightarrow> nat \<Rightarrow> 'c
     \<Rightarrow> 'w bus_world \<Rightarrow> int \<times> 'c \<times> 'w bus_world" where
  "matchSignalAsyncCallback L Callback Msg o1 s =
     (case Callback Msg o1 s of (r, o2, s') \<Rightarrow> (r, o2, msg_destroy L Msg s'))"

definition process ::
  "'w sd_lib \<Rightarrow> (nat \<Rightarrow> 'c \<Rightarrow> 'w bus_world \<Rightarrow> int \<times> 'c \<times> 'w bus_world) \<Rightarrow> nat \<Rightarrow> 'c
     \<Rightarrow> 'w bus_world \<Rightarrow> (int + bool) \<times> 'c \<times> 'w bus_world" where
  "process L Callback Bus o1 s =
     (case perform L (Process Bus) s of (a, s1) \<Rightarrow>
      case (case ans_delivered a of None \<Rightarrow> (0, o1, s1)
            | Some m \<Rightarrow> matchSignalAsyncCallback L Callback m o1 s1) of (r, o2, s2) \<Rightarrow>
      case perform L (ProcessReturn Bus r) s2 of (a, s3) \<Rightarrow>
        if ans_ret a < 0 then (Inl (- ans_ret a), o2, s3) else (Inr (0 < ans_ret a), o2, s3))"

definition wait :: "'w sd_lib \<Rightarrow> nat \<Rightarrow> int \<Rightarrow> (unit, 'w) bus_op" where
  "wait L Bus TimeoutUSec = wrap L (Wait Bus TimeoutUSec) (\<lambda>_. ())"

section \<open>Logs only grow, errors are positive\<close>

definition extends :: "'w bus_world \<Rightarrow> 'w bus_world \<Rightarrow> bool" where
  "extends s s' \<longleftrightarrow> (\<exists>cs. snd s' = snd s @ cs)"

lemma extends_refl [simp]: "extends s s"
  by (simp add: extends_def)

lemma extends_trans [trans]: "extends s t \<Longrightarrow> extends t u \<Longrightarrow> extends s u"
  by (auto simp: extends_def)

lemma perform_log: "perform L c s = (a, s') \<Longrightarrow> snd s' = snd s @ [c]"
  by (auto simp: perform_def split: prod.splits)

lemma wrap_log: "wrap L c get s = (r, s') \<Longrightarrow> snd s' = snd s @ [c]"
  by (auto simp: wrap_def perform_log split: prod.splits if_splits)

lemma wrap_error: "wrap L c get s = (Inl e, s') \<Longrightarrow> 0 < e"
  by (auto simp: wrap_def split: prod.splits if_splits)

lemma call_log: "call L b m u s = (r, s') \<Longrightarrow> snd s' = snd s @ [BusCall b m u]"
  by (auto simp: call_def perform_log split: prod.splits if_splits)

lemma destroy_log:
  "snd (msg_destroy L m s) = snd s @ [UnrefMsg m]" "snd (bus_destroy L b s) = snd s @ [UnrefBus b]"
  by (simp_all add: msg_destroy_def bus_destroy_def perform_def split: prod.split)

lemmas wrapper_defs = defaultUser_def defaultSystem_def matchSignalAsync_def methodCall_def
  msg_read_def msg_append_def openContainer_def closeContainer_def wait_def

text \<open>The trampoline always releases the message it was lent.\<close>

lemma callback_unrefs:
  "matchSignalAsyncCallback L f m o1 s = (r, o2, s') \<Longrightarrow> \<exists>t. f m o1 s = (r, o2, t) \<and> snd s' = snd t @ [UnrefMsg m]"
  by (auto simp: matchSignalAsyncCallback_def destroy_log split: prod.splits)

end
