(* ===== verification/Cgroup.thy ===== *)
theory Cgroup
  imports Sdbus Container_State
begin

text \<open>
  Control groups: \<^verbatim>\<open>include/cgroup.h\<close> and \<^verbatim>\<open>src/cgroup.cpp\<close>. \<^verbatim>\<open>CGroup::enter\<close> asks systemd for
  a transient scope and waits for the job to finish; \<^verbatim>\<open>checkMode\<close> and \<^verbatim>\<open>CGroup::finalize\<close>
  inspect the cgroup file system.
\<close>

section \<open>\<^verbatim>\<open>JobStatusChecker\<close>\<close>

text \<open>\<open>CkUB\<close> records that the callback compared against a null \<^verbatim>\<open>Path\<close> or read unset pointers.\<close>

record checker =
  CkPath :: "string option"
  CkOp :: "string option"
  Terminated :: bool
  CkError :: bool
  CkUB :: bool

definition new_checker :: checker where
  "new_checker = \<lparr>CkPath = None, CkOp = None, Terminated = False, CkError = False, CkUB = False\<rparr>"

definition EFAULT :: int where "EFAULT = 14"
definition EINVAL :: int where "EINVAL = 22"
definition ENOENT :: int where "ENOENT = 2"
definition uint64_max :: int where "uint64_max = 18446744073709551615"

definition checker_setup :: "'w sd_lib \<Rightarrow> nat \<Rightarrow> (unit, 'w) bus_op" where
  "checker_setup L Bus =
     matchSignalAsync L Bus ''org.freedesktop.systemd1'' ''/org/freedesktop/systemd1''
       ''org.freedesktop.systemd1.Manager'' ''JobRemoved''"

text \<open>The lambda \<^verbatim>\<open>Callback\<close>; the strings of a \<^verbatim>\<open>"uoss"\<close> read are the id, the path, the unit and the result.\<close>

definition checker_callback ::
  "'w sd_lib \<Rightarrow> nat \<Rightarrow> checker \<Rightarrow> 'w bus_world \<Rightarrow> int \<times> checker \<times> 'w bus_world" where
  "checker_callback L Msg ck s =
     (case msg_read L Msg ''uoss'' s of
        (Inl _, s') \<Rightarrow> (- 1, ck, s')
      | (Inr [MId, MPath, MUnit, MResult], s') \<Rightarrow>
          (case CkPath ck of
             None \<Rightarrow> (0, ck\<lparr>CkUB := True\<rparr>, s')
           | Some Path \<Rightarrow>
               if Path = MPath then
                 (0, (if MResult \<noteq> ''done'' then ck\<lparr>Terminated := True, CkError := True\<rparr>
                      else ck\<lparr>Terminated := True\<rparr>), s')
               else (0, ck, s'))
      | (Inr _, s') \<Rightarrow> (0, ck\<lparr>CkUB := True\<rparr>, s'))"

text \<open>The loop of \<^verbatim>\<open>check\<close>; \<open>None\<close> when the fuel is used up and the loop would go on.\<close>

fun check_loop ::
  "nat \<Rightarrow> 'w sd_lib \<Rightarrow> nat \<Rightarrow> checker \<Rightarrow> 'w bus_world
     \<Rightarrow> ((int + unit) \<times> checker \<times> 'w bus_world) option" where
  "check_loop 0 L Bus ck s = None"
| "check_loop (Suc n) L Bus ck s =
     (if Terminated ck then Some (if CkError ck then Inl EFAULT else Inr (), ck, s)
      else
        (case process L (checker_callback L) Bus ck s of
           (Inl e, ck', s') \<Rightarrow> Some (Inl e, ck', s')
         | (Inr again, ck', s') \<Rightarrow>
             if again then check_loop n L Bus ck' s'
             else
               (case wait L Bus uint64_max s' of
                  (Inl e, s'') \<Rightarrow> Some (Inl e, ck', s'')
                | (Inr _, s'') \<Rightarrow> check_loop n L Bus ck' s'')))"

definition checker_check ::
  "nat \<Rightarrow> 'w sd_lib \<Rightarrow> nat \<Rightarrow> string \<Rightarrow> string \<Rightarrow> checker \<Rightarrow> 'w bus_world
     \<Rightarrow> ((int + unit) \<times> checker \<times> 'w bus_world) option" where
  "checker_check fuel L Bus Path Op ck s =
     check_loop fuel L Bus (ck\<lparr>CkPath := Some Path, CkOp := Some Op\<rparr>) s"

section \<open>Scope and slice names\<close>

text \<open>
  Lines 147 to 167 of \<^verbatim>\<open>CGroup::enter\<close>. The search for the second colon runs over \<^verbatim>\<open>Scope\<close>,
  the part after the first colon, but starts at the position \<^verbatim>\<open>FirstColon + 1\<close> of the whole path.
\<close>

definition scope_slice :: "string \<Rightarrow> string \<Rightarrow> string \<times> string" where
  "scope_slice Cid Path =
     (if Path = [] then (''runw-'' @ Cid @ ''.scope'', [])
      else
        let FirstColon = find_char Path CHR '':'' 0;
            Scope =
              (case FirstColon of
                 None \<Rightarrow> Path @ ''.scope''
               | Some i \<Rightarrow>
                   let Scope = substr Path (i + 1) None;
                       SecondColon = find_char Scope CHR '':'' (i + 1)
                   in (case SecondColon of None \<Rightarrow> Scope | Some j \<Rightarrow> Scope[j := CHR ''-'']) @ ''.scope'');
            Slice = substr Path 0 FirstColon
        in (Scope, Slice))"

section \<open>\<^verbatim>\<open>CGroup::enter\<close>\<close>

text \<open>The request: everything appended to the \<^verbatim>\<open>StartTransientUnit\<close> message.\<close>

definition fill_request ::
  "'w sd_lib \<Rightarrow> nat \<Rightarrow> string \<Rightarrow> string \<Rightarrow> int \<Rightarrow> (unit, 'w) bus_op" where
  "fill_request L Msg Scope Slice pid =
     bindE (msg_append L Msg ''ss'' [SArg Scope, SArg ''fail'']) (\<lambda>_.
     bindE (openContainer L Msg CHR ''a'' ''(sv)'') (\<lambda>_.
     bindE (if Slice \<noteq> [] then msg_append L Msg ''(sv)'' [SArg ''Slice'', SArg ''s'', SArg Slice]
            else returnE ()) (\<lambda>_.
     bindE (msg_append L Msg ''(sv)'' [SArg ''Description'', SArg ''s'', SArg ''runw container'']) (\<lambda>_.
     bindE (msg_append L Msg ''(sv)'' [SArg ''PIDs'', SArg ''au'', IArg 1, IArg pid]) (\<lambda>_.
     bindE (msg_append L Msg ''(sv)'' [SArg ''Delegate'', SArg ''b'', IArg 1]) (\<lambda>_.
     bindE (closeContainer L Msg) (\<lambda>_.
     msg_append L Msg ''a(sa(sv))'' [NullArg])))))))"

text \<open>Once the reply is there: read the path of the job and wait for it. The message object owns the reply.\<close>

definition await_job ::
  "nat \<Rightarrow> 'w sd_lib \<Rightarrow> nat \<Rightarrow> nat \<Rightarrow> checker \<Rightarrow> 'w bus_world
     \<Rightarrow> ((int + unit) \<times> checker \<times> 'w bus_world) option" where
  "await_job fuel L Bus Reply ck s =
     (case msg_read L Reply ''o'' s of
        (Inl e, s) \<Rightarrow> Some (Inl e, ck, msg_destroy L Reply s)
      | (Inr Object, s) \<Rightarrow>
          map_option (\<lambda>(r, ck, s). (r, ck, msg_destroy L Reply s))
            (checker_check fuel L Bus (hd (Object @ [[]])) ''creating'' ck s))"

text \<open>
  Fill the request and send it. \<^verbatim>\<open>Bus.call\<close> takes the message over: after it the message object owns
  nothing (on an error) or the reply (on success).
\<close>

definition request_scope ::
  "nat \<Rightarrow> 'w sd_lib \<Rightarrow> string \<Rightarrow> State \<Rightarrow> nat \<Rightarrow> nat \<Rightarrow> checker \<Rightarrow> 'w bus_world
     \<Rightarrow> ((int + unit) \<times> checker \<times> 'w bus_world) option" where
  "request_scope fuel L Cid st Bus Msg ck s =
     (case scope_slice Cid (CgroupsPath (Config st)) of (Scope, Slice) \<Rightarrow>
      (case fill_request L Msg Scope Slice (getPid st) s of
         (Inl e, s) \<Rightarrow> Some (Inl e, ck, msg_destroy L Msg s)
       | (Inr _, s) \<Rightarrow>
           (case call L Bus Msg 0 s of
              (Inl e, s) \<Rightarrow> Some (Inl e, ck, s)
            | (Inr Reply, s) \<Rightarrow> await_job fuel L Bus Reply ck s)))"

text \<open>The rest of \<^verbatim>\<open>enter\<close> once a bus is open; the bus object is destroyed on every way out.\<close>

definition enter_body ::
  "nat \<Rightarrow> 'w sd_lib \<Rightarrow> string \<Rightarrow> State \<Rightarrow> nat \<Rightarrow> 'w bus_world
     \<Rightarrow> ((int + unit) \<times> checker \<times> 'w bus_world) option" where
  "enter_body fuel L Cid st Bus s =
     (case checker_setup L Bus s of
        (Inl e, s) \<Rightarrow> Some (Inl e, new_checker, s)
      | (Inr _, s) \<Rightarrow>
          (case methodCall L Bus ''org.freedesktop.systemd1'' ''/org/freedesktop/systemd1''
                  ''org.freedesktop.systemd1.Manager'' ''StartTransientUnit'' s of
             (Inl e, s) \<Rightarrow> Some (Inl e, new_checker, s)
           | (Inr Msg, s) \<Rightarrow> request_scope fuel L Cid st Bus Msg new_checker s))"

definition enter_with ::
  "nat \<Rightarrow> 'w sd_lib \<Rightarrow> string \<Rightarrow> State \<Rightarrow> nat \<Rightarrow> 'w bus_world
     \<Rightarrow> ((int + unit) \<times> checker \<times> 'w bus_world) option" where
  "enter_with fuel L Cid st Bus s =
     map_option (\<lambda>(r, ck, s). (r, ck, bus_destroy L Bus s)) (enter_body fuel L Cid st Bus s)"

definition enter ::
  "nat \<Rightarrow> 'w sd_lib \<Rightarrow> string \<Rightarrow> State \<Rightarrow> 'w bus_world
     \<Rightarrow> ((int + unit) \<times> checker \<times> 'w bus_world) option" where
  "enter fuel L Cid st s =
     (case defaultUser L s of
        (Inr Bus, s) \<Rightarrow> enter_with fuel L Cid st Bus s
      | (Inl _, s) \<Rightarrow>
          (case defaultSystem L s of
             (Inr Bus, s) \<Rightarrow> enter_with fuel L Cid st Bus s
           | (Inl e, s) \<Rightarrow> Some (Inl e, new_checker, s)))"

section \<open>\<^verbatim>\<open>checkMode\<close> and \<^verbatim>\<open>CGroup::finalize\<close>\<close>

datatype Mode = ModeUnknown | Unified | Legacy | Hybird

definition kCgroup2SuperMagic :: int where "kCgroup2SuperMagic = 0x63677270"
definition kTmpFsMagic :: int where "kTmpFsMagic = 0x01021994"

text \<open>\<open>statfs p\<close> is the errno of a failing \<^verbatim>\<open>statfs\<close> or the \<^verbatim>\<open>f_type\<close> it reports.\<close>

definition checkMode :: "(string \<Rightarrow> int + int) \<Rightarrow> Mode" where
  "checkMode statfs =
     (case statfs ''/sys/fs/cgroup'' of
        Inl _ \<Rightarrow> ModeUnknown
      | Inr t \<Rightarrow>
          if t = kCgroup2SuperMagic then Unified
          else if t \<noteq> kTmpFsMagic then ModeUnknown
          else
            (case statfs ''/sys/fs/cgroup/unified'' of
               Inl errno \<Rightarrow> if errno \<noteq> ENOENT then ModeUnknown else Legacy
             | Inr t \<Rightarrow> if t = kCgroup2SuperMagic then Hybird else Legacy))"

text \<open>
  \<^verbatim>\<open>readAll\<close>: 4096 bytes at a time until a read delivers none. \<open>open_file\<close> is the errno of a
  failing \<^verbatim>\<open>open\<close>, or the bytes of the file together with the numbers of the calls of \<^verbatim>\<open>sgetn\<close>
  at which reading fails; a failing \<^verbatim>\<open>read\<close> makes the \<^verbatim>\<open>filebuf\<close> of libstdc++ throw. The loop is
  given fuel and is \<open>None\<close> when that is used up.
\<close>

datatype 'a attempt = Refused int | Throws | Delivers 'a

fun read_chunks :: "nat \<Rightarrow> (nat \<Rightarrow> bool) \<Rightarrow> nat \<Rightarrow> string \<Rightarrow> string \<Rightarrow> string attempt option" where
  "read_chunks 0 fails k Content rest = None"
| "read_chunks (Suc n) fails k Content rest =
     (if fails k then Some Throws
      else
        let Buffer = take 4096 rest in
        if length Buffer = 0 then Some (Delivers Content)
        else read_chunks n fails (Suc k) (Content @ Buffer) (drop 4096 rest))"

definition cgroup_readAll ::
  "nat \<Rightarrow> (string \<Rightarrow> int + string \<times> (nat \<Rightarrow> bool)) \<Rightarrow> string \<Rightarrow> string attempt option" where
  "cgroup_readAll fuel open_file Path =
     (case open_file Path of
        Inl errno \<Rightarrow> Some (Refused errno)
      | Inr (bytes, fails) \<Rightarrow> read_chunks fuel fails 0 [] bytes)"

text \<open>The controller path of a \<^verbatim>\<open>/proc/<pid>/cgroup\<close> listing: the text between the marker and the end of its line.\<close>

definition controller_path :: "Mode \<Rightarrow> string \<Rightarrow> int + string" where
  "controller_path mode Content =
     (if mode = Legacy then
        (case find_str '':memory'' Content of
           None \<Rightarrow> Inl EINVAL
         | Some i \<Rightarrow>
             (case find_char Content CHR 0x0A (i + 8) of
                None \<Rightarrow> Inl EINVAL
              | Some j \<Rightarrow> Inr (substr Content (i + 8) (Some (j - (i + 8))))))
      else
        (case find_str ''0::'' Content of
           None \<Rightarrow> Inl EINVAL
         | Some i \<Rightarrow>
             (case find_char Content CHR 0x0A (i + 3) of
                None \<Rightarrow> Inl EINVAL
              | Some j \<Rightarrow> Inr (substr Content (i + 3) (Some (j - (i + 3)))))))"

definition finalize ::
  "nat \<Rightarrow> Mode \<Rightarrow> (string \<Rightarrow> int + string \<times> (nat \<Rightarrow> bool)) \<Rightarrow> State \<Rightarrow> unit attempt option" where
  "finalize fuel mode open_file st =
     (if mode = ModeUnknown then Some (Refused EINVAL)
      else
        map_option
          (\<lambda>r. case r of
             Refused errno \<Rightarrow> Refused errno
           | Throws \<Rightarrow> Throws
           | Delivers Content \<Rightarrow>
               (case controller_path mode Content of Inl e \<Rightarrow> Refused e | Inr _ \<Rightarrow> Delivers ()))
          (cgroup_readAll fuel open_file
             (path_append (path_append ''/proc'' (show_int (getPid st))) ''cgroup'')))"

end
