(* ===== verification/Cgroup_Laws.thy ===== *)
theory Cgroup_Laws
  imports Cgroup
begin

text \<open>
  What is proved of the cgroup code and of the sd-bus wrapper below it: when the wait for the
  systemd job returns and with which result, what a reported success rests on, in which order the
  library is called and what is released, the names of scope and slice, and the buffered reader.
\<close>

declare split_paired_All [simp del] split_paired_Ex [simp del]

section \<open>The wait for the job\<close>

lemma check_loop_mono: "check_loop n L Bus ck s = Some r \<Longrightarrow> check_loop (n + k) L Bus ck s = Some r"
proof (induction n arbitrary: ck s)
  case (Suc n)
  show ?case
  proof (cases "Terminated ck")
    case False
    obtain x ck' s' where p: "process L (checker_callback L) Bus ck s = (x, ck', s')"
      by (cases "process L (checker_callback L) Bus ck s")
    obtain y s'' where w: "wait L Bus uint64_max s' = (y, s'')"
      by (cases "wait L Bus uint64_max s'")
    from Suc.prems False p w Suc.IH [of ck' s'] Suc.IH [of ck' s''] show ?thesis
      by (cases x; cases y) (simp_all split: if_splits)
  qed (use Suc.prems in simp)
qed simp

text \<open>
  The runs of the library in which the removal of the job \<open>Path\<close> is signalled with \<open>Result\<close>. Before it
  come, in any number and order, signals for other jobs, rounds that handle a message which is not for
  the callback (the reply to the subscription, \<^verbatim>\<open>NameAcquired\<close>), and idle rounds; \<^verbatim>\<open>sd_bus_process\<close>
  returns a positive value when it has handled a message and zero when it had nothing to do.
\<close>

inductive job_removed :: "'w sd_lib \<Rightarrow> nat \<Rightarrow> string \<Rightarrow> string \<Rightarrow> 'w bus_world \<Rightarrow> bool"
  for L :: "'w sd_lib" and Bus :: nat and Path Result :: string where
  ours: "\<lbrakk>perform L (Process Bus) s = (a, s1); ans_delivered a = Some m;
      msg_read L m ''uoss'' s1 = (Inr [i, Path, u, Result], s2);
      perform L (ProcessReturn Bus 0) (msg_destroy L m s2) = (r, s3); 0 < ans_ret r\<rbrakk>
    \<Longrightarrow> job_removed L Bus Path Result s"
| internal: "\<lbrakk>perform L (Process Bus) s = (a, s1); ans_delivered a = None;
      perform L (ProcessReturn Bus 0) s1 = (r, s2); 0 < ans_ret r; job_removed L Bus Path Result s2\<rbrakk>
    \<Longrightarrow> job_removed L Bus Path Result s"
| other: "\<lbrakk>perform L (Process Bus) s = (a, s1); ans_delivered a = Some m;
      msg_read L m ''uoss'' s1 = (Inr [i, p, u, res], s2); p \<noteq> Path;
      perform L (ProcessReturn Bus 0) (msg_destroy L m s2) = (r, s3); 0 < ans_ret r;
      job_removed L Bus Path Result s3\<rbrakk>
    \<Longrightarrow> job_removed L Bus Path Result s"
| idle: "\<lbrakk>perform L (Process Bus) s = (a, s1); ans_delivered a = None;
      perform L (ProcessReturn Bus 0) s1 = (r, s2); ans_ret r = 0;
      wait L Bus uint64_max s2 = (Inr u, s3); job_removed L Bus Path Result s3\<rbrakk>
    \<Longrightarrow> job_removed L Bus Path Result s"

lemmas round_defs = process_def matchSignalAsyncCallback_def checker_callback_def

lemma check_returns:
  assumes "job_removed L Bus Path Result s" "CkPath ck = Some Path" "\<not> Terminated ck" "\<not> CkError ck"
  shows "\<exists>fuel s' ck'. check_loop fuel L Bus ck s =
      Some (if Result = ''done'' then Inr () else Inl EFAULT, ck', s') \<and> CkUB ck' = CkUB ck"
  using assms
proof (induction rule: job_removed.induct)
  case (ours s a s1 m i u s2 r s3)
  let ?ck = "if Result = ''done'' then ck\<lparr>Terminated := True\<rparr> else ck\<lparr>Terminated := True, CkError := True\<rparr>"
  have "process L (checker_callback L) Bus ck s = (Inr True, ?ck, s3)"
    using ours by (simp add: round_defs)
  then have "check_loop (Suc (Suc 0)) L Bus ck s = check_loop (Suc 0) L Bus ?ck s3"
    using ours(7) by (simp del: check_loop.simps(2) add: check_loop.simps(2) [of "Suc 0"])
  also have "\<dots> = Some (if Result = ''done'' then Inr () else Inl EFAULT, ?ck, s3)"
    using ours(8) by simp
  finally show ?case by (intro exI [of _ "Suc (Suc 0)"] exI [of _ s3] exI [of _ ?ck]) simp
next
  case (internal s a s1 r s2)
  have "process L (checker_callback L) Bus ck s = (Inr True, ck, s2)"
    using internal by (simp add: round_defs)
  then have "check_loop (Suc n) L Bus ck s = check_loop n L Bus ck s2" for n
    using internal.prems(2) by simp
  with internal.IH [OF internal.prems] show ?case by metis
next
  case (other s a s1 m i p u res s2 r s3)
  have "process L (checker_callback L) Bus ck s = (Inr True, ck, s3)"
    using other by (simp add: round_defs)
  then have "check_loop (Suc n) L Bus ck s = check_loop n L Bus ck s3" for n
    using other.prems(2) by simp
  with other.IH [OF other.prems] show ?case by metis
next
  case (idle s a s1 r s2 u s3)
  have "process L (checker_callback L) Bus ck s = (Inr False, ck, s2)"
    using idle by (simp add: round_defs)
  then have "check_loop (Suc n) L Bus ck s = check_loop n L Bus ck s3" for n
    using idle.prems(2) idle.hyps(5) by simp
  with idle.IH [OF idle.prems] show ?case by metis
qed

section \<open>The log of calls\<close>

text \<open>The calls \<open>cs\<close> made one after the other, and the calls of a run as such a sequence.\<close>

definition replay :: "'w sd_lib \<Rightarrow> sd_call list \<Rightarrow> 'w bus_world \<Rightarrow> 'w bus_world" where
  "replay L cs s = fold (\<lambda>c s. snd (perform L c s)) cs s"

definition logs :: "'w sd_lib \<Rightarrow> (sd_call \<Rightarrow> bool) \<Rightarrow> 'w bus_world \<Rightarrow> 'w bus_world \<Rightarrow> bool" where
  "logs L P s t \<longleftrightarrow> (\<exists>cs. t = replay L cs s \<and> list_all P cs)"

lemma replay_simps [simp]:
  "replay L [] s = s" "replay L (c # cs) s = replay L cs (snd (perform L c s))"
  "replay L (cs @ ds) s = replay L ds (replay L cs s)"
  by (simp_all add: replay_def)

lemma replay_log: "snd (replay L cs s) = snd s @ cs"
  by (induction cs arbitrary: s) (simp_all add: perform_def split: prod.split)

lemma logs_refl [simp]: "logs L P s s"
  unfolding logs_def by (rule exI [of _ "[]"]) simp

lemma logs_trans [trans]: "logs L P s t \<Longrightarrow> logs L P t u \<Longrightarrow> logs L P s u"
  unfolding logs_def by (metis replay_simps(3) list_all_append)

lemma logs_perform: "perform L c s = (a, t) \<Longrightarrow> P c \<Longrightarrow> logs L P s t"
  unfolding logs_def by (rule exI [of _ "[c]"]) simp

lemma wrap_replay: "wrap L c get s = (r, t) \<Longrightarrow> t = replay L [c] s"
  by (auto simp: wrap_def split: prod.splits if_splits)

lemma logs_wrap: "wrap L c get s = (r, t) \<Longrightarrow> P c \<Longrightarrow> logs L P s t"
  unfolding logs_def using wrap_replay by (fastforce intro: exI [of _ "[c]"])

lemma logs_destroy: "P (UnrefMsg m) \<Longrightarrow> logs L P s (msg_destroy L m s)"
  unfolding logs_def by (rule exI [of _ "[UnrefMsg m]"]) (simp add: msg_destroy_def)

text \<open>Neither a new subscription nor the release of the bus.\<close>

definition plain_call :: "sd_call \<Rightarrow> bool" where
  "plain_call c = (case c of UnrefBus _ \<Rightarrow> False | MatchSignal _ _ _ _ _ \<Rightarrow> False | _ \<Rightarrow> True)"

lemma logs_callback:
  "checker_callback L m ck s = (r, ck', t) \<Longrightarrow> logs L plain_call s t"
proof -
  assume *: "checker_callback L m ck s = (r, ck', t)"
  obtain x u where rd: "msg_read L m ''uoss'' s = (x, u)" by (cases "msg_read L m ''uoss'' s")
  with * have "t = u" by (auto simp: checker_callback_def split: sum.splits list.splits option.splits if_splits)
  with rd show ?thesis by (auto simp: msg_read_def plain_call_def intro: logs_wrap)
qed

lemma logs_process:
  assumes "process L (checker_callback L) Bus ck s = (r, ck', t)"
  shows "logs L plain_call s t"
proof -
  obtain a s1 where p: "perform L (Process Bus) s = (a, s1)" by (cases "perform L (Process Bus) s")
  obtain c ck2 s2 where d: "(case ans_delivered a of None \<Rightarrow> (0, ck, s1)
      | Some m \<Rightarrow> matchSignalAsyncCallback L (checker_callback L) m ck s1) = (c, ck2, s2)"
    by (metis prod_cases3)
  obtain a3 s3 where q: "perform L (ProcessReturn Bus c) s2 = (a3, s3)" by (cases "perform L (ProcessReturn Bus c) s2")
  have "logs L plain_call s s1" using p by (rule logs_perform) (simp add: plain_call_def)
  also have "logs L plain_call s1 s2"
  proof (cases "ans_delivered a")
    case (Some m)
    with d obtain u where u: "checker_callback L m ck s1 = (c, ck2, u)" "s2 = msg_destroy L m u"
      by (auto simp: matchSignalAsyncCallback_def split: prod.splits)
    from logs_trans [OF logs_callback [OF u(1)] logs_destroy] u(2) show ?thesis by (simp add: plain_call_def)
  qed (use d in simp)
  also have "logs L plain_call s2 s3" using q by (rule logs_perform) (simp add: plain_call_def)
  also have "s3 = t" using assms p d q by (simp add: process_def split: if_splits)
  finally show ?thesis .
qed

lemma logs_check: "check_loop n L Bus ck s = Some (x, ck', t) \<Longrightarrow> logs L plain_call s t"
proof (induction n arbitrary: ck s)
  case (Suc n)
  show ?case
  proof (cases "Terminated ck")
    case False
    obtain y ck1 s1 where p: "process L (checker_callback L) Bus ck s = (y, ck1, s1)"
      by (cases "process L (checker_callback L) Bus ck s")
    obtain z s2 where w: "wait L Bus uint64_max s1 = (z, s2)" by (cases "wait L Bus uint64_max s1")
    note l1 = logs_process [OF p]
    have l2: "logs L plain_call s1 s2" using w unfolding wait_def by (rule logs_wrap) (simp add: plain_call_def)
    from Suc.prems False p w Suc.IH [of ck1 s1] Suc.IH [of ck1 s2] l1 l2 show ?thesis
      by (cases y; cases z) (auto split: if_splits intro: logs_trans)
  qed (use Suc.prems in \<open>auto split: if_splits\<close>)
qed simp

lemma logs_bindE:
  assumes "bindE m f s = (r, t)" "\<And>r t. m s = (r, t) \<Longrightarrow> logs L P s t" "\<And>v u r t. f v u = (r, t) \<Longrightarrow> logs L P u t"
  shows "logs L P s t"
proof -
  obtain x u where m: "m s = (x, u)" by (cases "m s")
  note first = assms(2) [OF m]
  show ?thesis
  proof (cases x)
    case (Inr v)
    with assms(1) m have "f v u = (r, t)" by (simp add: bindE_def)
    from logs_trans [OF first assms(3) [OF this]] show ?thesis .
  qed (use assms(1) m first in \<open>simp add: bindE_def\<close>)
qed

lemma logs_fill: "fill_request L Msg Scope Slice pid s = (r, t) \<Longrightarrow> logs L plain_call s t"
  unfolding fill_request_def wrapper_defs returnE_def
  by (erule logs_bindE | erule logs_wrap | simp add: plain_call_def split: if_splits | auto simp: plain_call_def)+

lemma logs_call: "call L Bus Msg 0 s = (r, t) \<Longrightarrow> logs L plain_call s t"
  by (cases "perform L (BusCall Bus Msg 0) s")
    (auto simp: call_def plain_call_def split: if_splits intro: logs_perform)

lemma logs_simple:
  "methodCall L Bus a b c d s = (r, t) \<Longrightarrow> logs L plain_call s t"
  "msg_read L Msg ty s = (r', t) \<Longrightarrow> logs L plain_call s t"
  unfolding wrapper_defs by (erule logs_wrap, simp add: plain_call_def)+

lemma logs_await:
  "await_job fuel L Bus Reply ck s = Some (r, ck', t) \<Longrightarrow> logs L plain_call s t"
proof -
  assume run: "await_job fuel L Bus Reply ck s = Some (r, ck', t)"
  obtain x u where rd: "msg_read L Reply ''o'' s = (x, u)" by (cases "msg_read L Reply ''o'' s")
  have un: "logs L plain_call v (msg_destroy L Reply v)" for v by (rule logs_destroy) (simp add: plain_call_def)
  from run rd logs_simple(2) [OF rd] show ?thesis
    by (auto simp: await_job_def checker_check_def split: sum.splits intro: logs_trans un dest: logs_check)
qed

lemma logs_request:
  "request_scope fuel L Cid st Bus Msg ck s = Some (r, ck', t) \<Longrightarrow> logs L plain_call s t"
proof -
  assume run: "request_scope fuel L Cid st Bus Msg ck s = Some (r, ck', t)"
  obtain Sc Sl where n: "scope_slice Cid (CgroupsPath (Config st)) = (Sc, Sl)"
    by (cases "scope_slice Cid (CgroupsPath (Config st))")
  obtain x u where fr: "fill_request L Msg Sc Sl (getPid st) s = (x, u)"
    by (cases "fill_request L Msg Sc Sl (getPid st) s")
  obtain y v where c: "call L Bus Msg 0 u = (y, v)" by (cases "call L Bus Msg 0 u")
  have un: "logs L plain_call w (msg_destroy L Msg w)" for w by (rule logs_destroy) (simp add: plain_call_def)
  from run n fr c logs_fill [OF fr] logs_call [OF c] show ?thesis
    by (auto simp: request_scope_def split: sum.splits intro: logs_trans un dest: logs_await)
qed

text \<open>
  On every way out of \<^verbatim>\<open>enter\<close> the subscription came first, the bus is released last, and in
  between it is neither released nor subscribed to again.
\<close>

lemma enter_body_log:
  assumes "enter_body fuel L Cid st Bus s = Some (r, ck, t)"
  shows "\<exists>cs. snd t = snd s @ [MatchSignal Bus ''org.freedesktop.systemd1'' ''/org/freedesktop/systemd1''
      ''org.freedesktop.systemd1.Manager'' ''JobRemoved''] @ cs \<and> list_all plain_call cs"
proof -
  obtain x u where m: "checker_setup L Bus s = (x, u)" by (cases "checker_setup L Bus s")
  obtain y v where mc: "methodCall L Bus ''org.freedesktop.systemd1'' ''/org/freedesktop/systemd1''
      ''org.freedesktop.systemd1.Manager'' ''StartTransientUnit'' u = (y, v)" by (metis surj_pair)
  have "logs L plain_call u t"
    using assms m mc logs_simple(1) [OF mc]
    by (auto simp: enter_body_def split: sum.splits intro: logs_trans dest: logs_request)
  then show ?thesis
    using m wrap_log [of L _ _ s x u]
    by (auto simp: logs_def replay_log checker_setup_def matchSignalAsync_def)
qed

lemma enter_with_log:
  assumes "enter_with fuel L Cid st Bus s = Some (r, ck, t)"
  shows "\<exists>cs. snd t = snd s @ [MatchSignal Bus ''org.freedesktop.systemd1'' ''/org/freedesktop/systemd1''
      ''org.freedesktop.systemd1.Manager'' ''JobRemoved''] @ cs @ [UnrefBus Bus] \<and> list_all plain_call cs"
  using assms enter_body_log [of fuel L Cid st Bus s r ck]
  by (fastforce simp: enter_with_def destroy_log)

section \<open>What a success rests on\<close>

text \<open>Among the calls \<open>cs\<close> made from \<open>s\<close> is the read of a signal that reports the job \<open>Path\<close> as done.\<close>

definition signalled_done :: "'w sd_lib \<Rightarrow> string \<Rightarrow> 'w bus_world \<Rightarrow> sd_call list \<Rightarrow> bool" where
  "signalled_done L Path s cs \<longleftrightarrow>
     (\<exists>before m after i u. cs = before @ MsgRead m ''uoss'' # after \<and>
        fst (msg_read L m ''uoss'' (replay L before s)) = Inr [i, Path, u, ''done''])"

lemma signalled_later: "signalled_done L P (replay L cs s) ds \<Longrightarrow> signalled_done L P s (cs @ ds)"
  unfolding signalled_done_def by (metis append.assoc replay_simps(3))

lemma signalled_before: "signalled_done L P s cs \<Longrightarrow> signalled_done L P s (cs @ ds)"
  unfolding signalled_done_def by fastforce

lemma callback_done:
  assumes "checker_callback L m ck s = (r, ck', t)" "\<not> Terminated ck" "CkPath ck = Some P"
  shows "t = replay L [MsgRead m ''uoss''] s" "CkPath ck' = Some P"
    "Terminated ck' \<Longrightarrow> \<not> CkError ck' \<Longrightarrow> \<exists>i u. fst (msg_read L m ''uoss'' s) = Inr [i, P, u, ''done'']"
proof -
  obtain x u where rd: "msg_read L m ''uoss'' s = (x, u)" by (cases "msg_read L m ''uoss'' s")
  then have u: "u = replay L [MsgRead m ''uoss''] s" unfolding msg_read_def by (rule wrap_replay)
  show "t = replay L [MsgRead m ''uoss''] s" "CkPath ck' = Some P"
    "Terminated ck' \<Longrightarrow> \<not> CkError ck' \<Longrightarrow> \<exists>i u. fst (msg_read L m ''uoss'' s) = Inr [i, P, u, ''done'']"
    using assms rd u by (auto simp: checker_callback_def split: sum.splits list.splits if_splits)
qed

lemma process_done:
  assumes "process L (checker_callback L) Bus ck s = (y, ck', t)" "\<not> Terminated ck" "CkPath ck = Some P"
  shows "\<exists>cs. t = replay L cs s \<and> CkPath ck' = Some P \<and>
    (Terminated ck' \<and> \<not> CkError ck' \<longrightarrow> signalled_done L P s cs)"
proof -
  obtain a s1 where p: "perform L (Process Bus) s = (a, s1)" by (cases "perform L (Process Bus) s")
  obtain c ck2 s2 where d: "(case ans_delivered a of None \<Rightarrow> (0, ck, s1)
      | Some m \<Rightarrow> matchSignalAsyncCallback L (checker_callback L) m ck s1) = (c, ck2, s2)"
    by (metis prod_cases3)
  have t: "t = replay L [ProcessReturn Bus c] s2" "ck' = ck2"
    using assms(1) p d by (auto simp: process_def split: prod.splits if_splits)
  have s1: "s1 = replay L [Process Bus] s" using p by simp
  show ?thesis
  proof (cases "ans_delivered a")
    case None
    with d t assms(2,3) s1 show ?thesis
      by (intro exI [of _ "[Process Bus, ProcessReturn Bus c]"]) auto
  next
    case (Some m)
    with d obtain v where v: "checker_callback L m ck s1 = (c, ck2, v)" "s2 = replay L [UnrefMsg m] v"
      by (auto simp: matchSignalAsyncCallback_def msg_destroy_def split: prod.splits)
    note cb = callback_done [OF v(1) assms(2,3)]
    let ?cs = "[Process Bus] @ MsgRead m ''uoss'' # [UnrefMsg m, ProcessReturn Bus c]"
    have "t = replay L ?cs s" using t(1) v(2) cb(1) s1 by simp
    moreover have "signalled_done L P s ?cs" if "Terminated ck'" "\<not> CkError ck'"
      using cb(3) that t(2) s1 unfolding signalled_done_def by blast
    ultimately show ?thesis using cb(2) t(2) by blast
  qed
qed

lemma check_loop_stopped:
  "check_loop n L Bus ck s = Some (Inr (), ck', t) \<Longrightarrow> Terminated ck \<Longrightarrow> \<not> CkError ck \<and> ck' = ck \<and> t = s"
  by (cases n) (auto split: if_splits)

lemma check_done:
  assumes "check_loop n L Bus ck s = Some (Inr (), ck', t)" "\<not> Terminated ck" "CkPath ck = Some P"
  shows "\<exists>cs. t = replay L cs s \<and> signalled_done L P s cs"
  using assms
proof (induction n arbitrary: ck s)
  case (Suc n)
  obtain y ck1 s1 where p: "process L (checker_callback L) Bus ck s = (y, ck1, s1)"
    by (cases "process L (checker_callback L) Bus ck s")
  from process_done [OF p Suc.prems(2,3)] obtain cs where
    cs: "s1 = replay L cs s" "CkPath ck1 = Some P"
      "Terminated ck1 \<Longrightarrow> \<not> CkError ck1 \<Longrightarrow> signalled_done L P s cs" by blast
  obtain z s2 where w: "wait L Bus uint64_max s1 = (z, s2)" by (cases "wait L Bus uint64_max s1")
  have s2: "s2 = replay L (cs @ [Wait Bus uint64_max]) s"
    using wrap_replay [OF w [unfolded wait_def]] cs(1) by simp
  have "\<exists>ds. (ds = cs \<or> ds = cs @ [Wait Bus uint64_max]) \<and>
      check_loop n L Bus ck1 (replay L ds s) = Some (Inr (), ck', t)"
    using Suc.prems(1,2) p w cs(1) s2 by (fastforce split: sum.splits if_splits)
  then obtain ds where ds: "ds = cs \<or> ds = cs @ [Wait Bus uint64_max]"
    "check_loop n L Bus ck1 (replay L ds s) = Some (Inr (), ck', t)" by blast
  show ?case
  proof (cases "Terminated ck1")
    case True
    from check_loop_stopped [OF ds(2) True] have "\<not> CkError ck1" "t = replay L ds s" by simp_all
    with cs(3) [OF True] ds(1) signalled_before show ?thesis by metis
  next
    case False
    from Suc.IH [OF ds(2) False cs(2)] obtain es where
      "t = replay L es (replay L ds s)" "signalled_done L P (replay L ds s) es" by blast
    with signalled_later show ?thesis by (metis replay_simps(3))
  qed
qed simp

text \<open>The request as the calls that fill the message.\<close>

definition request_calls :: "nat \<Rightarrow> string \<Rightarrow> string \<Rightarrow> int \<Rightarrow> sd_call list" where
  "request_calls Msg Scope Slice pid =
     [Append Msg ''ss'' [SArg Scope, SArg ''fail''], OpenContainer Msg CHR ''a'' ''(sv)''] @
     (if Slice \<noteq> [] then [Append Msg ''(sv)'' [SArg ''Slice'', SArg ''s'', SArg Slice]] else []) @
     [Append Msg ''(sv)'' [SArg ''Description'', SArg ''s'', SArg ''runw container''],
      Append Msg ''(sv)'' [SArg ''PIDs'', SArg ''au'', IArg 1, IArg pid],
      Append Msg ''(sv)'' [SArg ''Delegate'', SArg ''b'', IArg 1],
      CloseContainer Msg, Append Msg ''a(sa(sv))'' [NullArg]]"

lemma bindE_Inr_iff: "bindE m f s = (Inr v, t) \<longleftrightarrow> (\<exists>x u. m s = (Inr x, u) \<and> f x u = (Inr v, t))"
  by (auto simp: bindE_def split: prod.splits sum.splits)

lemma fill_calls:
  "fill_request L Msg Scope Slice pid s = (Inr u, t) \<Longrightarrow> t = replay L (request_calls Msg Scope Slice pid) s"
  unfolding fill_request_def wrapper_defs
  by (auto simp: bindE_Inr_iff request_calls_def returnE_def dest!: wrap_replay split: if_splits)

text \<open>
  The calls \<open>cs\<close> made from \<open>s\<close> end with a request to systemd, for the scope of this container and its
  process, that was answered with the job \<open>Path\<close>.
\<close>

definition job_requested ::
  "'w sd_lib \<Rightarrow> string \<Rightarrow> State \<Rightarrow> 'w bus_world \<Rightarrow> sd_call list \<Rightarrow> string \<Rightarrow> bool" where
  "job_requested L Cid st s cs Path \<longleftrightarrow>
     (\<exists>before Bus Msg Reply Obj req.
        req = before @ NewMethodCall Bus ''org.freedesktop.systemd1'' ''/org/freedesktop/systemd1''
            ''org.freedesktop.systemd1.Manager'' ''StartTransientUnit'' #
          request_calls Msg (fst (scope_slice Cid (CgroupsPath (Config st))))
            (snd (scope_slice Cid (CgroupsPath (Config st)))) (getPid st) \<and>
        fst (methodCall L Bus ''org.freedesktop.systemd1'' ''/org/freedesktop/systemd1''
            ''org.freedesktop.systemd1.Manager'' ''StartTransientUnit'' (replay L before s)) = Inr Msg \<and>
        fst (call L Bus Msg 0 (replay L req s)) = Inr Reply \<and>
        fst (msg_read L Reply ''o'' (replay L (req @ [BusCall Bus Msg 0]) s)) = Inr Obj \<and>
        Path = hd (Obj @ [[]]) \<and> cs = req @ [BusCall Bus Msg 0, MsgRead Reply ''o''])"

lemma call_replay: "call L Bus Msg u s = (r, t) \<Longrightarrow> t = replay L [BusCall Bus Msg u] s"
  by (auto simp: call_def split: prod.splits if_splits)

lemma enter_body_done:
  assumes "enter_body fuel L Cid st Bus s = Some (Inr (), ck, t)"
  shows "\<exists>cs ds Path. job_requested L Cid st s cs Path \<and> t = replay L (cs @ ds) s \<and>
    signalled_done L Path (replay L cs s) ds"
proof -
  obtain Sc Sl where n: "scope_slice Cid (CgroupsPath (Config st)) = (Sc, Sl)"
    by (cases "scope_slice Cid (CgroupsPath (Config st))")
  from assms n obtain s1 Msg s2 x s3 Reply s4 Obj s5 v where
    m: "checker_setup L Bus s = (Inr (), s1)"
    and c: "methodCall L Bus ''org.freedesktop.systemd1'' ''/org/freedesktop/systemd1''
        ''org.freedesktop.systemd1.Manager'' ''StartTransientUnit'' s1 = (Inr Msg, s2)"
    and r: "fill_request L Msg Sc Sl (getPid st) s2 = (Inr x, s3)" "call L Bus Msg 0 s3 = (Inr Reply, s4)"
    and o: "msg_read L Reply ''o'' s4 = (Inr Obj, s5)"
    and k: "checker_check fuel L Bus (hd (Obj @ [[]])) ''creating'' new_checker s5 = Some (Inr (), ck, v)"
      "t = msg_destroy L Reply v"
    by (auto simp: enter_body_def request_scope_def await_job_def split: prod.splits sum.splits)
  define before where "before = [MatchSignal Bus ''org.freedesktop.systemd1'' ''/org/freedesktop/systemd1''
      ''org.freedesktop.systemd1.Manager'' ''JobRemoved'']"
  define req where "req = before @ NewMethodCall Bus ''org.freedesktop.systemd1'' ''/org/freedesktop/systemd1''
      ''org.freedesktop.systemd1.Manager'' ''StartTransientUnit'' # request_calls Msg Sc Sl (getPid st)"
  have s1: "s1 = replay L before s"
    using m unfolding checker_setup_def matchSignalAsync_def before_def by (rule wrap_replay)
  have s3: "s3 = replay L req s"
    using fill_calls [OF r(1)] wrap_replay [OF c [unfolded methodCall_def]] s1 by (simp add: req_def)
  have s4: "s4 = replay L (req @ [BusCall Bus Msg 0]) s" using call_replay [OF r(2)] s3 by simp
  have s5: "s5 = replay L (req @ [BusCall Bus Msg 0, MsgRead Reply ''o'']) s"
    using wrap_replay [OF o [unfolded msg_read_def]] s4 by simp
  have job: "job_requested L Cid st s (req @ [BusCall Bus Msg 0, MsgRead Reply ''o'']) (hd (Obj @ [[]]))"
    unfolding job_requested_def
    by (rule exI [of _ before], rule exI [of _ Bus], rule exI [of _ Msg], rule exI [of _ Reply],
        rule exI [of _ Obj], rule exI [of _ req])
      (use c r(2) o s1 s3 s4 n in \<open>simp add: req_def\<close>)
  obtain ds where ds: "v = replay L ds s5" "signalled_done L (hd (Obj @ [[]])) s5 ds"
    using check_done [OF k(1) [unfolded checker_check_def], of "hd (Obj @ [[]])"]
    by (auto simp: new_checker_def)
  have "t = replay L ((req @ [BusCall Bus Msg 0, MsgRead Reply ''o'']) @ (ds @ [UnrefMsg Reply])) s"
    using k(2) ds(1) s5 by (simp add: msg_destroy_def)
  with job signalled_before [OF ds(2), of "[UnrefMsg Reply]"] s5 show ?thesis by blast
qed

lemma job_requested_later: "job_requested L Cid st (replay L pre s) cs P \<Longrightarrow> job_requested L Cid st s (pre @ cs) P"
proof -
  assume "job_requested L Cid st (replay L pre s) cs P"
  then obtain before Bus Msg Reply Obj req where
    "req = before @ NewMethodCall Bus ''org.freedesktop.systemd1'' ''/org/freedesktop/systemd1''
        ''org.freedesktop.systemd1.Manager'' ''StartTransientUnit'' #
      request_calls Msg (fst (scope_slice Cid (CgroupsPath (Config st))))
        (snd (scope_slice Cid (CgroupsPath (Config st)))) (getPid st)"
    "fst (methodCall L Bus ''org.freedesktop.systemd1'' ''/org/freedesktop/systemd1''
        ''org.freedesktop.systemd1.Manager'' ''StartTransientUnit'' (replay L before (replay L pre s))) = Inr Msg"
    "fst (call L Bus Msg 0 (replay L req (replay L pre s))) = Inr Reply"
    "fst (msg_read L Reply ''o'' (replay L (req @ [BusCall Bus Msg 0]) (replay L pre s))) = Inr Obj"
    "P = hd (Obj @ [[]])" "cs = req @ [BusCall Bus Msg 0, MsgRead Reply ''o'']"
    unfolding job_requested_def by (elim exE conjE) (rule that)
  then show ?thesis
    unfolding job_requested_def
    by - (rule exI [of _ "pre @ before"], rule exI [of _ Bus], rule exI [of _ Msg], rule exI [of _ Reply],
        rule exI [of _ Obj], rule exI [of _ "pre @ req"], simp)
qed

lemma enter_done:
  assumes "enter fuel L Cid st s = Some (Inr (), ck, t)"
  shows "\<exists>cs ds Path. job_requested L Cid st s cs Path \<and> t = replay L (cs @ ds) s \<and>
    signalled_done L Path (replay L cs s) ds"
proof -
  obtain x u where du: "defaultUser L s = (x, u)" by (cases "defaultUser L s")
  obtain y w where ds: "defaultSystem L u = (y, w)" by (cases "defaultSystem L u")
  have u: "u = replay L [DefaultUser] s" using du unfolding wrapper_defs by (rule wrap_replay)
  have w: "w = replay L [DefaultUser, DefaultSystem] s"
    using wrap_replay [OF ds [unfolded defaultSystem_def]] u by simp
  have "\<exists>Bus. enter_with fuel L Cid st Bus u = Some (Inr (), ck, t) \<or>
      enter_with fuel L Cid st Bus w = Some (Inr (), ck, t)"
    using assms du ds by (auto simp: enter_def split: sum.splits)
  with u w obtain Bus pre where "enter_with fuel L Cid st Bus (replay L pre s) = Some (Inr (), ck, t)" by metis
  then obtain v where v: "enter_body fuel L Cid st Bus (replay L pre s) = Some (Inr (), ck, v)"
    "t = bus_destroy L Bus v"
    by (auto simp: enter_with_def)
  from enter_body_done [OF v(1)] v(2) obtain cs ds Path where
    "job_requested L Cid st (replay L pre s) cs Path" "t = replay L ((pre @ cs) @ (ds @ [UnrefBus Bus])) s"
    "signalled_done L Path (replay L (pre @ cs) s) ds"
    by (auto simp: bus_destroy_def)
  then show ?thesis using job_requested_later signalled_before by blast
qed

section \<open>Scope and slice\<close>

lemma find_char_at:
  "c \<notin> set xs \<Longrightarrow> pos \<le> length xs \<Longrightarrow> find_char (xs @ c # ys) c pos = Some (length xs)"
  unfolding find_char_def
proof (induction xs arbitrary: pos)
  case (Cons x xs)
  then show ?case by (cases pos) auto
qed auto

lemma scope_slice_colons:
  assumes "CHR '':'' \<notin> set sl" "CHR '':'' \<notin> set pre" "CHR '':'' \<notin> set name"
  shows "scope_slice Cid (sl @ '':'' @ pre @ '':'' @ name) =
    (pre @ (if length sl < length pre then ''-'' else '':'') @ name @ ''.scope'', sl)"
proof -
  let ?rest = "pre @ CHR '':'' # name"
  have first: "find_char (sl @ CHR '':'' # ?rest) CHR '':'' 0 = Some (length sl)"
    by (rule find_char_at [OF assms(1)]) simp
  have second: "find_char ?rest CHR '':'' (Suc (length sl)) =
      (if length sl < length pre then Some (length pre) else None)"
  proof (cases "length sl < length pre")
    case True
    with find_char_at [OF assms(2), of "Suc (length sl)" name] show ?thesis by simp
  next
    case False
    then have "drop (Suc (length sl)) ?rest = drop (length sl - length pre) name"
      by (simp add: Suc_diff_le)
    then have "CHR '':'' \<notin> set (drop (Suc (length sl)) ?rest)"
      using assms(3) by (auto dest: in_set_dropD)
    with False show ?thesis by (simp add: find_char_None)
  qed
  show ?thesis using first second by (simp add: scope_slice_def substr_def)
qed

lemma scope_slice_plain:
  "scope_slice Cid [] = (''runw-'' @ Cid @ ''.scope'', [])"
  "p \<noteq> [] \<Longrightarrow> CHR '':'' \<notin> set p \<Longrightarrow> scope_slice Cid p = (p @ ''.scope'', p)"
proof -
  show "scope_slice Cid [] = (''runw-'' @ Cid @ ''.scope'', [])" by (simp add: scope_slice_def)
  assume "p \<noteq> []" "CHR '':'' \<notin> set p"
  moreover from this have "find_char p CHR '':'' 0 = None" by (simp add: find_char_None)
  ultimately show "scope_slice Cid p = (p @ ''.scope'', p)" by (simp add: scope_slice_def substr_def)
qed

section \<open>Reading a file in pieces\<close>

lemma blocks_step:
  "bytes \<noteq> [] \<Longrightarrow> (length bytes + 4095) div 4096 = Suc ((length (drop 4096 bytes) + 4095) div 4096)"
proof (cases "4096 \<le> length bytes")
  case True
  then have "length bytes + 4095 = 4096 + (length (drop 4096 bytes) + 4095)" by simp
  then show ?thesis by (metis div_add_self1 Suc_eq_plus1 zero_neq_numeral)
next
  case False
  assume "bytes \<noteq> []"
  then have "1 \<le> length bytes" by (cases bytes) simp_all
  with False have "(length bytes + 4095) div 4096 = 1" by simp
  with False show ?thesis by simp
qed

lemma read_chunks_quick:
  "(\<And>j. \<not> fails j) \<Longrightarrow>
     read_chunks n fails k acc bytes = (if (length bytes + 4095) div 4096 < n then Some (Delivers (acc @ bytes)) else None)"
proof (induction n fails k acc bytes rule: read_chunks.induct)
  case (2 n fails k acc bytes)
  show ?case
  proof (cases "bytes = []")
    case False
    with 2 blocks_step [OF False] show ?thesis by simp
  qed (use 2(2) in simp)
qed simp

lemma read_chunks_throws:
  "fails (k + j) \<Longrightarrow> (\<forall>i < j. \<not> fails (k + i)) \<Longrightarrow> j \<le> (length bytes + 4095) div 4096 \<Longrightarrow> j < n \<Longrightarrow>
     read_chunks n fails k acc bytes = Some Throws"
proof (induction j arbitrary: n k acc bytes)
  case 0
  then show ?case by (cases n) simp_all
next
  case (Suc j)
  then obtain m where n: "n = Suc m" by (cases n) simp_all
  from Suc.prems(3) have b: "bytes \<noteq> []" by (cases bytes) simp_all
  with blocks_step [OF b] Suc.IH [of "Suc k" "drop 4096 bytes" m] Suc.prems n b show ?case by force
qed

section \<open>A library to evaluate on\<close>

text \<open>
  A bus on which the request is answered with the job \<^verbatim>\<open>/job/7\<close>, one idle round passes, and then the
  job is reported as done. The state counts the waits.
\<close>

definition answer :: "int \<Rightarrow> nat \<Rightarrow> string list \<Rightarrow> nat option \<Rightarrow> sd_answer" where
  "answer r h strs d = \<lparr>ans_ret = r, ans_handle = h, ans_strings = strs, ans_errno = 0, ans_delivered = d\<rparr>"

definition demo_bus :: "nat sd_lib" where
  "demo_bus w c =
     (case c of
        DefaultUser \<Rightarrow> (answer 0 1 [] None, w)
      | NewMethodCall _ _ _ _ _ \<Rightarrow> (answer 0 2 [] None, w)
      | BusCall _ _ _ \<Rightarrow> (answer 0 3 [] None, w)
      | MsgRead m _ \<Rightarrow>
          (answer 0 0 (if m = 3 then [''/job/7''] else [''7'', ''/job/7'', ''runw-c1.scope'', ''done'']) None, w)
      | Process _ \<Rightarrow> (answer 0 0 [] (if w = 0 then None else Some 4), w)
      | ProcessReturn _ _ \<Rightarrow> (answer (if w = 0 then 0 else 1) 0 [] None, w)
      | Wait _ _ \<Rightarrow> (answer 0 0 [] None, w + 1)
      | _ \<Rightarrow> (answer 0 0 [] None, w))"

lemmas demo_defs = demo_bus_def answer_def perform_def wrap_def wrapper_defs msg_destroy_def
  bus_destroy_def

lemma demo_job: "job_removed demo_bus 1 ''/job/7'' ''done'' (0, [])"
proof (rule job_removed.idle)
  show "perform demo_bus (Process 1) (0, []) = (answer 0 0 [] None, (0, [Process 1]))"
    by (simp add: demo_defs)
  show "perform demo_bus (ProcessReturn 1 0) (0, [Process 1]) =
      (answer 0 0 [] None, (0, [Process 1, ProcessReturn 1 0]))"
    by (simp add: demo_defs)
  show "wait demo_bus 1 uint64_max (0, [Process 1, ProcessReturn 1 0]) =
      (Inr (), (1, [Process 1, ProcessReturn 1 0, Wait 1 uint64_max]))"
    by (simp add: demo_defs)
  show "job_removed demo_bus 1 ''/job/7'' ''done'' (1, [Process 1, ProcessReturn 1 0, Wait 1 uint64_max])"
  proof (rule job_removed.ours)
    let ?log = "[Process 1, ProcessReturn 1 0, Wait 1 uint64_max, Process 1]"
    show "perform demo_bus (Process 1) (1, [Process 1, ProcessReturn 1 0, Wait 1 uint64_max]) =
        (answer 0 0 [] (Some 4), (1, ?log))"
      by (simp add: demo_defs)
    show "msg_read demo_bus 4 ''uoss'' (1, ?log) =
        (Inr [''7'', ''/job/7'', ''runw-c1.scope'', ''done''], (1, ?log @ [MsgRead 4 ''uoss'']))"
      by (simp add: demo_defs)
    show "perform demo_bus (ProcessReturn 1 0) (msg_destroy demo_bus 4 (1, ?log @ [MsgRead 4 ''uoss''])) =
        (answer 1 0 [] None, (1, ?log @ [MsgRead 4 ''uoss'', UnrefMsg 4, ProcessReturn 1 0]))"
      by (simp add: demo_defs)
  qed (simp_all add: answer_def)
qed (simp_all add: answer_def)

lemma demo_enter:
  "case enter 5 demo_bus ''c1'' default_state (0, []) of Some (x, _, _) \<Rightarrow> x = Inr () | None \<Rightarrow> False"
  by code_simp

section \<open>Properties\<close>

text \<open>
  C8. The wait for the systemd job ends. If the bus eventually signals the removal of our job, after
  any number of idle rounds, messages of the bus itself and signals for other jobs, the loop of \<^verbatim>\<open>JobStatusChecker::check\<close>
  returns: with success when the result is \<^verbatim>\<open>"done"\<close> and with \<^verbatim>\<open>EFAULT\<close> otherwise. More fuel does not
  change the answer, and no null path is ever compared.
\<close>

theorem job_wait_returns:
  "job_removed L Bus Path Result s \<Longrightarrow>
     \<exists>n. \<forall>k. \<exists>ck s'. checker_check (n + k) L Bus Path Op new_checker s =
        Some (if Result = ''done'' then Inr () else Inl EFAULT, ck, s') \<and> \<not> CkUB ck"
proof -
  assume "job_removed L Bus Path Result s"
  from check_returns [OF this, of "new_checker\<lparr>CkPath := Some Path, CkOp := Some Op\<rparr>"]
  obtain n s' ck where "check_loop n L Bus (new_checker\<lparr>CkPath := Some Path, CkOp := Some Op\<rparr>) s =
      Some (if Result = ''done'' then Inr () else Inl EFAULT, ck, s')" "\<not> CkUB ck"
    by (auto simp: new_checker_def)
  then show ?thesis unfolding checker_check_def using check_loop_mono by metis
qed

theorem job_wait_returns_witness:
  "\<exists>n ck s'. checker_check n demo_bus 1 ''/job/7'' ''creating'' new_checker (0, []) = Some (Inr (), ck, s')"
  using job_wait_returns [OF demo_job, of "''creating''"] by simp blast

text \<open>
  C20. When \<^verbatim>\<open>CGroup::enter\<close> reports success, this very run has asked systemd for the scope of this
  container with this process in it, was answered with the path of a job, and later read a
  \<^verbatim>\<open>JobRemoved\<close> signal with that path and the result \<^verbatim>\<open>"done"\<close>.
\<close>

theorem enter_success_reported:
  "enter fuel L Cid st s = Some (Inr (), ck, t) \<Longrightarrow>
     \<exists>cs ds Path. job_requested L Cid st s cs Path \<and> t = replay L (cs @ ds) s \<and>
       signalled_done L Path (replay L cs s) ds"
  by (rule enter_done)

theorem enter_success_reported_witness:
  "\<exists>ck t cs ds Path. enter 5 demo_bus ''c1'' default_state (0, []) = Some (Inr (), ck, t) \<and>
     job_requested demo_bus ''c1'' default_state (0, []) cs Path \<and> snd t = cs @ ds \<and>
     signalled_done demo_bus Path (replay demo_bus cs (0, [])) ds"
proof -
  have "\<exists>ck t. enter 5 demo_bus ''c1'' default_state (0, []) = Some (Inr (), ck, t)"
    using demo_enter by (cases "enter 5 demo_bus ''c1'' default_state (0, [])") (auto split: sum.splits)
  then obtain ck t where run: "enter 5 demo_bus ''c1'' default_state (0, []) = Some (Inr (), ck, t)" by blast
  from enter_success_reported [OF run] obtain cs ds Path where
    "job_requested demo_bus ''c1'' default_state (0, []) cs Path" "t = replay demo_bus (cs @ ds) (0, [])"
    "signalled_done demo_bus Path (replay demo_bus cs (0, [])) ds" by blast
  with run replay_log [of demo_bus "cs @ ds" "(0, [])"] show ?thesis by auto
qed

text \<open>
  C19. The calls of \<^verbatim>\<open>CGroup::enter\<close> on an open bus, on success and on every error path: the
  subscription to \<^verbatim>\<open>JobRemoved\<close> comes before everything else, so the signal cannot be missed, the
  bus is released by the last call, and in between it is neither released nor subscribed to again.
\<close>

theorem enter_call_order:
  "enter_with fuel L Cid st Bus s = Some (r, ck, t) \<Longrightarrow>
     \<exists>cs. snd t = snd s @ [MatchSignal Bus ''org.freedesktop.systemd1'' ''/org/freedesktop/systemd1''
       ''org.freedesktop.systemd1.Manager'' ''JobRemoved''] @ cs @ [UnrefBus Bus] \<and> list_all plain_call cs"
  by (rule enter_with_log)

definition deaf_bus :: "unit sd_lib" where
  "deaf_bus w c = (answer (case c of MatchSignal _ _ _ _ _ \<Rightarrow> - 13 | _ \<Rightarrow> 0) 0 [] None, w)"

theorem enter_call_order_witness:
  "enter_with 1 deaf_bus ''c1'' default_state 1 ((), []) =
     Some (Inl 13, new_checker, ((), [MatchSignal 1 ''org.freedesktop.systemd1'' ''/org/freedesktop/systemd1''
       ''org.freedesktop.systemd1.Manager'' ''JobRemoved'', UnrefBus 1])) \<and>
   (\<exists>cs. [MatchSignal 1 ''org.freedesktop.systemd1'' ''/org/freedesktop/systemd1''
       ''org.freedesktop.systemd1.Manager'' ''JobRemoved'', UnrefBus 1] =
     [MatchSignal 1 ''org.freedesktop.systemd1'' ''/org/freedesktop/systemd1''
       ''org.freedesktop.systemd1.Manager'' ''JobRemoved''] @ cs @ [UnrefBus 1])"
proof -
  have run: "enter_with 1 deaf_bus ''c1'' default_state 1 ((), []) =
     Some (Inl 13, new_checker, ((), [MatchSignal 1 ''org.freedesktop.systemd1'' ''/org/freedesktop/systemd1''
       ''org.freedesktop.systemd1.Manager'' ''JobRemoved'', UnrefBus 1]))"
    by (simp add: enter_with_def enter_body_def checker_setup_def deaf_bus_def answer_def perform_def wrap_def
        matchSignalAsync_def bus_destroy_def)
  with enter_call_order [OF run] show ?thesis by simp
qed

text \<open>
  C31. The unit names. Without a cgroups path the scope is named after the container and there is no
  slice; a path without colons names both. For a path of the documented form
  \<^verbatim>\<open>slice:prefix:name\<close> the slice is right, but the scope is \<^verbatim>\<open>prefix-name.scope\<close> only when the prefix is
  longer than the slice: otherwise the second colon stays in the unit name.
\<close>

theorem scope_and_slice_names:
  "CHR '':'' \<notin> set sl \<Longrightarrow> CHR '':'' \<notin> set pre \<Longrightarrow> CHR '':'' \<notin> set name \<Longrightarrow>
     scope_slice Cid [] = (''runw-'' @ Cid @ ''.scope'', []) \<and>
     (sl \<noteq> [] \<longrightarrow> scope_slice Cid sl = (sl @ ''.scope'', sl)) \<and>
     scope_slice Cid (sl @ '':'' @ pre @ '':'' @ name) =
       (pre @ (if length sl < length pre then ''-'' else '':'') @ name @ ''.scope'', sl)"
  by (simp add: scope_slice_plain scope_slice_colons del: append.simps(2))

theorem scope_and_slice_names_witness:
  "scope_slice ''c1'' ''system.slice:runc:434234'' = (''runc:434234.scope'', ''system.slice'')"
  using scope_and_slice_names [of "''system.slice''" "''runc''" "''434234''" "''c1''"] by simp

text \<open>
  C32. The buffered reader of the cgroup file makes one read per started block of 4096 bytes and one
  more that delivers nothing. With fuel for them, and if none fails, it returns exactly the bytes of
  the file; with less it has not returned. The first failing one of these reads ends it with the
  exception, and a failing \<^verbatim>\<open>open\<close> with the errno.
\<close>

theorem cgroup_reader_complete:
  "(open_file Path = Inl errno \<longrightarrow> cgroup_readAll fuel open_file Path = Some (Refused errno)) \<and>
   (open_file Path = Inr (bytes, fails) \<longrightarrow>
     ((\<forall>j. \<not> fails j) \<longrightarrow> cgroup_readAll fuel open_file Path =
        (if (length bytes + 4095) div 4096 < fuel then Some (Delivers bytes) else None)) \<and>
     (\<forall>j. fails j \<and> (\<forall>i < j. \<not> fails i) \<and> j \<le> (length bytes + 4095) div 4096 \<and> j < fuel \<longrightarrow>
        cgroup_readAll fuel open_file Path = Some Throws))"
  using read_chunks_quick [of fails fuel 0 "[]" bytes] read_chunks_throws [of fails 0 _ bytes fuel "[]"]
  by (auto simp: cgroup_readAll_def simp del: read_chunks.simps)

theorem cgroup_reader_complete_witness:
  "cgroup_readAll 3 (\<lambda>_. Inr (replicate 4097 CHR ''x'', \<lambda>_. False)) ''f'' =
     Some (Delivers (replicate 4097 CHR ''x'')) \<and>
   cgroup_readAll 3 (\<lambda>_. Inr (replicate 4097 CHR ''x'', \<lambda>k. k = 1)) ''f'' = Some Throws \<and>
   cgroup_readAll 3 (\<lambda>_. Inl 2) ''f'' = Some (Refused 2)"
  using cgroup_reader_complete [of "\<lambda>_. Inr (replicate 4097 CHR ''x'', \<lambda>_. False)" "''f''" 0 3
      "replicate 4097 CHR ''x''" "\<lambda>_. False"]
    cgroup_reader_complete [of "\<lambda>_. Inr (replicate 4097 CHR ''x'', \<lambda>k. k = 1)" "''f''" 0 3
      "replicate 4097 CHR ''x''" "\<lambda>k. k = 1"]
    cgroup_reader_complete [of "\<lambda>_. Inl 2" "''f''" 2 3 "[]" "\<lambda>_. False"]
  by auto

end
