(* ===== verification/Posix.thy ===== *)
theory Posix
  imports Sdbus "HOL-Library.Sublist"
begin

text \<open>
  The operating system as the sources see it: the file tree, and the system calls and
  \<^verbatim>\<open>std::filesystem\<close> functions \<^verbatim>\<open>runw.cpp\<close> uses. Every call may fail: the environment
  \<open>env\<close> holds the return values of the calls, indexed by a counter that each call advances, so
  a theorem about all environments covers every pattern of failures and both sides of every
  \<^verbatim>\<open>fork\<close>. Each change of the tree is appended to a history: a statement about all its entries
  is one about every moment at which another process may look or the machine may stop. While a
  process waits for its children, these and others may change the tree; \<open>others\<close> says how.
  Symbolic links are not modelled; dot-dot is resolved lexically.
\<close>

section \<open>State and environment\<close>

datatype node = Dir | Regular string | Fifo

type_synonym tree = "string list \<Rightarrow> node option"

text \<open>Calls that do not touch the tree are logged.\<close>

datatype os_call =
    Fork | Pipe | SetSid | Socket
  | WaitPid int
  | ReadFd int
  | WriteFd int int
  | CloseFd int
  | OpenFd string
  | Connect int string
  | SelectFd int
  | Unshare "32 word"
  | SetNs int "32 word"
  | Kill int int
  | ReadPipe
  | WritePipe int
  | CloseReadEnd
  | CloseWriteEnd

record env =
  ret :: "nat \<Rightarrow> int"
  data :: "nat \<Rightarrow> int"
  draw :: "nat \<Rightarrow> string"
  now :: "nat \<Rightarrow> int"
  mypid :: int
  app_pos :: "nat \<Rightarrow> nat"
  short_write :: "nat \<Rightarrow> nat option"
  purged :: "nat \<Rightarrow> string list \<Rightarrow> bool"
  unreadable :: "string \<Rightarrow> bool"
  others :: "nat \<Rightarrow> tree \<Rightarrow> tree"

record 'w os =
  fs :: tree
  cwd :: "string list"
  tick :: nat
  hist :: "tree list"
  cout :: string
  calls :: "os_call list"
  bus :: "'w bus_world"

text \<open>
  How a computation ends: with a value, in undefined behaviour, with the end of the process
  (an uncaught exception, or \<^verbatim>\<open>exit\<close>), or not at all (out of fuel).
\<close>

datatype ('a, 'w) result = Ret 'a "'w os" | UB | Abort "'w os" | Exit int "'w os" | Diverge

type_synonym ('a, 'w) prog = "'w os \<Rightarrow> ('a, 'w) result"

definition bindP :: "('a, 'w) prog \<Rightarrow> ('a \<Rightarrow> ('b, 'w) prog) \<Rightarrow> ('b, 'w) prog" where
  "bindP m f s = (case m s of Ret a s' \<Rightarrow> f a s' | UB \<Rightarrow> UB | Abort s' \<Rightarrow> Abort s' | Exit c s' \<Rightarrow> Exit c s' | Diverge \<Rightarrow> Diverge)"

definition returnP :: "'a \<Rightarrow> ('a, 'w) prog" where
  "returnP v s = Ret v s"

definition ubP :: "('a, 'w) prog" where
  "ubP s = UB"

definition abortP :: "('a, 'w) prog" where
  "abortP s = Abort s"

definition exitP :: "int \<Rightarrow> ('a, 'w) prog" where
  "exitP c s = Exit c s"

lemma bindP_Ret_iff:
  "bindP m f s = Ret b t \<longleftrightarrow> (\<exists>a s'. m s = Ret a s' \<and> f a s' = Ret b t)"
  by (auto simp: bindP_def split: result.splits)

lemma returnP_Ret_iff: "returnP v s = Ret b t \<longleftrightarrow> b = v \<and> t = s"
  by (auto simp: returnP_def)

lemmas prog_simps = bindP_def returnP_def ubP_def abortP_def exitP_def

section \<open>System calls\<close>

text \<open>One tick of the clock: what the next call returns.\<close>

definition pop :: "env \<Rightarrow> 'w os \<Rightarrow> int \<times> 'w os" where
  "pop E s = (ret E (tick s), s\<lparr>tick := Suc (tick s)\<rparr>)"

definition sys :: "env \<Rightarrow> os_call \<Rightarrow> (int, 'w) prog" where
  "sys E c s = Ret (ret E (tick s)) (s\<lparr>tick := Suc (tick s), calls := calls s @ [c]\<rparr>)"

text \<open>The integer a \<^verbatim>\<open>read\<close> stored, and the time, at the last tick.\<close>

definition last_data :: "env \<Rightarrow> (int, 'w) prog" where
  "last_data E s = Ret (data E (tick s - 1)) s"

definition time_now :: "env \<Rightarrow> (int, 'w) prog" where
  "time_now E s = Ret (now E (tick s)) s"

definition print_out :: "string \<Rightarrow> (unit, 'w) prog" where
  "print_out t s = Ret () (s\<lparr>cout := cout s @ t\<rparr>)"

section \<open>The file tree\<close>

definition node_of :: "'w os \<Rightarrow> string \<Rightarrow> node option" where
  "node_of s p = (if p = [] then None else fs s (resolve (cwd s) p))"

definition set_tree :: "tree \<Rightarrow> 'w os \<Rightarrow> 'w os" where
  "set_tree f s = s\<lparr>fs := f, hist := hist s @ [f]\<rparr>"

definition set_node :: "string \<Rightarrow> node option \<Rightarrow> 'w os \<Rightarrow> 'w os" where
  "set_node p v s = set_tree ((fs s)(resolve (cwd s) p := v)) s"

text \<open>A call that waits for other processes: what they do to the tree meanwhile is done when it returns.\<close>

definition block :: "env \<Rightarrow> os_call \<Rightarrow> (int, 'w) prog" where
  "block E c s = Ret (ret E (tick s))
     (set_tree (others E (tick s) (fs s)) (s\<lparr>tick := Suc (tick s), calls := calls s @ [c]\<rparr>))"

definition parent_is_dir :: "'w os \<Rightarrow> string \<Rightarrow> bool" where
  "parent_is_dir s p \<longleftrightarrow> (let q = resolve (cwd s) p in q \<noteq> [] \<and> fs s (butlast q) = Some Dir)"

subsection \<open>Queries\<close>

definition is_regular_file :: "env \<Rightarrow> string \<Rightarrow> (bool, 'w) prog" where
  "is_regular_file E p s = (case pop E s of (r, s') \<Rightarrow>
     Ret (0 \<le> r \<and> (case node_of s p of Some (Regular _) \<Rightarrow> True | _ \<Rightarrow> False)) s')"

text \<open>The overload without an error code throws when the status cannot be read.\<close>

definition is_regular_file_throwing :: "env \<Rightarrow> string \<Rightarrow> (bool, 'w) prog" where
  "is_regular_file_throwing E p s = (case pop E s of (r, s') \<Rightarrow>
     if r < 0 then Abort s'
     else Ret (case node_of s p of Some (Regular _) \<Rightarrow> True | _ \<Rightarrow> False) s')"

definition is_directory :: "env \<Rightarrow> string \<Rightarrow> (bool, 'w) prog" where
  "is_directory E p s = (case pop E s of (r, s') \<Rightarrow> Ret (0 \<le> r \<and> node_of s p = Some Dir) s')"

text \<open>\<^verbatim>\<open>file_size\<close> and the bytes an input stream delivers; a failing read is a short one.\<close>

definition file_size :: "env \<Rightarrow> string \<Rightarrow> (nat option, 'w) prog" where
  "file_size E p s = (case pop E s of (r, s') \<Rightarrow>
     Ret (if r < 0 then None
          else case node_of s p of Some (Regular c) \<Rightarrow> Some (length c) | _ \<Rightarrow> None) s')"

definition open_in :: "env \<Rightarrow> string \<Rightarrow> (string option, 'w) prog" where
  "open_in E p s = (case pop E s of (r, s') \<Rightarrow>
     Ret (if r < 0 then None
          else case node_of s p of Some (Regular c) \<Rightarrow> Some c | _ \<Rightarrow> None) s')"

definition read_bytes :: "env \<Rightarrow> string \<Rightarrow> nat \<Rightarrow> (string, 'w) prog" where
  "read_bytes E c n s = (case pop E s of (r, s') \<Rightarrow>
     Ret (if r < 0 then take (nat (data E (tick s))) (take n c) else take n c) s')"

text \<open>\<^verbatim>\<open>Parser.load(p)\<close> of simdjson: reads the file and parses it.\<close>

definition parser_load ::
  "env \<Rightarrow> (string \<Rightarrow> 'e + 'el) \<Rightarrow> 'e \<Rightarrow> 'w os \<Rightarrow> string \<Rightarrow> 'e + 'el" where
  "parser_load E parse io_error s p =
     (if unreadable E p then Inl io_error
      else case node_of s p of Some (Regular c) \<Rightarrow> parse c | _ \<Rightarrow> Inl io_error)"

subsection \<open>Changes\<close>

text \<open>\<^verbatim>\<open>std::ofstream\<close> in append mode: creates a missing file; the result is \<^verbatim>\<open>tellp()\<close>, \<open>-1\<close> when the open failed.\<close>

definition open_app :: "env \<Rightarrow> string \<Rightarrow> (int, 'w) prog" where
  "open_app E p s = (case pop E s of (r, s') \<Rightarrow>
     if r < 0 \<or> p = [] then Ret (- 1) s'
     else case node_of s p of
            Some (Regular c) \<Rightarrow> Ret (int (app_pos E (length c))) s'
          | None \<Rightarrow> if parent_is_dir s p then Ret (int (app_pos E 0)) (set_node p (Some (Regular [])) s')
                    else Ret (- 1) s'
          | _ \<Rightarrow> Ret (- 1) s')"

text \<open>\<^verbatim>\<open>std::ofstream\<close> in its default mode: truncates.\<close>

definition open_trunc :: "env \<Rightarrow> string \<Rightarrow> (bool, 'w) prog" where
  "open_trunc E p s = (case pop E s of (r, s') \<Rightarrow>
     if r < 0 \<or> p = [] then Ret False s'
     else case node_of s p of
            Some (Regular c) \<Rightarrow> Ret True (set_node p (Some (Regular [])) s')
          | None \<Rightarrow> if parent_is_dir s p then Ret True (set_node p (Some (Regular [])) s')
                    else Ret False s'
          | _ \<Rightarrow> Ret False s')"

text \<open>
  Output to a freshly truncated stream and its closing: a short write stores a part only, and
  nothing reports it. The bytes go to the open file, which has the name \<open>p\<close> as long as no
  one removed it.
\<close>

definition write_stream :: "env \<Rightarrow> string \<Rightarrow> string \<Rightarrow> (unit, 'w) prog" where
  "write_stream E p c s = (case pop E s of (r, s') \<Rightarrow>
     case node_of s p of
       Some (Regular _) \<Rightarrow>
         Ret () (set_node p (Some (Regular (case short_write E (tick s) of None \<Rightarrow> c | Some n \<Rightarrow> take n c))) s')
     | _ \<Rightarrow> Ret () s')"

text \<open>\<^verbatim>\<open>rename\<close> of a regular file: atomic, replaces a target that is not a directory.\<close>

definition rename :: "env \<Rightarrow> string \<Rightarrow> string \<Rightarrow> (bool, 'w) prog" where
  "rename E p q s = (case pop E s of (r, s') \<Rightarrow>
     if r < 0 \<or> p = [] \<or> q = [] \<or> \<not> parent_is_dir s q \<or> node_of s q = Some Dir then Ret False s'
     else case node_of s p of
            Some (Regular c) \<Rightarrow>
              Ret True (set_tree ((fs s)(resolve (cwd s) p := None, resolve (cwd s) q := Some (Regular c))) s')
          | _ \<Rightarrow> Ret False s')"

definition remove_file :: "env \<Rightarrow> string \<Rightarrow> (unit, 'w) prog" where
  "remove_file E p s = (case pop E s of (r, s') \<Rightarrow>
     if r < 0 then Ret () s'
     else case node_of s p of Some (Regular _) \<Rightarrow> Ret () (set_node p None s') | _ \<Rightarrow> Ret () s')"

definition unlink :: "env \<Rightarrow> string \<Rightarrow> (int, 'w) prog" where
  "unlink E p s = (case pop E s of (r, s') \<Rightarrow>
     if r < 0 then Ret (- 1) s'
     else case node_of s p of
            Some Dir \<Rightarrow> Ret (- 1) s' | None \<Rightarrow> Ret (- 1) s' | _ \<Rightarrow> Ret 0 (set_node p None s'))"

definition mkfifo :: "env \<Rightarrow> string \<Rightarrow> (int, 'w) prog" where
  "mkfifo E p s = (case pop E s of (r, s') \<Rightarrow>
     if r < 0 \<or> p = [] \<or> node_of s p \<noteq> None \<or> \<not> parent_is_dir s p then Ret (- 1) s'
     else Ret 0 (set_node p (Some Fifo) s'))"

text \<open>\<^verbatim>\<open>open\<close> of a file that must exist: the descriptor, negative on failure.\<close>

definition open_fd :: "env \<Rightarrow> string \<Rightarrow> (int, 'w) prog" where
  "open_fd E p s = (case sys E (OpenFd p) s of
     Ret r s' \<Rightarrow> Ret (if node_of s p = None then - 1 else r) s' | x \<Rightarrow> x)"

text \<open>
  \<^verbatim>\<open>create_directories\<close>: \<open>True\<close> when the last directory was created. A failing call may have
  created some of the missing ancestors.
\<close>

definition missing_dirs :: "tree \<Rightarrow> string list \<Rightarrow> string list list" where
  "missing_dirs f q = filter (\<lambda>d. f d = None) (prefixes q)"

fun make_dirs :: "string list list \<Rightarrow> 'w os \<Rightarrow> 'w os" where
  "make_dirs [] s = s"
| "make_dirs (d # ds) s = make_dirs ds (set_tree ((fs s)(d := Some Dir)) s)"

definition create_directories :: "env \<Rightarrow> string \<Rightarrow> (bool, 'w) prog" where
  "create_directories E p s = (case pop E s of (r, s') \<Rightarrow>
     let q = resolve (cwd s) p; ds = missing_dirs (fs s) q in
     if p = [] \<or> \<not> list_all (\<lambda>d. fs s d = Some Dir \<or> fs s d = None) (prefixes q) \<or> ds = [] then Ret False s'
     else if r < 0 then Ret False (make_dirs (take (nat (data E (tick s)) mod length ds) ds) s')
     else Ret True (make_dirs ds s'))"

text \<open>
  \<^verbatim>\<open>remove_all\<close>: the subtree disappears; a failing call may have removed parts of it. The same holds,
  whatever the call says, for a path that ends in a dot or dot-dot: such a name stops denoting the
  directory while its contents are removed.
\<close>

definition dotted :: "string \<Rightarrow> bool" where
  "dotted p = (case rev (filter (\<lambda>w. w \<noteq> []) (split_on CHR ''/'' p)) of [] \<Rightarrow> False | w # _ \<Rightarrow> w = ''.'' \<or> w = ''..'')"

definition remove_all :: "env \<Rightarrow> string \<Rightarrow> (bool, 'w) prog" where
  "remove_all E p s = (case pop E s of (r, s') \<Rightarrow>
     if p = [] then Ret True s'
     else let root = resolve (cwd s) p in
       if r < 0 \<or> dotted p then
         Ret (0 \<le> r) (set_tree (\<lambda>q. if list_ex (\<lambda>d. prefix root d \<and> d \<noteq> [] \<and> purged E (tick s) d) (prefixes q)
                                     then None else fs s q) s')
       else Ret True (set_tree (\<lambda>q. if prefix root q \<and> q \<noteq> [] then None else fs s q) s'))"

text \<open>A path whose last name is a plain one does not end that way.\<close>

lemma dotted_append:
  assumes "plain_name n" "d \<noteq> []" shows "\<not> dotted (path_append d n)"
proof -
  from assms have rel: "\<not> is_absolute n" by (cases n) (auto simp: plain_name_def is_absolute_def)
  have "\<exists>p. path_append d n = p @ CHR ''/'' # n"
  proof (cases "last d = CHR ''/''")
    case True
    then have "d = butlast d @ [CHR ''/'']" using assms(2) append_butlast_last_id [of d] by simp
    then show ?thesis using rel assms(2) True by (intro exI [of _ "butlast d"]) (simp add: path_append_def)
  next
    case False
    with rel assms(2) show ?thesis by (intro exI [of _ d]) (simp add: path_append_def)
  qed
  then show ?thesis using assms(1) by (auto simp: dotted_def split_on_append split_on_no_sep plain_name_def)
qed

lemmas os_defs = pop_def sys_def block_def last_data_def time_now_def print_out_def is_regular_file_def
  is_regular_file_throwing_def is_directory_def file_size_def open_in_def read_bytes_def open_app_def
  open_trunc_def write_stream_def rename_def remove_file_def unlink_def mkfifo_def open_fd_def
  create_directories_def remove_all_def

end
