(* ===== verification/Posix_Laws.thy ===== *)
theory Posix_Laws
  imports Posix
begin

text \<open>
  What the operating-system calls keep. A relation between the states before and after a
  computation that is reflexive and transitive lifts from the calls to every program built from
  them (locale \<open>os_relation\<close>). It is used for the file tree being a tree, and for what other
  processes can see of one file while a program runs.
\<close>

section \<open>Relations that programs respect\<close>

definition obeys :: "('w os \<Rightarrow> 'w os \<Rightarrow> bool) \<Rightarrow> ('a, 'w) prog \<Rightarrow> bool" where
  "obeys R m \<longleftrightarrow> (\<forall>s. case m s of Ret a t \<Rightarrow> R s t | Abort t \<Rightarrow> R s t | Exit c t \<Rightarrow> R s t | _ \<Rightarrow> True)"

lemma obeys_Ret: "obeys R m \<Longrightarrow> m s = Ret a t \<Longrightarrow> R s t"
  by (auto simp: obeys_def dest: spec [of _ s])

lemma obeys_mono: "obeys R m \<Longrightarrow> (\<And>s t. R s t \<Longrightarrow> R' s t) \<Longrightarrow> obeys R' m"
  by (auto simp: obeys_def split: result.splits)

locale os_relation =
  fixes R :: "'w os \<Rightarrow> 'w os \<Rightarrow> bool"
  assumes refl: "R s s"
    and trans: "R s t \<Longrightarrow> R t u \<Longrightarrow> R s u"
begin

lemma return [intro]: "obeys R (returnP v)"
  by (simp add: obeys_def returnP_def refl)

lemma ub [intro]: "obeys R ubP"
  by (simp add: obeys_def ubP_def)

lemma abort [intro]: "obeys R abortP"
  by (simp add: obeys_def abortP_def refl)

lemma exit [intro]: "obeys R (exitP c)"
  by (simp add: obeys_def exitP_def refl)

lemma bind [intro]:
  assumes "obeys R m" "\<And>a. obeys R (f a)"
  shows "obeys R (bindP m f)"
  unfolding obeys_def
proof
  fix s
  show "case bindP m f s of Ret a t \<Rightarrow> R s t | Abort t \<Rightarrow> R s t | Exit c t \<Rightarrow> R s t | _ \<Rightarrow> True"
  proof (cases "m s")
    case (Ret a s')
    then have "R s s'" using assms(1) by (rule obeys_Ret [rotated])
    moreover have "case f a s' of Ret a t \<Rightarrow> R s' t | Abort t \<Rightarrow> R s' t | Exit c t \<Rightarrow> R s' t | _ \<Rightarrow> True"
      using assms(2) by (simp add: obeys_def)
    ultimately show ?thesis
      using Ret by (auto simp: bindP_def intro: trans split: result.splits)
  next
    case (Abort s')
    moreover have "R s s'" using assms(1) Abort by (auto simp: obeys_def dest: spec [of _ s])
    ultimately show ?thesis by (simp add: bindP_def)
  next
    case (Exit c s')
    moreover have "R s s'" using assms(1) Exit by (auto simp: obeys_def dest: spec [of _ s])
    ultimately show ?thesis by (simp add: bindP_def)
  qed (simp_all add: bindP_def)
qed

lemma cond [intro]: "obeys R m \<Longrightarrow> obeys R n \<Longrightarrow> obeys R (if b then m else n)"
  by simp

lemma opt [intro]:
  "obeys R m \<Longrightarrow> (\<And>x. obeys R (f x)) \<Longrightarrow> obeys R (case y of None \<Rightarrow> m | Some x \<Rightarrow> f x)"
  by (cases y) auto

end

section \<open>The tree stays a tree\<close>

definition tree_wf :: "tree \<Rightarrow> bool" where
  "tree_wf f \<longleftrightarrow> f [] = Some Dir \<and> (\<forall>q n. f (q @ [n]) \<noteq> None \<longrightarrow> f q = Some Dir)"

text \<open>The history only grows, and every new entry is a tree if the start was one.\<close>

definition tree_kept :: "'w os \<Rightarrow> 'w os \<Rightarrow> bool" where
  "tree_kept s t \<longleftrightarrow> (\<exists>h. hist t = hist s @ h \<and>
     (tree_wf (fs s) \<longrightarrow> tree_wf (fs t) \<and> list_all tree_wf h))"

interpretation tree: os_relation tree_kept
proof
  show "tree_kept s s" for s :: "'w os" by (simp add: tree_kept_def)
  show "tree_kept s t \<Longrightarrow> tree_kept t u \<Longrightarrow> tree_kept s u" for s t u :: "'w os"
    by (auto simp: tree_kept_def)
qed

text \<open>What others see at the place \<open>q\<close>: what was there at the start, or one of the nodes in \<open>C\<close>.\<close>

definition shows_only :: "string list \<Rightarrow> node option set \<Rightarrow> 'w os \<Rightarrow> 'w os \<Rightarrow> bool" where
  "shows_only q C s t \<longleftrightarrow> cwd t = cwd s \<and>
     (\<exists>h. hist t = hist s @ h \<and> (\<forall>f \<in> insert (fs t) (set h). f q = fs s q \<or> f q \<in> C))"

interpretation seen: os_relation "shows_only q C" for q C
proof
  show "shows_only q C s s" for s :: "'w os" by (simp add: shows_only_def)
  show "shows_only q C s t \<Longrightarrow> shows_only q C t u \<Longrightarrow> shows_only q C s u" for s t u :: "'w os"
    unfolding shows_only_def by (elim conjE exE) (rule conjI, simp, rule exI, rule conjI, simp, auto)
qed

lemma shows_only_mono: "shows_only q C s t \<Longrightarrow> C \<subseteq> C' \<Longrightarrow> shows_only q C' s t"
  by (auto simp: shows_only_def)

section \<open>The calls\<close>

text \<open>A change of one node is visible at that node only.\<close>

lemma shows_set_node:
  "resolve (cwd s) p \<noteq> q \<or> v \<in> C \<Longrightarrow> fs s' = fs s \<Longrightarrow> cwd s' = cwd s \<Longrightarrow> hist s' = hist s \<Longrightarrow>
     shows_only q C s (set_node p v s')"
  by (auto simp: shows_only_def set_node_def set_tree_def)

lemma shows_same:
  "fs s' = fs s \<Longrightarrow> cwd s' = cwd s \<Longrightarrow> hist s' = hist s \<Longrightarrow> shows_only q C s s'"
  by (auto simp: shows_only_def)

lemma tree_same: "fs s' = fs s \<Longrightarrow> hist s' = hist s \<Longrightarrow> tree_kept s s'"
  by (auto simp: tree_kept_def)

lemma tree_set:
  "hist s' = hist s \<Longrightarrow> (tree_wf (fs s) \<Longrightarrow> tree_wf f) \<Longrightarrow> tree_kept s (set_tree f s')"
  by (auto simp: tree_kept_def set_tree_def)

lemma tree_wf_update_leaf:
  assumes "tree_wf f" "q \<noteq> []" "f (butlast q) = Some Dir" "f q \<noteq> Some Dir"
  shows "tree_wf (f(q := v))"
  unfolding tree_wf_def
proof (intro conjI allI impI)
  show "(f(q := v)) [] = Some Dir" using assms by (simp add: tree_wf_def)
  fix p n assume *: "(f(q := v)) (p @ [n]) \<noteq> None"
  have ne: "f p \<noteq> Some Dir \<Longrightarrow> f (p @ [n]) = None" using assms(1) unfolding tree_wf_def by blast
  show "(f(q := v)) p = Some Dir"
  proof (cases "q = p @ [n]")
    case True
    then show ?thesis using assms by auto
  next
    case False
    with * have "f (p @ [n]) \<noteq> None" by simp
    with ne have "f p = Some Dir" by metis
    with assms(4) show ?thesis by auto
  qed
qed

lemma tree_wf_parent:
  assumes "tree_wf f" "f q = Some v" "v \<noteq> Dir"
  shows "q \<noteq> []" "f (butlast q) = Some Dir"
proof -
  show "q \<noteq> []" using assms by (auto simp: tree_wf_def)
  then have "f (butlast q @ [last q]) \<noteq> None" using assms(2) by simp
  then show "f (butlast q) = Some Dir" using assms(1) unfolding tree_wf_def by blast
qed

text \<open>Replacing or removing a node that is no directory, and creating one in a directory.\<close>

lemma tree_wf_replace:
  "tree_wf f \<Longrightarrow> f q = Some w \<Longrightarrow> w \<noteq> Dir \<Longrightarrow> tree_wf (f(q := v))"
  using tree_wf_parent [of f q w] by (intro tree_wf_update_leaf) auto

lemma tree_wf_update:
  "tree_wf f \<Longrightarrow>
     f q \<noteq> None \<and> f q \<noteq> Some Dir \<or> f q = None \<and> q \<noteq> [] \<and> f (butlast q) = Some Dir \<Longrightarrow>
     tree_wf (f(q := v))"
  using tree_wf_replace tree_wf_update_leaf by fastforce

lemma tree_wf_cut:
  assumes "tree_wf f" "\<And>q n. gone q \<Longrightarrow> gone (q @ [n])" "\<not> gone []"
  shows "tree_wf (\<lambda>q. if gone q then None else f q)"
proof -
  have "f (q @ [n]) \<noteq> None \<Longrightarrow> f q = Some Dir" for q n
    using assms(1) unfolding tree_wf_def by blast
  with assms show ?thesis unfolding tree_wf_def by (metis (mono_tags))
qed

lemma obeysI: "(\<And>s a t. m s = Ret a t \<Longrightarrow> R s t) \<Longrightarrow> (\<And>s t. m s = Abort t \<Longrightarrow> R s t) \<Longrightarrow>
     (\<And>s c t. m s = Exit c t \<Longrightarrow> R s t) \<Longrightarrow> obeys R m"
  by (auto simp: obeys_def split: result.splits)

text \<open>Calls that only look.\<close>

definition untouched :: "'w os \<Rightarrow> 'w os \<Rightarrow> bool" where
  "untouched s t \<longleftrightarrow> fs t = fs s \<and> cwd t = cwd s \<and> hist t = hist s"

interpretation looking: os_relation untouched
  by unfold_locales (auto simp: untouched_def)

lemma quiet_calls:
  "obeys untouched (sys E c)" "obeys untouched (last_data E)" "obeys untouched (time_now E)"
  "obeys untouched (print_out x)" "obeys untouched (is_regular_file E p)"
  "obeys untouched (is_regular_file_throwing E p)" "obeys untouched (is_directory E p)"
  "obeys untouched (file_size E p)" "obeys untouched (open_in E p)"
  "obeys untouched (read_bytes E x n)" "obeys untouched (open_fd E p)"
  by (simp_all add: obeys_def untouched_def os_defs)

lemma seen_queries [intro]: "obeys untouched m \<Longrightarrow> obeys (shows_only q C) m"
  by (erule obeys_mono) (simp add: untouched_def shows_same)

lemma tree_queries [intro]: "obeys untouched m \<Longrightarrow> obeys tree_kept m"
  by (erule obeys_mono) (simp add: untouched_def tree_same)

text \<open>Calls that change the tree.\<close>

lemma seen_open_app: "shows_only q C s t" if "open_app E p s = Ret v t" "resolve (cwd s) p \<noteq> q"
  using that by (auto simp: open_app_def pop_def shows_only_def set_node_def set_tree_def
      split: if_splits option.splits node.splits)

lemma seen_open_trunc: "shows_only q C s t" if "open_trunc E p s = Ret v t" "resolve (cwd s) p \<noteq> q"
  using that by (auto simp: open_trunc_def pop_def shows_only_def set_node_def set_tree_def
      split: if_splits option.splits node.splits)

lemma seen_write_stream: "shows_only q C s t" if "write_stream E p c s = Ret v t" "resolve (cwd s) p \<noteq> q"
  using that by (auto simp: write_stream_def pop_def shows_only_def set_node_def set_tree_def
      split: if_splits option.splits node.splits)

lemma seen_remove_file: "shows_only q C s t" if "remove_file E p s = Ret v t" "resolve (cwd s) p \<noteq> q"
  using that by (auto simp: remove_file_def pop_def shows_only_def set_node_def set_tree_def
      split: if_splits option.splits node.splits)

lemma seen_unlink: "shows_only q C s t" if "unlink E p s = Ret v t" "resolve (cwd s) p \<noteq> q"
  using that by (auto simp: unlink_def pop_def shows_only_def set_node_def set_tree_def
      split: if_splits option.splits node.splits)

lemma seen_mkfifo: "shows_only q C s t" if "mkfifo E p s = Ret v t" "resolve (cwd s) p \<noteq> q"
  using that by (auto simp: mkfifo_def pop_def shows_only_def set_node_def set_tree_def
      split: if_splits option.splits node.splits)

lemma node_of_nonempty: "node_of s p = Some v \<Longrightarrow> fs s (resolve (cwd s) p) = Some v"
  by (simp add: node_of_def split: if_splits)

lemma tree_open [intro]: "obeys tree_kept (open_app E p)" "obeys tree_kept (open_trunc E p)"
  by (rule obeysI; auto simp: open_app_def open_trunc_def pop_def set_node_def parent_is_dir_def Let_def
      node_of_def intro!: tree_same tree_set tree_wf_update
      split: if_splits option.splits node.splits)+

lemma tree_writes [intro]:
  "obeys tree_kept (write_stream E p c)" "obeys tree_kept (remove_file E p)"
  "obeys tree_kept (unlink E p)" "obeys tree_kept (mkfifo E p)"
  by (rule obeysI; auto simp: os_defs set_node_def parent_is_dir_def Let_def
      node_of_def intro!: tree_same tree_set tree_wf_update
      split: if_splits option.splits node.splits)+

lemma tree_rename [intro]: "obeys tree_kept (rename E p q)"
proof (rule obeysI)
  fix s :: "'w os" and b t assume r: "rename E p q s = Ret b t"
  let ?f = "fs s" and ?p = "resolve (cwd s) p" and ?q = "resolve (cwd s) q"
  show "tree_kept s t"
  proof (cases b)
    case False
    with r show ?thesis
      by (auto simp: rename_def pop_def intro!: tree_same split: if_splits option.splits node.splits)
  next
    case True
    with r obtain c where c: "?f ?p = Some (Regular c)" "?q \<noteq> []" "?f (butlast ?q) = Some Dir" "?f ?q \<noteq> Some Dir"
      and t: "t = set_tree (?f(?p := None, ?q := Some (Regular c))) (s\<lparr>tick := Suc (tick s)\<rparr>)"
      by (auto simp: rename_def pop_def node_of_def parent_is_dir_def Let_def split: if_splits option.splits node.splits)
    have "tree_wf (?f(?p := None, ?q := Some (Regular c)))" if "tree_wf ?f"
    proof -
      have "tree_wf (?f(?p := None))" using that c by (intro tree_wf_update) auto
      then show ?thesis by (rule tree_wf_update_leaf) (use c in auto)
    qed
    then show ?thesis unfolding t by (intro tree_set) auto
  qed
qed (auto simp: rename_def pop_def split: if_splits option.splits node.splits)

lemma tree_remove_all [intro]: "obeys tree_kept (remove_all E p)"
proof (rule obeysI)
  fix s :: "'w os" and b t assume r: "remove_all E p s = Ret b t"
  let ?cut1 = "\<lambda>q. list_ex (\<lambda>d. prefix (resolve (cwd s) p) d \<and> d \<noteq> [] \<and> purged E (tick s) d) (prefixes q)"
  let ?cut2 = "\<lambda>q. prefix (resolve (cwd s) p) q \<and> q \<noteq> []"
  have "tree_wf (\<lambda>q. if ?cut1 q then None else fs s q)" "tree_wf (\<lambda>q. if ?cut2 q then None else fs s q)"
    if "tree_wf (fs s)"
    by (rule tree_wf_cut [OF that]; auto simp: list_ex_iff)+
  then show "tree_kept s t"
    using r by (auto simp: remove_all_def pop_def Let_def intro!: tree_same tree_set split: if_splits)
qed (auto simp: remove_all_def pop_def Let_def split: if_splits)

text \<open>What other processes do meanwhile keeps the tree one, or leaves a place alone.\<close>

definition others_tree :: "env \<Rightarrow> bool" where
  "others_tree E \<longleftrightarrow> (\<forall>k f. tree_wf f \<longrightarrow> tree_wf (others E k f))"

definition others_spare :: "env \<Rightarrow> string list \<Rightarrow> bool" where
  "others_spare E q \<longleftrightarrow> (\<forall>k f. others E k f q = f q)"

lemma tree_block: "others_tree E \<Longrightarrow> obeys tree_kept (block E c)"
  by (auto simp: obeys_def block_def others_tree_def intro!: tree_set)

lemma seen_block: "others_spare E q \<Longrightarrow> obeys (shows_only q C) (block E c)"
  by (auto simp: obeys_def block_def others_spare_def shows_only_def set_tree_def)

text \<open>Directories are created from the top, so each new one has its parent.\<close>

lemma prefixes_by_length: "sorted_wrt (\<lambda>a b. length a < length b) (prefixes q)"
  by (induction q) (auto simp: sorted_wrt_map)

lemma sorted_take:
  assumes "sorted_wrt (\<lambda>a b. length a < length b) ds" "d \<in> set (take k ds)" "e \<in> set ds" "length e < length d"
  shows "e \<in> set (take k ds)"
  using assms
proof (induction ds arbitrary: k)
  case (Cons x ds)
  then obtain j where k: "k = Suc j" by (cases k) auto
  show ?case
  proof (cases "e = x")
    case False
    with Cons.prems k have "d \<noteq> x" by auto
    with Cons False k show ?thesis by auto
  qed (simp add: k)
qed simp

lemma make_dirs_frame [simp]:
  "cwd (make_dirs ds s) = cwd s" "tick (make_dirs ds s) = tick s" "calls (make_dirs ds s) = calls s"
  by (induction ds arbitrary: s) (auto simp: set_tree_def)

lemma make_dirs_fs: "fs (make_dirs ds s) = (\<lambda>d. if d \<in> set ds then Some Dir else fs s d)"
  by (induction ds arbitrary: s) (auto simp: set_tree_def)

lemma make_dirs_hist:
  "\<exists>h. hist (make_dirs ds s) = hist s @ h \<and>
     (\<forall>f \<in> set h. \<exists>k. f = (\<lambda>d. if d \<in> set (take k ds) then Some Dir else fs s d))"
proof (induction ds arbitrary: s)
  case (Cons d ds)
  let ?s = "set_tree ((fs s)(d := Some Dir)) s"
  obtain h where h: "hist (make_dirs ds ?s) = hist ?s @ h"
    "\<forall>f \<in> set h. \<exists>k. f = (\<lambda>e. if e \<in> set (take k ds) then Some Dir else fs ?s e)"
    using Cons.IH by blast
  have "\<exists>k. f = (\<lambda>e. if e \<in> set (take k (d # ds)) then Some Dir else fs s e)" if "f \<in> set h" for f
  proof -
    from h(2) that obtain k where "f = (\<lambda>e. if e \<in> set (take k ds) then Some Dir else fs ?s e)" by blast
    then show ?thesis by (intro exI [of _ "Suc k"]) (auto simp: set_tree_def)
  qed
  moreover have "\<exists>k. (fs s)(d := Some Dir) = (\<lambda>e. if e \<in> set (take k (d # ds)) then Some Dir else fs s e)"
    by (rule exI [of _ 1]) auto
  moreover have "hist (make_dirs (d # ds) s) = hist s @ (fs s)(d := Some Dir) # h"
    using h(1) by (simp add: set_tree_def)
  ultimately show ?case
    by (intro exI [of _ "(fs s)(d := Some Dir) # h"] conjI ballI) (assumption, metis set_ConsD)
qed simp

lemma tree_wf_dirs:
  assumes f: "tree_wf f" and ok: "list_all (\<lambda>d. f d = Some Dir \<or> f d = None) (prefixes q)"
  shows "tree_wf (\<lambda>d. if d \<in> set (take k (missing_dirs f q)) then Some Dir else f d)" (is "tree_wf ?g")
  unfolding tree_wf_def
proof (intro conjI allI impI)
  show "?g [] = Some Dir" using f by (simp add: tree_wf_def)
  fix p n assume *: "?g (p @ [n]) \<noteq> None"
  show "?g p = Some Dir"
  proof (cases "p @ [n] \<in> set (take k (missing_dirs f q))")
    case True
    then have "p @ [n] \<in> set (prefixes q)" by (auto simp: missing_dirs_def dest: in_set_takeD)
    then have pq: "p \<in> set (prefixes q)" by (auto dest: append_prefixD)
    have "p \<in> set (take k (missing_dirs f q))" if "f p = None"
      by (rule sorted_take [OF _ True])
        (use that pq prefixes_by_length in \<open>auto simp: missing_dirs_def intro: sorted_wrt_filter\<close>)
    with ok pq show ?thesis by (auto simp: list_all_iff)
  next
    case False
    with * have "f (p @ [n]) \<noteq> None" by simp
    then have "f p = Some Dir" using f unfolding tree_wf_def by blast
    then show ?thesis by simp
  qed
qed

lemma tree_make_dirs:
  assumes "list_all (\<lambda>d. fs s d = Some Dir \<or> fs s d = None) (prefixes q)"
    "fs s' = fs s" "hist s' = hist s"
  shows "tree_kept s (make_dirs (take n (missing_dirs (fs s) q)) s')"
proof -
  let ?ds = "take n (missing_dirs (fs s) q)"
  obtain h where h: "hist (make_dirs ?ds s') = hist s @ h"
    "\<forall>f \<in> set h. \<exists>k. f = (\<lambda>d. if d \<in> set (take k ?ds) then Some Dir else fs s d)"
    using make_dirs_hist [of ?ds s'] unfolding assms(2,3) by blast
  have "list_all tree_wf h" if "tree_wf (fs s)"
    unfolding list_all_iff
  proof
    fix f assume "f \<in> set h"
    with h(2) obtain k where "f = (\<lambda>d. if d \<in> set (take k ?ds) then Some Dir else fs s d)" by blast
    then show "tree_wf f" using tree_wf_dirs [OF that assms(1)] by simp
  qed
  moreover have "tree_wf (fs (make_dirs ?ds s'))" if "tree_wf (fs s)"
    unfolding make_dirs_fs assms(2) by (rule tree_wf_dirs [OF that assms(1)])
  ultimately show ?thesis using h(1) by (auto simp: tree_kept_def)
qed

lemma tree_create_directories [intro]: "obeys tree_kept (create_directories E p)"
proof (rule obeysI)
  fix s :: "'w os" and b t assume r: "create_directories E p s = Ret b t"
  let ?ds = "missing_dirs (fs s) (resolve (cwd s) p)"
  have "tree_kept s (make_dirs (take n ?ds) (s\<lparr>tick := Suc (tick s)\<rparr>))"
    if "list_all (\<lambda>d. fs s d = Some Dir \<or> fs s d = None) (prefixes (resolve (cwd s) p))" for n
    using that by (rule tree_make_dirs) simp_all
  from this this [of "length ?ds"] r show "tree_kept s t"
    by (auto simp: create_directories_def pop_def Let_def tree_same split: if_splits)
qed (auto simp: create_directories_def pop_def Let_def split: if_splits)

end
