(* ===== verification/Atomic_Files.thy ===== *)
theory Atomic_Files
  imports Posix_Laws
begin

text \<open>
  The file helpers of \<^verbatim>\<open>src/runw.cpp\<close>: \<^verbatim>\<open>getTempFilename\<close>, \<^verbatim>\<open>atomicCreateAndWriteFile\<close>,
  \<^verbatim>\<open>atomicUpdateFile\<close> and \<^verbatim>\<open>readAll\<close>. The contract of the two writers is the locale
  \<open>atomic_store\<close>: whatever calls fail, the target shows its old node or the new contents, and
  the return value tells which.
\<close>

section \<open>Definitions\<close>

definition random_suffix :: "env \<Rightarrow> (string, 'w) prog" where
  "random_suffix E s = Ret (draw E (tick s)) s"

text \<open>The loop has no bound in the source: without fuel it does not return.\<close>

fun getTempFilename :: "nat \<Rightarrow> env \<Rightarrow> string \<Rightarrow> (string, 'w) prog" where
  "getTempFilename 0 E Prefix = (\<lambda>s. Diverge)"
| "getTempFilename (Suc n) E Prefix =
     bindP (random_suffix E) (\<lambda>Suffix.
       let Path = Prefix @ Suffix in
       bindP (open_app E Path) (\<lambda>pos.
         if pos = 0 then returnP Path else getTempFilename n E Prefix))"

text \<open>The second half of both writers: fill the temporary file and move it into place.\<close>

definition write_and_rename :: "nat \<Rightarrow> env \<Rightarrow> string \<Rightarrow> string \<Rightarrow> (bool, 'w) prog" where
  "write_and_rename fuel E Path Content =
     bindP (getTempFilename fuel E Path) (\<lambda>TempFile.
     bindP (open_trunc E TempFile) (\<lambda>Stream.
       if \<not> Stream then returnP False else
     bindP (write_stream E TempFile Content) (\<lambda>_.
     bindP (rename E TempFile Path) (\<lambda>ok.
       if ok then returnP True
       else bindP (remove_file E TempFile) (\<lambda>_. returnP False)))))"

definition atomicCreateAndWriteFile :: "nat \<Rightarrow> env \<Rightarrow> string \<Rightarrow> string \<Rightarrow> (bool, 'w) prog" where
  "atomicCreateAndWriteFile fuel E Path Content =
     bindP (is_regular_file E Path) (\<lambda>b.
       if b then returnP False else write_and_rename fuel E Path Content)"

definition atomicUpdateFile :: "nat \<Rightarrow> env \<Rightarrow> string \<Rightarrow> string \<Rightarrow> (bool, 'w) prog" where
  "atomicUpdateFile fuel E Path Content =
     bindP (is_regular_file E Path) (\<lambda>b.
       if \<not> b then returnP False else write_and_rename fuel E Path Content)"

definition readAll :: "env \<Rightarrow> string \<Rightarrow> (string, 'w) prog" where
  "readAll E Path =
     bindP (is_regular_file E Path) (\<lambda>b.
       if \<not> b then returnP [] else
     bindP (file_size E Path) (\<lambda>n.
       case n of None \<Rightarrow> returnP []
       | Some Size \<Rightarrow>
     bindP (open_in E Path) (\<lambda>st.
       case st of None \<Rightarrow> returnP []
       | Some c \<Rightarrow> read_bytes E c Size)))"

section \<open>Temporary names\<close>

text \<open>What \<^verbatim>\<open>uniform_int_distribution<char>('a', 'z')\<close> draws, six times.\<close>

definition suffix_law :: "env \<Rightarrow> bool" where
  "suffix_law E \<longleftrightarrow> (\<forall>t. length (draw E t) = 6 \<and> list_all (\<lambda>c. 97 \<le> char_val c \<and> char_val c \<le> 122) (draw E t))"

definition full_writes :: "env \<Rightarrow> bool" where
  "full_writes E \<longleftrightarrow> (\<forall>t. short_write E t = None)"

lemma split_on_snoc:
  "d \<notin> set t \<Longrightarrow> split_on d (s @ t) = butlast (split_on d s) @ [last (split_on d s) @ t]"
proof (induction s)
  case Nil
  then show ?case by (simp add: split_on_no_sep)
next
  case (Cons c s)
  obtain w ws where w: "split_on d s = w # ws" by (cases "split_on d s") auto
  show ?case
  proof (cases "ws = []")
    case True
    with Cons w show ?thesis by (auto split: list.split)
  next
    case False
    with Cons w show ?thesis by (cases ws rule: rev_cases) (auto split: list.split)
  qed
qed

text \<open>A name with letters appended denotes another place.\<close>

lemma resolve_suffix:
  assumes "suf \<noteq> []" "list_all (\<lambda>c. 97 \<le> char_val c \<and> char_val c \<le> 122) suf"
  shows "resolve d (p @ suf) \<noteq> resolve d p"
proof (cases "p = []")
  case True
  have "CHR ''/'' \<notin> set suf" "CHR ''.'' \<notin> set suf"
    using assms(2) by (auto simp: list_all_iff char_val_def)
  then have "plain_name suf" using assms(1) by (auto simp: plain_name_def)
  moreover have "\<not> is_absolute suf"
    using assms \<open>CHR ''/'' \<notin> set suf\<close> by (cases suf) (auto simp: is_absolute_def)
  ultimately show ?thesis
    using True by (simp add: resolve_def components_plain plain_name_def is_absolute_def)
      (simp add: components_def)
next
  case False
  have sep: "CHR ''/'' \<notin> set suf" "CHR ''.'' \<notin> set suf"
    using assms(2) by (auto simp: list_all_iff char_val_def)
  define l ws where "l = last (split_on CHR ''/'' p)" and "ws = butlast (split_on CHR ''/'' p)"
  let ?keep = "filter (\<lambda>w. w \<noteq> [] \<and> w \<noteq> ''.'')"
  have sp: "split_on CHR ''/'' p = ws @ [l]" by (simp add: l_def ws_def)
  have "split_on CHR ''/'' (p @ suf) = ws @ [l @ suf]"
    using split_on_snoc [OF sep(1), of p] by (simp add: l_def ws_def)
  moreover have "l @ suf \<noteq> ''.''" "l @ suf \<noteq> ''..''" "l @ suf \<noteq> []"
    using sep(2) assms(1) by (auto simp: append_eq_Cons_conv)
  ultimately have new: "resolve d (p @ suf) = walk (if is_absolute p then [] else d) (?keep ws) @ [l @ suf]"
    using False by (cases p) (auto simp: resolve_def components_def is_absolute_def walk_append)
  have "resolve d p = walk (walk (if is_absolute p then [] else d) (?keep ws)) (?keep [l])"
    by (simp add: resolve_def components_def sp walk_append)
  moreover have "walk acc (?keep [l]) \<noteq> acc @ [l @ suf]" for acc
  proof (cases "l = ''..''")
    case True
    have "length (butlast acc) < length (acc @ [l @ suf])" by simp
    then have "butlast acc \<noteq> acc @ [l @ suf]" by (metis less_irrefl)
    with True show ?thesis by simp
  qed (use assms(1) in auto)
  ultimately show ?thesis using new by metis
qed

lemma draw_elsewhere: "suffix_law E \<Longrightarrow> resolve c (p @ draw E t) \<noteq> resolve c p"
  by (rule resolve_suffix) (auto simp: suffix_law_def dest: spec [of _ t])

text \<open>The places \<^verbatim>\<open>getTempFilename\<close> may touch.\<close>

definition foreign :: "env \<Rightarrow> string list \<Rightarrow> string \<Rightarrow> string list \<Rightarrow> bool" where
  "foreign E d p q \<longleftrightarrow> (\<forall>t. resolve d (p @ draw E t) \<noteq> q)"

lemma foreign_self: "suffix_law E \<Longrightarrow> foreign E d p (resolve d p)"
  by (simp add: foreign_def draw_elsewhere)

lemma open_app_Ret:
  assumes "open_app E p s = Ret v t" "0 \<le> v"
  shows "\<exists>c. node_of t p = Some (Regular c) \<and> app_pos E (length c) = nat v"
  using assms
  by (auto simp: open_app_def pop_def set_node_def set_tree_def node_of_def
      split: if_splits option.splits node.splits)

lemma getTempFilename_Ret:
  assumes "getTempFilename n E p s = Ret q t"
  shows "(\<exists>k. q = p @ draw E k) \<and> cwd t = cwd s \<and>
    (\<exists>c. node_of t q = Some (Regular c) \<and> app_pos E (length c) = 0) \<and>
    (\<forall>r. foreign E (cwd s) p r \<longrightarrow> shows_only r {} s t)"
  using assms
proof (induction n arbitrary: s)
  case (Suc n)
  let ?p = "p @ draw E (tick s)"
  from Suc.prems obtain v u where u: "open_app E ?p s = Ret v u"
    and rest: "(if v = 0 then returnP ?p else getTempFilename n E p) u = Ret q t"
    by (auto simp: bindP_Ret_iff random_suffix_def Let_def)
  have cwd: "cwd u = cwd s"
    using u by (auto simp: open_app_def pop_def set_node_def set_tree_def split: if_splits option.splits node.splits)
  have seen: "shows_only r {} s u" if "foreign E (cwd s) p r" for r
    using u that by (intro seen_open_app) (auto simp: foreign_def)
  show ?case
  proof (cases "v = 0")
    case True
    with rest have "q = ?p" "t = u" by (simp_all add: returnP_Ret_iff)
    with open_app_Ret [OF u] True cwd seen show ?thesis by auto
  next
    case False
    with rest have "getTempFilename n E p u = Ret q t" by simp
    from Suc.IH [OF this] show ?thesis
      unfolding cwd using seen seen.trans by blast
  qed
qed simp

lemma open_trunc_Ret:
  "open_trunc E p s = Ret b t \<Longrightarrow> cwd t = cwd s \<and> (b \<longrightarrow> p \<noteq> [] \<and> node_of t p = Some (Regular []))"
  by (auto simp: open_trunc_def pop_def set_node_def set_tree_def node_of_def
      split: if_splits option.splits node.splits)

lemma write_stream_Ret:
  assumes "write_stream E p c s = Ret u t" "node_of s p = Some (Regular c0)"
  shows "\<exists>n. node_of t p = Some (Regular (take n c)) \<and> (full_writes E \<longrightarrow> take n c = c) \<and> cwd t = cwd s"
proof -
  have "p \<noteq> []" using assms(2) by (auto simp: node_of_def)
  then show ?thesis
  proof (cases "short_write E (tick s)")
    case None
    with assms \<open>p \<noteq> []\<close> show ?thesis
      by (intro exI [of _ "length c"]) (auto simp: write_stream_def pop_def set_node_def set_tree_def node_of_def)
  next
    case (Some k)
    then have "\<not> full_writes E" by (auto simp: full_writes_def dest: spec [of _ "tick s"])
    with Some assms \<open>p \<noteq> []\<close> show ?thesis
      by (intro exI [of _ k]) (auto simp: write_stream_def pop_def set_node_def set_tree_def node_of_def)
  qed
qed

lemma rename_Ret:
  assumes "rename E p q s = Ret b t" "node_of s p = Some (Regular c)" "resolve (cwd s) p \<noteq> resolve (cwd s) q"
  shows "if b then fs t (resolve (cwd s) q) = Some (Regular c) \<and> fs t (resolve (cwd s) p) = None
           \<and> q \<noteq> [] \<and> cwd t = cwd s \<and> hist t = hist s @ [fs t]
         else untouched s t"
    and "r \<noteq> resolve (cwd s) p \<Longrightarrow> r \<noteq> resolve (cwd s) q \<Longrightarrow> shows_only r {} s t"
  using assms
  by (auto simp: rename_def pop_def untouched_def shows_only_def set_tree_def split: if_splits)

section \<open>The contract of the writers\<close>

text \<open>The node at \<open>q\<close> stays as it was until the last change of the tree, which puts \<open>v\<close> there.\<close>

definition switches :: "string list \<Rightarrow> node option \<Rightarrow> 'w os \<Rightarrow> 'w os \<Rightarrow> bool" where
  "switches q v s t \<longleftrightarrow> cwd t = cwd s \<and> fs t q = v \<and>
     (\<exists>h. hist t = hist s @ h @ [fs t] \<and> (\<forall>f \<in> set h. f q = fs s q))"

lemma switches_shows: "switches q v s t \<Longrightarrow> shows_only q {v} s t"
  by (auto simp: switches_def shows_only_def)

text \<open>
  What holds after writing \<open>c\<close> to \<open>p\<close>, whichever calls fail. On success the target switches, in one
  step, from the old node to a prefix of \<open>c\<close> (the whole of \<open>c\<close> when no write is cut short); on
  failure it never shows anything but the old node. No other place but the temporary names is touched.
\<close>

definition stored :: "env \<Rightarrow> string \<Rightarrow> string \<Rightarrow> bool \<Rightarrow> 'w os \<Rightarrow> 'w os \<Rightarrow> bool" where
  "stored E p c b s t \<longleftrightarrow>
     (if b then p \<noteq> [] \<and> (\<exists>n. (full_writes E \<longrightarrow> take n c = c) \<and>
                            switches (resolve (cwd s) p) (Some (Regular (take n c))) s t)
      else shows_only (resolve (cwd s) p) {} s t) \<and>
     (\<forall>q. q \<noteq> resolve (cwd s) p \<longrightarrow> foreign E (cwd s) p q \<longrightarrow> shows_only q {} s t)"

lemma stored_unchanged:
  assumes "\<And>q. q = resolve (cwd s) p \<or> foreign E (cwd s) p q \<Longrightarrow> shows_only q {} s t"
  shows "stored E p c False s t"
  using assms by (simp add: stored_def)

lemma seen_untouched: "untouched s t \<Longrightarrow> shows_only q C s t"
  by (simp add: untouched_def shows_same)

text \<open>The target and the places foreign to the temporary names, while the temporary file is prepared.\<close>

definition quiet_at :: "env \<Rightarrow> string \<Rightarrow> 'w os \<Rightarrow> 'w os \<Rightarrow> bool" where
  "quiet_at E p s t \<longleftrightarrow> cwd t = cwd s \<and> (\<forall>q. foreign E (cwd s) p q \<longrightarrow> shows_only q {} s t)"

interpretation quietly: os_relation "quiet_at E p" for E p
  by unfold_locales (auto simp: quiet_at_def intro: seen.refl seen.trans)

lemma temp_calls_quiet:
  assumes "tmp = p @ draw E k"
  shows "obeys (quiet_at E p) (open_trunc E tmp)" "obeys (quiet_at E p) (write_stream E tmp c)"
    "obeys (quiet_at E p) (remove_file E tmp)"
  by (rule obeysI; use assms in \<open>auto simp: quiet_at_def foreign_def shows_only_def open_trunc_def write_stream_def
      remove_file_def pop_def set_node_def set_tree_def split: if_splits option.splits node.splits\<close>)+

lemma quiet_stored:
  assumes "suffix_law E" "quiet_at E p s t" shows "stored E p c False s t"
  using assms foreign_self [OF assms(1)] by (intro stored_unchanged) (auto simp: quiet_at_def)

lemma moved_stored:
  assumes law: "suffix_law E" and pre: "quiet_at E p s s'"
    and n: "node_of s' tmp = Some (Regular (take n c))" "full_writes E \<longrightarrow> take n c = c"
    and rn: "rename E tmp p s' = Ret True t" and tmp: "tmp = p @ draw E k"
  shows "stored E p c True s t"
proof -
  let ?P = "resolve (cwd s) p" and ?c = "take n c"
  have cwd: "cwd s' = cwd s" using pre by (simp add: quiet_at_def)
  have away: "resolve (cwd s') tmp \<noteq> resolve (cwd s') p" unfolding tmp using draw_elsewhere [OF law] by metis
  note R = rename_Ret [OF rn n(1) away]
  have "shows_only ?P {} s s'" using pre foreign_self [OF law] by (simp add: quiet_at_def)
  then have "switches ?P (Some (Regular ?c)) s t"
    using R(1) cwd by (auto simp: switches_def shows_only_def)
  moreover have "shows_only q {} s t" if "q \<noteq> ?P" "foreign E (cwd s) p q" for q
  proof -
    have "q \<noteq> resolve (cwd s) tmp" using that tmp by (auto simp: foreign_def)
    then have "shows_only q {} s' t" using R(2) that cwd by auto
    with pre that show ?thesis by (auto simp: quiet_at_def intro: seen.trans)
  qed
  ultimately show ?thesis unfolding stored_def using R(1) n(2) by auto
qed

lemma write_and_rename_stored:
  assumes law: "suffix_law E" and run: "write_and_rename fuel E p c s = Ret b t"
  shows "stored E p c b s t"
proof -
  from run obtain tmp s1 ok s2 where temp: "getTempFilename fuel E p s = Ret tmp s1"
    and trunc: "open_trunc E tmp s1 = Ret ok s2"
    and rest: "(if \<not> ok then returnP False else
      bindP (write_stream E tmp c) (\<lambda>_. bindP (rename E tmp p) (\<lambda>ok.
        if ok then returnP True else bindP (remove_file E tmp) (\<lambda>_. returnP False)))) s2 = Ret b t"
    unfolding write_and_rename_def by (auto simp: bindP_Ret_iff)
  note T = getTempFilename_Ret [OF temp]
  from T obtain k where k: "tmp = p @ draw E k" by blast
  note quiet = temp_calls_quiet [OF k]
  have "quiet_at E p s s1" using T by (simp add: quiet_at_def)
  then have q2: "quiet_at E p s s2" using obeys_Ret [OF quiet(1) trunc] by (rule quietly.trans)
  show ?thesis
  proof (cases ok)
    case False
    with rest have "\<not> b" "t = s2" by (auto simp: returnP_Ret_iff)
    with quiet_stored [OF law q2] show ?thesis by simp
  next
    case True
    with rest obtain v s3 r s4 where wr: "write_stream E tmp c s2 = Ret v s3"
      and rn: "rename E tmp p s3 = Ret r s4"
      and last: "(if r then returnP True else bindP (remove_file E tmp) (\<lambda>_. returnP False)) s4 = Ret b t"
      by (auto simp: bindP_Ret_iff)
    from True open_trunc_Ret [OF trunc] have "node_of s2 tmp = Some (Regular [])" by simp
    from write_stream_Ret [OF wr this] obtain n where n: "node_of s3 tmp = Some (Regular (take n c))"
      "full_writes E \<longrightarrow> take n c = c" by auto
    have q3: "quiet_at E p s s3" using q2 obeys_Ret [OF quiet(2) wr] by (rule quietly.trans)
    show ?thesis
    proof (cases r)
      case True
      with last moved_stored [OF law q3 n _ k] rn show ?thesis by (auto simp: returnP_Ret_iff)
    next
      case False
      with last obtain v' where rm: "remove_file E tmp s4 = Ret v' t" and b: "b = False"
        by (auto simp: bindP_Ret_iff returnP_Ret_iff)
      have "resolve (cwd s3) tmp \<noteq> resolve (cwd s3) p" unfolding k using draw_elsewhere [OF law] by metis
      with rename_Ret(1) [OF rn n(1)] False have "untouched s3 s4" by simp
      then have "quiet_at E p s3 s4" by (simp add: quiet_at_def seen_untouched untouched_def shows_same)
      then have "quiet_at E p s t" using q3 obeys_Ret [OF quiet(3) rm] by (blast intro: quietly.trans)
      with quiet_stored [OF law] show ?thesis unfolding b by blast
    qed
  qed
qed

text \<open>The interface the commands rely on. \<open>wanted\<close> says on which targets the writer agrees to work.\<close>

locale atomic_store =
  fixes put :: "nat \<Rightarrow> env \<Rightarrow> string \<Rightarrow> string \<Rightarrow> (bool, 'w) prog"
    and wanted :: "node option \<Rightarrow> bool"
  assumes put_stored: "suffix_law E \<Longrightarrow> put fuel E p c s = Ret b t \<Longrightarrow> stored E p c b s t"
    and put_guard: "0 \<le> ret E (tick s) \<Longrightarrow> put fuel E p c s = Ret True t \<Longrightarrow> wanted (node_of s p)"
    and put_tree: "obeys tree_kept (put fuel E p c)"
begin

lemma switched:
  assumes "suffix_law E" "full_writes E" "put fuel E p c s = Ret True t"
  shows "switches (resolve (cwd s) p) (Some (Regular c)) s t"
  using put_stored [OF assms(1,3)] assms(2) by (auto simp: stored_def)

lemma refused:
  assumes "suffix_law E" "put fuel E p c s = Ret False t"
  shows "shows_only (resolve (cwd s) p) {} s t"
  using put_stored [OF assms] by (simp add: stored_def)

lemma visible:
  assumes "suffix_law E" "full_writes E" "put fuel E p c s = Ret b t"
  shows "shows_only (resolve (cwd s) p) {Some (Regular c)} s t"
proof (cases b)
  case True
  with assms(3) have "put fuel E p c s = Ret True t" by simp
  from switches_shows [OF switched [OF assms(1,2) this]] show ?thesis .
next
  case False
  with assms have "shows_only (resolve (cwd s) p) {} s t" using refused by auto
  then show ?thesis by (rule shows_only_mono) simp
qed

lemma written:
  assumes "suffix_law E" "full_writes E" "put fuel E p c s = Ret True t"
  shows "node_of t p = Some (Regular c)"
  using switched [OF assms] put_stored [OF assms(1,3)] by (simp add: switches_def stored_def node_of_def)

lemma elsewhere:
  assumes "suffix_law E" "put fuel E p c s = Ret b t" "q \<noteq> resolve (cwd s) p" "foreign E (cwd s) p q"
  shows "shows_only q {} s t"
  using put_stored [OF assms(1,2)] assms(3,4) by (auto simp: stored_def)

end

definition is_regular :: "node option \<Rightarrow> bool" where
  "is_regular v = (case v of Some (Regular _) \<Rightarrow> True | _ \<Rightarrow> False)"

lemma is_regular_file_eq:
  "is_regular_file E p s = Ret (0 \<le> ret E (tick s) \<and> is_regular (node_of s p)) (s\<lparr>tick := Suc (tick s)\<rparr>)"
  by (simp add: is_regular_file_def pop_def is_regular_def)

lemma stored_tick: "stored E p c b (s\<lparr>tick := n\<rparr>) t \<longleftrightarrow> stored E p c b s t"
  by (simp add: stored_def shows_only_def switches_def)

lemma getTempFilename_tree: "obeys tree_kept (getTempFilename n E p)"
proof (induction n)
  case (Suc n)
  have "obeys tree_kept (random_suffix E)"
    by (simp add: obeys_def random_suffix_def tree.refl)
  with Suc tree_open show ?case
    by (auto simp: Let_def intro!: tree.bind tree.cond tree.return)
qed (simp add: obeys_def)

lemma write_and_rename_tree: "obeys tree_kept (write_and_rename fuel E p c)"
  unfolding write_and_rename_def
  by (intro tree.bind tree.cond tree.return getTempFilename_tree tree_open tree_writes tree_rename)

lemma guarded_tree:
  "obeys tree_kept (bindP (is_regular_file E p) (\<lambda>b. if g b then returnP x else write_and_rename fuel E p c))"
  by (intro tree.bind tree.cond tree.return write_and_rename_tree tree_queries quiet_calls)

lemma guarded_stored:
  assumes "suffix_law E"
    "bindP (is_regular_file E p) (\<lambda>b. if g b then returnP False else write_and_rename fuel E p c) s = Ret b t"
  shows "stored E p c b s t"
  using assms write_and_rename_stored [OF assms(1), of fuel p c "s\<lparr>tick := Suc (tick s)\<rparr>"]
  by (auto simp: bindP_def is_regular_file_eq returnP_def stored_tick shows_same
      intro!: stored_unchanged split: if_splits)

interpretation create: atomic_store atomicCreateAndWriteFile "\<lambda>v. \<not> is_regular v"
proof
  show "stored E p c b s t" if "suffix_law E" "atomicCreateAndWriteFile fuel E p c s = Ret b t"
    for E fuel p c b and s t :: "'w os"
    using that unfolding atomicCreateAndWriteFile_def by (rule guarded_stored)
  show "obeys tree_kept (atomicCreateAndWriteFile fuel E p c :: (bool, 'w) prog)" for fuel E p c
    unfolding atomicCreateAndWriteFile_def by (rule guarded_tree)
qed (auto simp: atomicCreateAndWriteFile_def bindP_def is_regular_file_eq returnP_def split: if_splits)

interpretation update: atomic_store atomicUpdateFile is_regular
proof
  show "stored E p c b s t" if "suffix_law E" "atomicUpdateFile fuel E p c s = Ret b t"
    for E fuel p c b and s t :: "'w os"
    using that unfolding atomicUpdateFile_def by (rule guarded_stored)
  show "obeys tree_kept (atomicUpdateFile fuel E p c :: (bool, 'w) prog)" for fuel E p c
    unfolding atomicUpdateFile_def by (rule guarded_tree)
qed (auto simp: atomicUpdateFile_def bindP_def is_regular_file_eq returnP_def split: if_splits)

section \<open>When the writers return\<close>

text \<open>An environment in which no call fails.\<close>

definition calm :: "env \<Rightarrow> bool" where
  "calm E \<longleftrightarrow> (\<forall>t. \<not> ret E t < 0) \<and> full_writes E \<and> suffix_law E \<and> app_pos E 0 = 0"

lemma lookup_tick [simp]:
  "node_of (s\<lparr>tick := n\<rparr>) p = node_of s p" "parent_is_dir (s\<lparr>tick := n\<rparr>) p = parent_is_dir s p"
  by (simp_all add: node_of_def parent_is_dir_def)

lemma getTempFilename_first:
  assumes "\<not> ret E (tick s) < 0" "app_pos E 0 = 0" "p @ draw E (tick s) \<noteq> []"
    "node_of s (p @ draw E (tick s)) = None" "parent_is_dir s (p @ draw E (tick s))"
  shows "getTempFilename (Suc n) E p s =
    Ret (p @ draw E (tick s)) (set_node (p @ draw E (tick s)) (Some (Regular [])) (s\<lparr>tick := Suc (tick s)\<rparr>))"
  using assms by (auto simp: bindP_def random_suffix_def Let_def open_app_def pop_def returnP_def)

text \<open>Where the directory of the target does not exist, the loop never ends.\<close>

lemma getTempFilename_diverges:
  assumes "\<And>k. node_of s (p @ draw E k) = None \<and> \<not> parent_is_dir s (p @ draw E k)"
  shows "getTempFilename n E p s = Diverge"
  using assms
proof (induction n arbitrary: s)
  case (Suc n)
  have "open_app E (p @ draw E (tick s)) s = Ret (- 1) (s\<lparr>tick := Suc (tick s)\<rparr>)"
    using Suc.prems by (simp add: open_app_def pop_def)
  moreover have "getTempFilename n E p (s\<lparr>tick := Suc (tick s)\<rparr>) = Diverge"
    by (rule Suc.IH) (use Suc.prems in simp)
  ultimately show ?case by (simp add: bindP_def random_suffix_def Let_def)
qed simp

text \<open>In a calm environment a file in an existing directory is written, once a fresh name is drawn.\<close>

lemma plain_name_suffix:
  "plain_name n \<Longrightarrow> suffix_law E \<Longrightarrow> plain_name (n @ draw E t)"
  unfolding plain_name_def suffix_law_def
  by (auto simp: list_all_iff append_eq_Cons_conv char_val_def dest!: spec [of _ t])

lemma resolve_temp:
  assumes "plain_name n" "d \<noteq> []" "suffix_law E"
  shows "resolve c (path_append d n @ draw E t) = resolve c d @ [n @ draw E t]"
proof -
  have "path_append d n @ draw E t = path_append d (n @ draw E t)"
    using assms(1) by (cases n) (auto simp: path_append_def is_absolute_def plain_name_def)
  then show ?thesis using resolve_append [OF plain_name_suffix [OF assms(1,3)] assms(2)] by simp
qed

text \<open>The exact effect then: the target holds the contents and nothing else has changed.\<close>

definition put_exactly :: "string list \<Rightarrow> string \<Rightarrow> 'w os \<Rightarrow> 'w os \<Rightarrow> bool" where
  "put_exactly q c s t \<longleftrightarrow> fs t = (fs s)(q := Some (Regular c)) \<and> cwd t = cwd s \<and> bus t = bus s \<and> calls t = calls s"

lemma write_and_rename_calm:
  assumes calm: "calm E" and n: "plain_name n" "d \<noteq> []" and dir: "fs s (resolve (cwd s) d) = Some Dir"
    and tgt: "fs s (resolve (cwd s) d @ [n]) \<noteq> Some Dir"
    and free: "fs s (resolve (cwd s) d @ [n @ draw E (tick s)]) = None"
  shows "\<exists>t. write_and_rename (Suc fuel) E (path_append d n) c s = Ret True t \<and> put_exactly (resolve (cwd s) d @ [n]) c s t"
proof -
  let ?p = "path_append d n" and ?t = "path_append d n @ draw E (tick s)"
  have law: "suffix_law E" "app_pos E 0 = 0" "\<And>t. \<not> ret E t < 0" "\<And>t. short_write E t = None"
    using calm by (auto simp: calm_def full_writes_def)
  have ne: "?p \<noteq> []" using n by (cases n) (auto simp: path_append_def plain_name_def is_absolute_def)
  have r: "resolve (cwd s) ?t = resolve (cwd s) d @ [n @ draw E (tick s)]"
    "resolve (cwd s) ?p = resolve (cwd s) d @ [n]"
    by (rule resolve_temp [OF n law(1)]) (rule resolve_append [OF n])
  have away: "n @ draw E (tick s) \<noteq> n" using law(1) by (auto simp: suffix_law_def dest: spec [of _ "tick s"])
  have undo: "(fs s)(q := Some v, q := None, q' := w) = (fs s)(q' := w)" if "fs s q = None" "q \<noteq> q'" for q q' v w
    using that by (simp add: fun_eq_iff)
  have "getTempFilename (Suc fuel) E ?p s =
      Ret ?t (set_node ?t (Some (Regular [])) (s\<lparr>tick := Suc (tick s)\<rparr>))"
    by (rule getTempFilename_first) (use law ne free dir r in \<open>auto simp: node_of_def parent_is_dir_def\<close>)
  then show ?thesis
    using law ne r away dir tgt undo [OF free]
    by (simp add: write_and_rename_def bindP_def open_trunc_def write_stream_def rename_def pop_def
        set_node_def set_tree_def node_of_def parent_is_dir_def Let_def returnP_def put_exactly_def
        del: getTempFilename.simps split: option.split node.split)
qed

lemma calm_put:
  assumes "calm E" "plain_name n" "d \<noteq> []" "fs s (resolve (cwd s) d) = Some Dir"
    "\<And>k. fs s (resolve (cwd s) d @ [n @ draw E k]) = None"
  shows "fs s (resolve (cwd s) d @ [n]) = None \<Longrightarrow>
      \<exists>t. atomicCreateAndWriteFile (Suc fuel) E (path_append d n) c s = Ret True t \<and>
        put_exactly (resolve (cwd s) d @ [n]) c s t"
    and "fs s (resolve (cwd s) d @ [n]) = Some (Regular c0) \<Longrightarrow>
      \<exists>t. atomicUpdateFile (Suc fuel) E (path_append d n) c s = Ret True t \<and>
        put_exactly (resolve (cwd s) d @ [n]) c s t"
proof -
  let ?s = "s\<lparr>tick := Suc (tick s)\<rparr>"
  have ne: "path_append d n \<noteq> []"
    using assms(2) by (cases n) (auto simp: path_append_def plain_name_def is_absolute_def)
  then have node: "node_of s (path_append d n) = fs s (resolve (cwd s) d @ [n])"
    using resolve_append [OF assms(2,3)] by (simp add: node_of_def)
  have go: "\<exists>t. write_and_rename (Suc fuel) E (path_append d n) c ?s = Ret True t \<and>
      put_exactly (resolve (cwd s) d @ [n]) c s t"
    if "fs s (resolve (cwd s) d @ [n]) \<noteq> Some Dir"
    using write_and_rename_calm [OF assms(1-3), of ?s] assms(4,5) that by (simp add: put_exactly_def)
  have r: "0 \<le> ret E (tick s)" using assms(1) by (simp add: calm_def not_less)
  show "fs s (resolve (cwd s) d @ [n]) = None \<Longrightarrow>
      \<exists>t. atomicCreateAndWriteFile (Suc fuel) E (path_append d n) c s = Ret True t \<and>
        put_exactly (resolve (cwd s) d @ [n]) c s t"
    using go node r
    by (simp add: atomicCreateAndWriteFile_def bindP_def is_regular_file_eq is_regular_def)
  show "fs s (resolve (cwd s) d @ [n]) = Some (Regular c0) \<Longrightarrow>
      \<exists>t. atomicUpdateFile (Suc fuel) E (path_append d n) c s = Ret True t \<and>
        put_exactly (resolve (cwd s) d @ [n]) c s t"
    using go node r
    by (simp add: atomicUpdateFile_def bindP_def is_regular_file_eq is_regular_def)
qed

text \<open>Reading back what is there; with failing calls, a prefix of it.\<close>

lemma readAll_Ret:
  assumes "readAll E p s = Ret x t"
  shows "untouched s t" "\<exists>n. x = (case node_of s p of Some (Regular c) \<Rightarrow> take n c | _ \<Rightarrow> [])"
proof -
  have "obeys untouched (readAll E p :: (string, 'w) prog)"
    unfolding readAll_def
    by (intro looking.bind looking.cond looking.opt looking.return quiet_calls)
  from obeys_Ret [OF this assms] show "untouched s t" .
  show "\<exists>n. x = (case node_of s p of Some (Regular c) \<Rightarrow> take n c | _ \<Rightarrow> [])"
    using assms unfolding readAll_def bindP_def is_regular_file_eq
    by (auto simp: file_size_def open_in_def read_bytes_def pop_def returnP_def is_regular_def min_def
        intro: exI [of _ 0] exI [of _ "length x"] split: if_splits node.splits option.splits)
qed

lemma readAll_calm:
  "\<forall>t. \<not> ret E t < 0 \<Longrightarrow> node_of s p = Some (Regular c) \<Longrightarrow> \<exists>n. readAll E p s = Ret c (s\<lparr>tick := n\<rparr>)"
  by (simp add: readAll_def bindP_def is_regular_file_eq is_regular_def file_size_def open_in_def
      read_bytes_def pop_def) (auto simp: not_less)

end
