(* ===== verification/Runner.thy ===== *)
theory Runner
  imports Atomic_Files Cgroup
begin

text \<open>
  \<^verbatim>\<open>doRunInternal\<close> of \<^verbatim>\<open>src/runw.cpp\<close>: it prepares and compiles the WebAssembly module, forks the
  container process, and takes that process from \<^emph>\<open>created\<close> over \<^emph>\<open>running\<close> to \<^emph>\<open>stopped\<close>. WasmEdge is
  not part of the repository: its operations are the fields of a record \<open>wasmedge\<close> that the
  definitions take as an argument. Which side of a \<^verbatim>\<open>fork\<close> is followed is decided by the environment.
\<close>

section \<open>WasmEdge as a parameter\<close>

datatype proposal = BulkMemoryOperations | ReferenceTypes | SIMD
datatype host_registration = Wasi | WasmEdge_Process

text \<open>The configuration of the virtual machine and of its two host modules.\<close>

record vm_config =
  vm_proposals :: "proposal list"
  vm_hosts :: "host_registration list"
  wasi_dirs :: "string list"
  wasi_program :: string
  wasi_args :: "string list"
  wasi_envs :: "string list"
  AllowedCmd :: "string set"
  AllowedAll :: bool

text \<open>
  The operations called, each free to act on the operating system: \<^verbatim>\<open>Loader.loadFile\<close>,
  \<^verbatim>\<open>Cache::getPath\<close>, \<^verbatim>\<open>Loader.parseModule\<close>, \<^verbatim>\<open>Validator.validate\<close>, \<^verbatim>\<open>Compiler.compile\<close>, the four
  stages of \<^verbatim>\<open>VM\<close>, and \<^verbatim>\<open>Cache::clear\<close>. \<open>execute\<close> delivers the exit code of the program, or nothing when
  the execution failed.
\<close>

record 'w wasmedge =
  loadFile :: "string \<Rightarrow> (string option, 'w) prog"
  cache_getPath :: "string \<Rightarrow> string \<Rightarrow> string option"
  parseModule :: "string \<Rightarrow> bool"
  validateModule :: "string \<Rightarrow> bool"
  compile :: "string \<Rightarrow> string \<Rightarrow> (bool, 'w) prog"
  vm_loadWasm :: "vm_config \<Rightarrow> string \<Rightarrow> (bool, 'w) prog"
  vm_validate :: "vm_config \<Rightarrow> (bool, 'w) prog"
  vm_instantiate :: "vm_config \<Rightarrow> (bool, 'w) prog"
  vm_execute :: "vm_config \<Rightarrow> string \<Rightarrow> (int option, 'w) prog"
  cache_clear :: "string \<Rightarrow> (unit, 'w) prog"

definition EXIT_SUCCESS :: int where "EXIT_SUCCESS = 0"
definition EXIT_FAILURE :: int where "EXIT_FAILURE = 1"
definition EINTR :: int where "EINTR = 4"
definition FD_SETSIZE :: int where "FD_SETSIZE = 1024"

section \<open>Preparing the module\<close>

text \<open>\<^verbatim>\<open>path::replace_extension\<close> and \<^verbatim>\<open>path::parent_path\<close>.\<close>

definition file_name :: "string \<Rightarrow> string" where
  "file_name p = rev (takeWhile (\<lambda>c. c \<noteq> CHR ''/'') (rev p))"

definition replace_extension :: "string \<Rightarrow> string \<Rightarrow> string" where
  "replace_extension p ext =
     (let f = file_name p; stem = rev (tl (dropWhile (\<lambda>c. c \<noteq> CHR ''.'') (rev f)))
      in if f = ''..'' \<or> stem = [] then p @ ext else take (length p - length f) p @ stem @ ext)"

definition parent_path :: "string \<Rightarrow> string" where
  "parent_path p =
     (let d = take (length p - length (file_name p)) p;
          t = rev (dropWhile (\<lambda>c. c = CHR ''/'') (rev d))
      in if t = [] then take 1 d else t)"

text \<open>
  Lines 277 to 328: the configuration handed to the virtual machine. Indexing the first argument is
  undefined when there is none.
\<close>

definition wasm_path :: "Bundle \<Rightarrow> string" where
  "wasm_path b = path_append (RootPath b @ Cwd b) (hd (Args b))"

definition wasm_setup :: "Bundle \<Rightarrow> vm_config" where
  "wasm_setup b =
     \<lparr>vm_proposals = [BulkMemoryOperations, ReferenceTypes, SIMD],
      vm_hosts = [Wasi, WasmEdge_Process],
      wasi_dirs = [''/:'' @ RootPath b],
      wasi_program = wasm_path b,
      wasi_args = tl (Args b),
      wasi_envs = Envs b,
      AllowedCmd = set (Cmds b),
      AllowedAll = True\<rparr>"

text \<open>The child that compiles; it leaves with \<^verbatim>\<open>exit\<close>.\<close>

definition compiler_child :: "'w wasmedge \<Rightarrow> string \<Rightarrow> string \<Rightarrow> ('a, 'w) prog" where
  "compiler_child W Data SoPath =
     (if \<not> parseModule W Data then exitP EXIT_FAILURE
      else if \<not> validateModule W Data then exitP EXIT_FAILURE
      else bindP (compile W Data SoPath) (\<lambda>ok.
        if ok then exitP EXIT_SUCCESS else exitP EXIT_FAILURE))"

definition wexitstatus :: "int \<Rightarrow> int" where
  "wexitstatus St = St div 256 mod 256"

text \<open>
  The parent's side of the compilation. A failing \<^verbatim>\<open>waitpid\<close> leaves the status uninitialised: the
  \<^verbatim>\<open>continue\<close> of a \<^verbatim>\<open>do \<dots> while (false)\<close> does not repeat it. What the child writes, the compiled
  module, is read by \<^verbatim>\<open>VM.loadWasm\<close> only, a parameter itself.
\<close>

definition compile_module :: "env \<Rightarrow> 'w wasmedge \<Rightarrow> string \<Rightarrow> string \<Rightarrow> (string option, 'w) prog" where
  "compile_module E W Data SoPath =
     bindP (create_directories E (parent_path SoPath)) (\<lambda>_.
     bindP (sys E Fork) (\<lambda>CompilerPid.
       if CompilerPid < 0 then returnP None
       else if CompilerPid = 0 then compiler_child W Data SoPath
       else
         bindP (sys E (WaitPid CompilerPid)) (\<lambda>Result.
           if Result < 0 then ubP
           else bindP (last_data E) (\<lambda>St.
             if wexitstatus St \<noteq> EXIT_SUCCESS then returnP None else returnP (Some SoPath)))))"

text \<open>Lines 330 to 406: the path of the compiled module, compiled if it is not in the cache.\<close>

definition cached_module :: "env \<Rightarrow> 'w wasmedge \<Rightarrow> string \<Rightarrow> string \<Rightarrow> (string option, 'w) prog" where
  "cached_module E W Cid WasmPath =
     bindP (loadFile W WasmPath) (\<lambda>d.
       case d of None \<Rightarrow> returnP None
       | Some Data \<Rightarrow>
           (case cache_getPath W Data Cid of None \<Rightarrow> returnP None
            | Some P \<Rightarrow>
                (let SoPath = replace_extension P ''.so'' in
                 bindP (is_regular_file_throwing E SoPath) (\<lambda>b.
                   if b then returnP (Some SoPath) else compile_module E W Data SoPath))))"

text \<open>Lines 408 to 424.\<close>

definition vm_start :: "'w wasmedge \<Rightarrow> vm_config \<Rightarrow> string \<Rightarrow> (bool, 'w) prog" where
  "vm_start W cfg SoPath =
     bindP (vm_loadWasm W cfg SoPath) (\<lambda>ok. if \<not> ok then returnP False else
     bindP (vm_validate W cfg) (\<lambda>ok. if \<not> ok then returnP False else
     vm_instantiate W cfg))"

section \<open>Namespaces\<close>

definition CLONE_NEWTIME :: "32 word" where "CLONE_NEWTIME = 0x00000080"
definition CLONE_NEWNS :: "32 word" where "CLONE_NEWNS = 0x00020000"
definition CLONE_NEWCGROUP :: "32 word" where "CLONE_NEWCGROUP = 0x02000000"
definition CLONE_NEWUTS :: "32 word" where "CLONE_NEWUTS = 0x04000000"
definition CLONE_NEWIPC :: "32 word" where "CLONE_NEWIPC = 0x08000000"
definition CLONE_NEWUSER :: "32 word" where "CLONE_NEWUSER = 0x10000000"
definition CLONE_NEWPID :: "32 word" where "CLONE_NEWPID = 0x20000000"
definition CLONE_NEWNET :: "32 word" where "CLONE_NEWNET = 0x40000000"

text \<open>The switch on the type of a namespace: the flag of a known type.\<close>

definition namespace_flag :: "string \<Rightarrow> 32 word option" where
  "namespace_flag Type =
     (let c = hd Type in
      if c = CHR ''c'' then (if Type = ''cgroup'' then Some CLONE_NEWCGROUP else None)
      else if c = CHR ''i'' then (if Type = ''ipc'' then Some CLONE_NEWIPC else None)
      else if c = CHR ''m'' then (if Type = ''mount'' then Some CLONE_NEWNS else None)
      else if c = CHR ''n'' then (if Type = ''network'' then Some CLONE_NEWNET else None)
      else if c = CHR ''p'' then (if Type = ''pid'' then Some CLONE_NEWPID else None)
      else if c = CHR ''t'' then (if Type = ''time'' then Some CLONE_NEWTIME else None)
      else if c = CHR ''u'' then
        (if Type = ''uts'' then Some CLONE_NEWUTS
         else if Type = ''user'' then Some CLONE_NEWUSER else None)
      else None)"

unbundle bit_operations_syntax

type_synonym ns_flags = "32 word \<times> (int \<times> 32 word) list"

text \<open>The lambda \<^verbatim>\<open>UpdateFlags\<close>: collect a flag to unshare, or open the namespace to join.\<close>

definition UpdateFlags :: "env \<Rightarrow> 32 word \<Rightarrow> string \<Rightarrow> ns_flags \<Rightarrow> (ns_flags option, 'w) prog" where
  "UpdateFlags E Flag Path fl =
     (if Path = [] then returnP (Some (fst fl OR Flag, snd fl))
      else bindP (open_fd E Path) (\<lambda>Fd.
        if Fd < 0 then returnP None else returnP (Some (fst fl, snd fl @ [(Fd, Flag)]))))"

text \<open>The loop over the namespaces; \<^verbatim>\<open>Type.front()\<close> of an empty type is undefined.\<close>

fun collect_namespaces :: "env \<Rightarrow> namespace_desc list \<Rightarrow> ns_flags \<Rightarrow> (ns_flags option, 'w) prog" where
  "collect_namespaces E [] fl = returnP (Some fl)"
| "collect_namespaces E (Desc # Descs) fl =
     (if NsType Desc = [] then ubP
      else case namespace_flag (NsType Desc) of
        None \<Rightarrow> collect_namespaces E Descs fl
      | Some Flag \<Rightarrow>
          bindP (UpdateFlags E Flag (NsPath Desc) fl) (\<lambda>r.
            case r of None \<Rightarrow> returnP None | Some fl' \<Rightarrow> collect_namespaces E Descs fl'))"

fun join_namespaces :: "env \<Rightarrow> (int \<times> 32 word) list \<Rightarrow> bool \<Rightarrow> (bool, 'w) prog" where
  "join_namespaces E [] SetNsFailed = returnP SetNsFailed"
| "join_namespaces E ((Fd, Flag) # Rest) SetNsFailed =
     bindP (sys E (SetNs Fd Flag)) (\<lambda>Ret.
     bindP (sys E (CloseFd Fd)) (\<lambda>_.
     join_namespaces E Rest (SetNsFailed \<or> Ret < 0)))"

text \<open>Lines 443 to 535; the result of \<^verbatim>\<open>unshare\<close> is not looked at.\<close>

definition enter_namespaces :: "env \<Rightarrow> namespace_desc list \<Rightarrow> (bool, 'w) prog" where
  "enter_namespaces E Descs =
     bindP (collect_namespaces E Descs (0, [])) (\<lambda>r.
       case r of None \<Rightarrow> returnP False
       | Some (UnshareFlags, SetNsFlags) \<Rightarrow>
           bindP (if UnshareFlags \<noteq> 0 then sys E (Unshare UnshareFlags) else returnP 0) (\<lambda>_.
           bindP (join_namespaces E SetNsFlags False) (\<lambda>failed. returnP (\<not> failed))))"

section \<open>The container process\<close>

text \<open>\<^verbatim>\<open>CGroup::enter\<close> on the bus of the process; \<open>Diverge\<close> when the wait for the job does not end.\<close>

definition enter_cgroup :: "nat \<Rightarrow> 'w sd_lib \<Rightarrow> string \<Rightarrow> State \<Rightarrow> (bool, 'w) prog" where
  "enter_cgroup fuel L Cid st s =
     (case enter fuel L Cid st (bus s) of
        None \<Rightarrow> Diverge
      | Some (r, ck, w) \<Rightarrow>
          if CkUB ck then UB
          else Ret (case r of Inl _ \<Rightarrow> False | Inr _ \<Rightarrow> True) (s\<lparr>bus := w\<rparr>))"

text \<open>Line 436: the pid file.\<close>

definition write_pid_file :: "nat \<Rightarrow> env \<Rightarrow> string \<Rightarrow> (bool, 'w) prog" where
  "write_pid_file fuel E PidFile = atomicCreateAndWriteFile fuel E PidFile (show_int (mypid E))"

text \<open>The state file is replaced by the print of a state.\<close>

definition write_state :: "nat \<Rightarrow> env \<Rightarrow> string \<Rightarrow> State \<Rightarrow> (bool, 'w) prog" where
  "write_state fuel E StateFile st = atomicUpdateFile fuel E StateFile (print st)"

text \<open>
  Lines 545 to 568: wait until the other end of the fifo is opened, then read a byte. A \<^verbatim>\<open>read\<close> that is
  interrupted is not repeated, and an end of file counts as a start.
\<close>

definition await_start :: "env \<Rightarrow> int \<Rightarrow> (bool, 'w) prog" where
  "await_start E ExecFifoFd =
     (if ExecFifoFd < 0 then returnP True
      else if ExecFifoFd \<ge> FD_SETSIZE then ubP
      else bindP (sys E (SelectFd ExecFifoFd)) (\<lambda>Ret.
        if Ret < 0 then returnP False
        else bindP (sys E (ReadFd ExecFifoFd)) (\<lambda>Ret.
          if Ret < 0 then bindP (last_data E) (\<lambda>errno. returnP (errno = EINTR))
          else returnP True)))"

text \<open>Lines 570 to 593.\<close>

definition run_to_end ::
  "nat \<Rightarrow> env \<Rightarrow> 'w wasmedge \<Rightarrow> vm_config \<Rightarrow> State \<Rightarrow> string \<Rightarrow> (int, 'w) prog" where
  "run_to_end fuel E W cfg st StateFile =
     bindP (time_now E) (\<lambda>Now.
     let st = setRunning Now st in
     bindP (write_state fuel E StateFile st) (\<lambda>ok. if \<not> ok then returnP EXIT_FAILURE else
     bindP (vm_execute W cfg ''_start'') (\<lambda>Res.
     bindP (time_now E) (\<lambda>Now.
     let Code = (case Res of Some c \<Rightarrow> c | None \<Rightarrow> EXIT_FAILURE);
         st = setStopped Now Code st in
     bindP (write_state fuel E StateFile st) (\<lambda>ok. if \<not> ok then returnP EXIT_FAILURE else
     returnP Code)))))"

text \<open>Lines 436 to 593: everything the forked container process does.\<close>

definition container_process ::
  "nat \<Rightarrow> env \<Rightarrow> 'w sd_lib \<Rightarrow> 'w wasmedge \<Rightarrow> vm_config \<Rightarrow> string \<Rightarrow> string \<Rightarrow> State \<Rightarrow> string \<Rightarrow> int
     \<Rightarrow> (int, 'w) prog" where
  "container_process fuel E L W cfg Cid PidFile st StateFile ExecFifoFd =
     bindP (write_pid_file fuel E PidFile) (\<lambda>ok. if \<not> ok then returnP EXIT_FAILURE else
     bindP (time_now E) (\<lambda>Now.
     let st = setCreated Now (mypid E) st in
     bindP (enter_namespaces E (Namespaces (Config st))) (\<lambda>ok. if \<not> ok then returnP EXIT_FAILURE else
     bindP (enter_cgroup fuel L Cid st) (\<lambda>ok. if \<not> ok then returnP EXIT_FAILURE else
     bindP (write_state fuel E StateFile st) (\<lambda>ok. if \<not> ok then returnP EXIT_FAILURE else
     bindP (await_start E ExecFifoFd) (\<lambda>ok. if \<not> ok then returnP EXIT_FAILURE else
     run_to_end fuel E W cfg st StateFile))))))"

definition doRunInternal ::
  "nat \<Rightarrow> env \<Rightarrow> 'w sd_lib \<Rightarrow> 'w wasmedge \<Rightarrow> string \<Rightarrow> string \<Rightarrow> State \<Rightarrow> string \<Rightarrow> int
     \<Rightarrow> (int, 'w) prog" where
  "doRunInternal fuel E L W Cid PidFile st StateFile ExecFifoFd =
     (let b = Config st in
      if Args b = [] then ubP
      else
        let cfg = wasm_setup b in
        bindP (cached_module E W Cid (wasi_program cfg)) (\<lambda>so.
        case so of None \<Rightarrow> returnP EXIT_FAILURE
        | Some SoPath \<Rightarrow>
        bindP (vm_start W cfg SoPath) (\<lambda>ok. if \<not> ok then returnP EXIT_FAILURE else
        bindP (sys E Fork) (\<lambda>WasmPid.
          if WasmPid < 0 then returnP EXIT_FAILURE
          else if WasmPid > 0 then returnP EXIT_SUCCESS
          else container_process fuel E L W cfg Cid PidFile st StateFile ExecFifoFd))))"

end
