(* ===== verification/Runner_Laws.thy ===== *)
theory Runner_Laws
  imports Runner Cgroup_Laws
begin

text \<open>
  What is proved of the container process: the sequence of state files it shows and the meaning of
  its exit code, also for the whole of \<^verbatim>\<open>doRunInternal\<close>.
\<close>

section \<open>Sequences of nodes\<close>

text \<open>\<open>xs\<close> walks through \<open>ns\<close> in this order, staying at an entry for any number of steps.\<close>

fun in_order :: "'a list \<Rightarrow> 'a list \<Rightarrow> bool" where
  "in_order [] ns = True"
| "in_order (x # xs) [] = False"
| "in_order (x # xs) (n # ns) \<longleftrightarrow> x = n \<and> in_order xs (n # ns) \<or> in_order (x # xs) ns"

lemma in_order_append: "in_order xs ns \<Longrightarrow> in_order ys ms \<Longrightarrow> in_order (xs @ ys) (ns @ ms)"
proof (induction xs ns rule: in_order.induct)
  case (1 ns)
  then show ?case
  proof (induction ns)
    case (Cons n ns)
    then show ?case by (cases ys) auto
  qed simp
qed auto

lemma in_order_weaken: "in_order xs ns \<Longrightarrow> in_order xs (ns @ ms)"
  using in_order_append [of xs ns "[]" ms] by simp

lemma in_order_tail:
  assumes "\<And>ys. in_order ys ns \<Longrightarrow> in_order ys ms"
  shows "in_order xs (k # ns) \<Longrightarrow> in_order xs (k # ms)"
  using assms by (induction xs) auto

lemma in_order_dup: "in_order xs (ns @ n # n # ms) \<Longrightarrow> in_order xs (ns @ n # ms)"
proof (induction ns arbitrary: xs)
  case Nil
  then show ?case by (induction xs) auto
next
  case (Cons k ns)
  then show ?case using in_order_tail [of "ns @ n # n # ms" "ns @ n # ms" xs k] by simp
qed

lemma in_order_prefix: "in_order (xs @ ys) ns \<Longrightarrow> in_order xs ns"
proof (induction "xs @ ys" ns arbitrary: xs rule: in_order.induct)
  case (3 x zs n ns)
  then show ?case by (cases xs) auto
next
  case (2 x zs)
  then show ?case by (cases xs) auto
qed simp

lemma in_order_const: "\<forall>x \<in> set xs. x = n \<Longrightarrow> in_order xs (n # ns)"
  by (induction xs) auto

text \<open>
  The nodes at \<open>q\<close> from the state \<open>s\<close> to the state \<open>t\<close>, at every moment: first the one of \<open>s\<close>, then
  those of \<open>ns\<close>, in order.
\<close>

definition passes :: "string list \<Rightarrow> node option list \<Rightarrow> 'w os \<Rightarrow> 'w os \<Rightarrow> bool" where
  "passes q ns s t \<longleftrightarrow> cwd t = cwd s \<and>
     (\<exists>h. hist t = hist s @ h \<and> in_order (map (\<lambda>f. f q) (h @ [fs t])) (fs s q # ns))"

lemma passes_stay: "shows_only q {} s t \<Longrightarrow> passes q [] s t \<and> fs t q = fs s q"
  by (auto simp: passes_def shows_only_def intro!: in_order_const)

lemma passes_switch:
  assumes "switches q v s t" shows "passes q [v] s t \<and> fs t q = v"
proof -
  from assms obtain h where h: "hist t = hist s @ h @ [fs t]" "\<forall>f \<in> set h. f q = fs s q" "cwd t = cwd s" "fs t q = v"
    by (auto simp: switches_def)
  have "in_order (map (\<lambda>f. f q) h) [fs s q]" using h(2) by (intro in_order_const) auto
  moreover have "in_order [v, v] [v]" by simp
  ultimately have "in_order (map (\<lambda>f. f q) h @ [v, v]) ([fs s q] @ [v])" by (rule in_order_append)
  with h show ?thesis by (auto simp: passes_def)
qed

lemma passes_cwd: "passes q ns s t \<Longrightarrow> cwd t = cwd s"
  by (simp add: passes_def)

lemma passes_weaken: "passes q ns s t \<Longrightarrow> passes q (ns @ ms) s t"
  unfolding passes_def using in_order_weaken by fastforce

lemma passes_trans:
  assumes "passes q ns s t" "fs t q = last (fs s q # ns)" "passes q ms t u"
  shows "passes q (ns @ ms) s u"
proof -
  from assms(1,3) obtain h k where c: "cwd u = cwd s" and h: "hist t = hist s @ h"
    "in_order (map (\<lambda>f. f q) (h @ [fs t])) (fs s q # ns)" and k: "hist u = hist t @ k"
    "in_order (map (\<lambda>f. f q) (k @ [fs u])) (fs t q # ms)"
    by (auto simp: passes_def)
  have pre: "fs s q # ns = butlast (fs s q # ns) @ [fs t q]" using assms(2) by simp
  have "in_order (map (\<lambda>f. f q) h @ map (\<lambda>f. f q) (k @ [fs u])) ((fs s q # ns) @ fs t q # ms)"
    using h(2) by (intro in_order_append k(2)) (auto dest: in_order_prefix)
  then have "in_order (map (\<lambda>f. f q) (h @ k @ [fs u])) (butlast (fs s q # ns) @ fs t q # fs t q # ms)"
    by (subst (asm) pre) simp
  then have "in_order (map (\<lambda>f. f q) (h @ k @ [fs u])) (butlast (fs s q # ns) @ fs t q # ms)"
    by (rule in_order_dup)
  then have "in_order (map (\<lambda>f. f q) ((h @ k) @ [fs u])) ((butlast (fs s q # ns) @ [fs t q]) @ ms)" by simp
  then have "in_order (map (\<lambda>f. f q) ((h @ k) @ [fs u])) (fs s q # ns @ ms)"
    unfolding pre [symmetric] by simp
  with c h(1) k(1) show ?thesis unfolding passes_def by auto
qed

section \<open>The state files of the container process\<close>

definition shown :: "State \<Rightarrow> node option" where
  "shown st = Some (Regular (print st))"

text \<open>The stages that do not touch any file.\<close>

lemma collect_quiet: "obeys untouched (collect_namespaces E ds fl :: (ns_flags option, 'w) prog)"
proof (induction ds arbitrary: fl)
  case (Cons d ds)
  have "obeys untouched (UpdateFlags E F P fl :: (ns_flags option, 'w) prog)" for F P fl
    unfolding UpdateFlags_def by (intro looking.cond looking.bind looking.return quiet_calls)
  moreover have "obeys untouched (case r of None \<Rightarrow> returnP None
      | Some fl' \<Rightarrow> (collect_namespaces E ds fl' :: (ns_flags option, 'w) prog))" for r
    using Cons by (cases r) (simp_all add: looking.return)
  ultimately have "obeys untouched (bindP (UpdateFlags E F (NsPath d) fl) (\<lambda>r.
      case r of None \<Rightarrow> returnP None | Some fl' \<Rightarrow> (collect_namespaces E ds fl' :: (ns_flags option, 'w) prog)))" for F
    by (rule looking.bind)
  with Cons show ?case
    by (simp add: looking.ub split: option.split)
qed (simp add: looking.return)

lemma join_quiet: "obeys untouched (join_namespaces E js b)"
proof (induction js arbitrary: b)
  case (Cons j js)
  then show ?case
    by (cases j) (auto intro!: looking.bind looking.return quiet_calls)
qed (simp add: looking.return)

lemma namespaces_quiet: "obeys untouched (enter_namespaces E ds)"
  unfolding enter_namespaces_def
  by (intro looking.bind looking.opt looking.return collect_quiet)
    (auto intro!: looking.bind looking.return looking.cond quiet_calls join_quiet split: prod.split)

lemma cgroup_quiet: "obeys untouched (enter_cgroup fuel L Cid st)"
  by (auto simp: obeys_def enter_cgroup_def untouched_def split: option.split prod.split)

lemma await_quiet: "obeys untouched (await_start E fd)"
  unfolding await_start_def
  by (intro looking.cond looking.bind looking.return looking.ub quiet_calls)

lemmas stage_quiet = namespaces_quiet cgroup_quiet await_quiet quiet_calls

lemma quiet_stay:
  "obeys untouched m \<Longrightarrow> m s = Ret a t \<Longrightarrow> passes q [] s t \<and> fs t q = fs s q \<and> cwd t = cwd s"
  using obeys_Ret [of untouched m s a t] passes_stay [of q s t] by (auto simp: seen_untouched untouched_def)

text \<open>What is assumed of the program in the container: it does not write to the place of the state file.\<close>

definition leaves_alone :: "(string list) \<Rightarrow> ('a, 'w) prog \<Rightarrow> bool" where
  "leaves_alone q m \<longleftrightarrow> obeys (shows_only q {}) m"

lemma leaves_stay:
  "leaves_alone q m \<Longrightarrow> m s = Ret a t \<Longrightarrow> passes q [] s t \<and> fs t q = fs s q \<and> cwd t = cwd s"
  using obeys_Ret [of "shows_only q {}" m s a t] passes_stay [of q s t]
  by (auto simp: leaves_alone_def shows_only_def)

lemma write_state_passes:
  assumes "suffix_law E" "full_writes E" "write_state fuel E F st s = Ret ok t"
  shows "passes (resolve (cwd s) F) (if ok then [shown st] else []) s t \<and> cwd t = cwd s \<and>
    fs t (resolve (cwd s) F) = (if ok then shown st else fs s (resolve (cwd s) F))"
proof (cases ok)
  case True
  with assms(3) have "atomicUpdateFile fuel E F (print st) s = Ret True t" by (simp add: write_state_def)
  from passes_switch [OF update.switched [OF assms(1,2) this]] True show ?thesis
    by (auto simp: shown_def dest: passes_cwd)
next
  case False
  with assms(3) have "atomicUpdateFile fuel E F (print st) s = Ret False t" by (simp add: write_state_def)
  from passes_stay [OF update.refused [OF assms(1) this]] False show ?thesis by (auto dest: passes_cwd)
qed

text \<open>Sequencing: a stage that stays, and one that ends at a new node.\<close>

lemma passes_after_stay:
  "passes q [] s t \<Longrightarrow> fs t q = fs s q \<Longrightarrow> passes q ns t u \<Longrightarrow> passes q ns s u"
  using passes_trans [of q "[]" s t ns u] by simp

lemma passes_after_switch:
  "passes q [v] s t \<Longrightarrow> fs t q = v \<Longrightarrow> passes q ns t u \<Longrightarrow> passes q (v # ns) s u"
  using passes_trans [of q "[v]" s t ns u] by simp

lemma passes_nil: "passes q [] s t \<Longrightarrow> passes q ns s t"
  using passes_weaken [of q "[]" s t ns] by simp

text \<open>The codes a container may stop with: one the program delivered, or the one for a failure.\<close>

definition code_of :: "'w wasmedge \<Rightarrow> vm_config \<Rightarrow> int \<Rightarrow> bool" where
  "code_of W cfg c \<longleftrightarrow> c = EXIT_FAILURE \<or> (\<exists>u v. vm_execute W cfg ''_start'' u = Ret (Some c) v)"

lemma run_to_end_passes:
  assumes law: "suffix_law E" "full_writes E" and q: "q = resolve (cwd s) F"
    and alone: "leaves_alone q (vm_execute W cfg ''_start'')"
    and run: "run_to_end fuel E W cfg st F s = Ret code t"
  shows "\<exists>n1 n2 c. code_of W cfg c \<and>
    passes q [shown (setRunning n1 st), shown (setStopped n2 c (setRunning n1 st))] s t \<and>
    (code \<noteq> EXIT_FAILURE \<longrightarrow> c = code \<and> fs t q = shown (setStopped n2 c (setRunning n1 st)))"
proof -
  let ?r = "setRunning (now E (tick s)) st"
  from run obtain ok s1 where w: "write_state fuel E F ?r s = Ret ok s1"
    and rest: "(if \<not> ok then returnP EXIT_FAILURE else
      bindP (vm_execute W cfg ''_start'') (\<lambda>Res. bindP (time_now E) (\<lambda>Now.
        let Code = (case Res of Some c \<Rightarrow> c | None \<Rightarrow> EXIT_FAILURE); st = setStopped Now Code ?r in
        bindP (write_state fuel E F st) (\<lambda>ok. if \<not> ok then returnP EXIT_FAILURE else returnP Code)))) s1 = Ret code t"
    by (auto simp: run_to_end_def bindP_Ret_iff time_now_def Let_def)
  note W1 = write_state_passes [OF law w, folded q]
  show ?thesis
  proof (cases ok)
    case False
    with rest have "code = EXIT_FAILURE" "t = s1" by (simp_all add: returnP_Ret_iff)
    moreover have "passes q ns s s1" for ns using W1 False passes_nil [of q s s1 ns] by simp
    ultimately show ?thesis by (auto simp: code_of_def)
  next
    case True
    with rest obtain Res s2 ok2 where x: "vm_execute W cfg ''_start'' s1 = Ret Res s2"
      and w2: "write_state fuel E F (setStopped (now E (tick s2)) (case Res of Some c \<Rightarrow> c | None \<Rightarrow> EXIT_FAILURE) ?r) s2
        = Ret ok2 t"
      and code: "code = (if ok2 then (case Res of Some c \<Rightarrow> c | None \<Rightarrow> EXIT_FAILURE) else EXIT_FAILURE)"
      by (auto simp: bindP_Ret_iff time_now_def Let_def returnP_Ret_iff split: if_splits)
    let ?z = "setStopped (now E (tick s2)) (case Res of Some c \<Rightarrow> c | None \<Rightarrow> EXIT_FAILURE) ?r"
    note X = leaves_stay [OF alone x]
    have q2: "q = resolve (cwd s2) F" using q W1 X by simp
    note W2 = write_state_passes [OF law w2, folded q2]
    have "passes q [shown ?z] s1 t"
      using passes_after_stay [of q s1 s2 "[shown ?z]" t] X W2 passes_nil [of q s2 t]
      by (cases ok2) simp_all
    then have "passes q [shown ?r, shown ?z] s t"
      using passes_after_switch [of q "shown ?r" s s1 "[shown ?z]" t] W1 True by simp
    moreover have "code \<noteq> EXIT_FAILURE \<longrightarrow>
        (case Res of Some c \<Rightarrow> c | None \<Rightarrow> EXIT_FAILURE) = code \<and> fs t q = shown ?z"
      using code W2 by (cases ok2) simp_all
    moreover have "code_of W cfg (case Res of Some c \<Rightarrow> c | None \<Rightarrow> EXIT_FAILURE)"
      using x by (cases Res) (auto simp: code_of_def)
    ultimately show ?thesis by blast
  qed
qed

text \<open>The pid file is written elsewhere.\<close>

definition apart :: "env \<Rightarrow> string list \<Rightarrow> string \<Rightarrow> string list \<Rightarrow> bool" where
  "apart E d p q \<longleftrightarrow> q \<noteq> resolve d p \<and> foreign E d p q"

lemma pid_file_stay:
  assumes "suffix_law E" "apart E (cwd s) P q" "write_pid_file fuel E P s = Ret ok t"
  shows "passes q [] s t \<and> fs t q = fs s q \<and> cwd t = cwd s"
proof -
  from assms(3) have "atomicCreateAndWriteFile fuel E P (show_int (mypid E)) s = Ret ok t"
    by (simp add: write_pid_file_def)
  from create.elsewhere [OF assms(1) this, of q] assms(2) have "shows_only q {} s t" by (simp add: apart_def)
  with passes_stay [OF this] passes_cwd show ?thesis by blast
qed

lemma stage_cond:
  "(if \<not> ok then returnP c else m) s = Ret code t \<longleftrightarrow>
     (\<not> ok \<and> code = c \<and> t = s) \<or> (ok \<and> m s = Ret code t)"
  by (auto simp: returnP_Ret_iff)

text \<open>
  A stage of the process that stays at the node: the process fails there, or goes on. \<open>G\<close> is any
  statement about the way from one state to another that a stay in front does not change.
\<close>

lemma stage_cases:
  assumes run: "bindP m (\<lambda>ok. if \<not> ok then returnP c else k) s = Ret code t"
    and stay: "\<And>ok s'. m s = Ret ok s' \<Longrightarrow> passes q [] s s' \<and> fs s' q = fs s q \<and> cwd s' = cwd s"
    and fail: "\<And>s'. code = c \<Longrightarrow> passes q [] s s' \<Longrightarrow> G s s'"
    and lift: "\<And>s'. passes q [] s s' \<Longrightarrow> fs s' q = fs s q \<Longrightarrow> G s' t \<Longrightarrow> G s t"
    and rest: "\<And>s'. m s = Ret True s' \<Longrightarrow> k s' = Ret code t \<Longrightarrow> cwd s' = cwd s \<Longrightarrow> G s' t"
  shows "G s t"
proof -
  from run obtain ok s' where m: "m s = Ret ok s'"
    and k: "(\<not> ok \<and> code = c \<and> t = s') \<or> (ok \<and> k s' = Ret code t)"
    by (auto simp: bindP_Ret_iff stage_cond)
  note st = stay [OF m]
  from k show ?thesis
  proof
    assume "\<not> ok \<and> code = c \<and> t = s'"
    with st fail show ?thesis by blast
  next
    assume "ok \<and> k s' = Ret code t"
    with rest [of s'] lift [of s'] m st show ?thesis by auto
  qed
qed

definition lifecycle :: "int \<Rightarrow> State \<Rightarrow> int \<Rightarrow> int \<Rightarrow> int \<Rightarrow> int \<Rightarrow> State list" where
  "lifecycle pid st n1 n2 n3 c =
     (let created = setCreated n1 pid st; running = setRunning n2 created
      in [created, running, setStopped n3 c running])"

lemma lifecycle_fun:
  "lifecycle pid st n = (\<lambda>a b c. [setCreated n pid st, setRunning a (setCreated n pid st),
     setStopped b c (setRunning a (setCreated n pid st))])"
  by (simp add: fun_eq_iff lifecycle_def Let_def)

text \<open>The statement about the whole process, from a state in which \<open>ns\<close> is still to come.\<close>

definition completes ::
  "'w wasmedge \<Rightarrow> vm_config \<Rightarrow> string list \<Rightarrow> int \<Rightarrow> (int \<Rightarrow> int \<Rightarrow> int \<Rightarrow> State list) \<Rightarrow> 'w os \<Rightarrow> 'w os \<Rightarrow> bool" where
  "completes W cfg q code sts s t \<longleftrightarrow> (\<exists>n2 n3 c. code_of W cfg c \<and> passes q (map shown (sts n2 n3 c)) s t \<and>
     (code \<noteq> EXIT_FAILURE \<longrightarrow> c = code \<and> fs t q = shown (last (sts n2 n3 c))))"

lemma completes_fail: "code = EXIT_FAILURE \<Longrightarrow> passes q [] s t \<Longrightarrow> completes W cfg q code sts s t"
  unfolding completes_def code_of_def using passes_nil by fastforce

lemma completes_lift:
  "passes q [] s s' \<Longrightarrow> fs s' q = fs s q \<Longrightarrow> completes W cfg q code sts s' t \<Longrightarrow> completes W cfg q code sts s t"
  unfolding completes_def using passes_after_stay by blast

lemma completes_switch:
  assumes "passes q [shown st] s s'" "fs s' q = shown st" "completes W cfg q code sts s' t" "\<And>a b c. sts a b c \<noteq> []"
  shows "completes W cfg q code (\<lambda>a b c. st # sts a b c) s t"
  using assms passes_after_switch [of q "shown st" s s'] unfolding completes_def by fastforce

lemma run_to_end_completes:
  assumes "suffix_law E" "full_writes E" "q = resolve (cwd s) F" "leaves_alone q (vm_execute W cfg ''_start'')"
    "run_to_end fuel E W cfg st F s = Ret code t"
  shows "completes W cfg q code (\<lambda>a b c. [setRunning a st, setStopped b c (setRunning a st)]) s t"
  using run_to_end_passes [OF assms] by (auto simp: completes_def)

lemma created_completes:
  assumes law: "suffix_law E" "full_writes E" and q: "q = resolve (cwd s) F"
    and alone: "leaves_alone q (vm_execute W cfg ''_start'')"
    and run: "bindP (write_state fuel E F st) (\<lambda>ok. if \<not> ok then returnP EXIT_FAILURE else
       bindP (await_start E fd) (\<lambda>ok. if \<not> ok then returnP EXIT_FAILURE else
       run_to_end fuel E W cfg st F)) s = Ret code t"
  shows "completes W cfg q code (\<lambda>a b c. [st, setRunning a st, setStopped b c (setRunning a st)]) s t"
proof -
  from run obtain ok s1 where w: "write_state fuel E F st s = Ret ok s1"
    and k: "\<not> ok \<and> code = EXIT_FAILURE \<and> t = s1 \<or> ok \<and> bindP (await_start E fd) (\<lambda>ok.
      if \<not> ok then returnP EXIT_FAILURE else run_to_end fuel E W cfg st F) s1 = Ret code t"
    by (auto simp: bindP_Ret_iff stage_cond)
  note W1 = write_state_passes [OF law w, folded q]
  show ?thesis
  proof (cases ok)
    case False
    with k W1 show ?thesis by (auto intro: completes_fail)
  next
    case True
    with k have await: "bindP (await_start E fd) (\<lambda>ok.
      if \<not> ok then returnP EXIT_FAILURE else run_to_end fuel E W cfg st F) s1 = Ret code t" by simp
    from W1 q have q1: "q = resolve (cwd s1) F" by simp
    from await have "completes W cfg q code (\<lambda>a b c. [setRunning a st, setStopped b c (setRunning a st)]) s1 t"
    proof (rule stage_cases)
      fix s' assume "run_to_end fuel E W cfg st F s' = Ret code t" "cwd s' = cwd s1"
      then show "completes W cfg q code (\<lambda>a b c. [setRunning a st, setStopped b c (setRunning a st)]) s' t"
        by (intro run_to_end_completes [OF law _ alone]) (simp_all add: q1)
    qed (erule quiet_stay [OF await_quiet] | erule (1) completes_fail | erule (2) completes_lift)+
    from completes_switch [OF _ _ this] W1 True show ?thesis by simp
  qed
qed

lemma container_process_completes:
  assumes law: "suffix_law E" "full_writes E" and q: "q = resolve (cwd s) F" and pid: "apart E (cwd s) P q"
    and alone: "leaves_alone q (vm_execute W cfg ''_start'')"
    and run: "container_process fuel E L W cfg Cid P st F fd s = Ret code t"
  shows "\<exists>n1. completes W cfg q code (lifecycle (mypid E) st n1) s t"
  using run unfolding container_process_def
proof (rule stage_cases [where G = "\<lambda>s t. \<exists>n1. completes W cfg q code (lifecycle (mypid E) st n1) s t"])
  fix s1 assume cwd1: "cwd s1 = cwd s"
    and run1: "bindP (time_now E) (\<lambda>Now. let st = setCreated Now (mypid E) st in
       bindP (enter_namespaces E (Namespaces (Config st))) (\<lambda>ok. if \<not> ok then returnP EXIT_FAILURE else
       bindP (enter_cgroup fuel L Cid st) (\<lambda>ok. if \<not> ok then returnP EXIT_FAILURE else
       bindP (write_state fuel E F st) (\<lambda>ok. if \<not> ok then returnP EXIT_FAILURE else
       bindP (await_start E fd) (\<lambda>ok. if \<not> ok then returnP EXIT_FAILURE else
       run_to_end fuel E W cfg st F))))) s1 = Ret code t"
  define n where "n = now E (tick s1)"
  let ?st = "setCreated n (mypid E) st"
  from run1 have "bindP (enter_namespaces E (Namespaces (Config ?st))) (\<lambda>ok. if \<not> ok then returnP EXIT_FAILURE else
       bindP (enter_cgroup fuel L Cid ?st) (\<lambda>ok. if \<not> ok then returnP EXIT_FAILURE else
       bindP (write_state fuel E F ?st) (\<lambda>ok. if \<not> ok then returnP EXIT_FAILURE else
       bindP (await_start E fd) (\<lambda>ok. if \<not> ok then returnP EXIT_FAILURE else
       run_to_end fuel E W cfg ?st F)))) s1 = Ret code t"
    unfolding n_def Let_def by (subst (asm) bindP_def) (simp add: time_now_def)
  then have "completes W cfg q code (lifecycle (mypid E) st n) s1 t"
  proof (rule stage_cases)
    fix s2 assume cwd2: "cwd s2 = cwd s1" and "bindP (enter_cgroup fuel L Cid ?st) (\<lambda>ok. if \<not> ok then returnP EXIT_FAILURE else
       bindP (write_state fuel E F ?st) (\<lambda>ok. if \<not> ok then returnP EXIT_FAILURE else
       bindP (await_start E fd) (\<lambda>ok. if \<not> ok then returnP EXIT_FAILURE else
       run_to_end fuel E W cfg ?st F))) s2 = Ret code t"
    from this(2) show "completes W cfg q code (lifecycle (mypid E) st n) s2 t"
    proof (rule stage_cases)
      fix s3 assume "cwd s3 = cwd s2" and rest: "bindP (write_state fuel E F ?st) (\<lambda>ok. if \<not> ok then returnP EXIT_FAILURE else
         bindP (await_start E fd) (\<lambda>ok. if \<not> ok then returnP EXIT_FAILURE else
         run_to_end fuel E W cfg ?st F)) s3 = Ret code t"
      then have "q = resolve (cwd s3) F" using q cwd1 cwd2 by simp
      from created_completes [OF law this alone rest] show "completes W cfg q code (lifecycle (mypid E) st n) s3 t"
        unfolding lifecycle_fun .
    qed (erule quiet_stay [OF cgroup_quiet] | erule (1) completes_fail | erule (2) completes_lift)+
  qed (erule quiet_stay [OF namespaces_quiet] | erule (1) completes_fail | erule (2) completes_lift)+
  then show "\<exists>n1. completes W cfg q code (lifecycle (mypid E) st n1) s1 t" by blast
qed (erule pid_file_stay [OF law(1) pid] | blast intro: completes_fail completes_lift)+

section \<open>The whole of \<^verbatim>\<open>doRunInternal\<close>\<close>

text \<open>Creating directories does not touch what exists.\<close>

lemma seen_create_directories:
  assumes "create_directories E p s = Ret b t" "fs s q \<noteq> None"
  shows "shows_only q {} s t"
proof -
  let ?ds = "missing_dirs (fs s) (resolve (cwd s) p)"
  have q: "q \<notin> set (take k ?ds)" for k
    using assms(2) by (auto simp: missing_dirs_def dest: in_set_takeD)
  have dirs: "shows_only q {} s (make_dirs (take k ?ds) (s\<lparr>tick := Suc (tick s)\<rparr>))" for k
  proof -
    let ?t = "make_dirs (take k ?ds) (s\<lparr>tick := Suc (tick s)\<rparr>)"
    obtain h where h: "hist ?t = hist (s\<lparr>tick := Suc (tick s)\<rparr>) @ h"
      "\<forall>f \<in> set h. \<exists>j. f = (\<lambda>d. if d \<in> set (take j (take k ?ds)) then Some Dir else fs (s\<lparr>tick := Suc (tick s)\<rparr>) d)"
      using make_dirs_hist [of "take k ?ds" "s\<lparr>tick := Suc (tick s)\<rparr>"] by blast
    have "f q = fs s q" if "f \<in> set h" for f
    proof -
      from h(2) that obtain j where
        "f = (\<lambda>d. if d \<in> set (take j (take k ?ds)) then Some Dir else fs (s\<lparr>tick := Suc (tick s)\<rparr>) d)" by blast
      with q show ?thesis by simp
    qed
    with h(1) q show ?thesis by (auto simp: shows_only_def make_dirs_fs)
  qed
  from dirs dirs [of "length ?ds"] assms(1) show ?thesis
    by (auto simp: create_directories_def pop_def Let_def shows_same split: if_splits)
qed

text \<open>What is assumed of WasmEdge: none of its operations writes to the place of the state file.\<close>

definition engine_confined :: "'w wasmedge \<Rightarrow> string list \<Rightarrow> bool" where
  "engine_confined W q \<longleftrightarrow>
     (\<forall>p. leaves_alone q (loadFile W p)) \<and> (\<forall>cfg p. leaves_alone q (vm_loadWasm W cfg p)) \<and>
     (\<forall>cfg. leaves_alone q (vm_validate W cfg)) \<and> (\<forall>cfg. leaves_alone q (vm_instantiate W cfg)) \<and>
     (\<forall>cfg f. leaves_alone q (vm_execute W cfg f))"

lemma vm_start_stay:
  "engine_confined W q \<Longrightarrow> leaves_alone q (vm_start W cfg so)"
  unfolding vm_start_def engine_confined_def leaves_alone_def
  by (intro seen.bind seen.cond seen.return) auto

lemma compile_stay:
  assumes "compile_module E W d so s = Ret r t" "fs s q \<noteq> None"
  shows "shows_only q {} s t"
proof -
  from assms(1) obtain b s1 where c: "create_directories E (parent_path so) s = Ret b s1"
    and rest: "bindP (sys E Fork) (\<lambda>CompilerPid.
       if CompilerPid < 0 then returnP None
       else if CompilerPid = 0 then compiler_child W d so
       else bindP (sys E (WaitPid CompilerPid)) (\<lambda>Result.
           if Result < 0 then ubP else bindP (last_data E) (\<lambda>St.
             if wexitstatus St \<noteq> EXIT_SUCCESS then returnP None else returnP (Some so)))) s1 = Ret r t"
    unfolding compile_module_def by (subst (asm) bindP_Ret_iff) auto
  have child: "compiler_child W d so u \<noteq> Ret r t" for u
    by (auto simp: compiler_child_def exitP_def bindP_def split: result.splits if_splits)
  have "untouched s1 t"
    using rest child
    by (auto simp: bindP_def sys_def returnP_def ubP_def last_data_def untouched_def split: if_splits)
  with seen_create_directories [OF c assms(2)] seen_untouched show ?thesis by (blast intro: seen.trans)
qed

lemma cached_module_stay:
  assumes "engine_confined W q" "fs s q \<noteq> None" "cached_module E W Cid p s = Ret r t"
  shows "shows_only q {} s t"
proof -
  from assms(3) obtain d s1 where l: "loadFile W p s = Ret d s1"
    and rest: "(case d of None \<Rightarrow> returnP None
       | Some Data \<Rightarrow> (case cache_getPath W Data Cid of None \<Rightarrow> returnP None
          | Some P \<Rightarrow> (let so = replace_extension P ''.so'' in
               bindP (is_regular_file_throwing E so) (\<lambda>b.
                 if b then returnP (Some so) else compile_module E W Data so)))) s1 = Ret r t"
    unfolding cached_module_def by (auto simp: bindP_Ret_iff)
  have first: "shows_only q {} s s1"
    using assms(1) l obeys_Ret by (fastforce simp: engine_confined_def leaves_alone_def)
  then have q1: "fs s1 q \<noteq> None" using assms(2) by (auto simp: shows_only_def)
  have "shows_only q {} s1 t"
  proof (cases "d = None \<or> cache_getPath W (the d) Cid = None")
    case True
    with rest have "t = s1" by (cases d) (auto simp: returnP_Ret_iff)
    then show ?thesis by (simp add: seen.refl)
  next
    case False
    then obtain D P where "d = Some D" "cache_getPath W D Cid = Some P" by auto
    with rest obtain b s2 where ir: "is_regular_file_throwing E (replace_extension P ''.so'') s1 = Ret b s2"
      and go: "(if b then returnP (Some (replace_extension P ''.so'')) else compile_module E W D (replace_extension P ''.so'')) s2 = Ret r t"
      by (auto simp: bindP_Ret_iff Let_def)
    have u: "untouched s1 s2" using obeys_Ret [OF quiet_calls(6) ir] .
    then have "fs s2 q \<noteq> None" using q1 by (simp add: untouched_def)
    then have "shows_only q {} s2 t"
      using go compile_stay [of E W D _ s2 r t q] by (cases b) (simp_all add: returnP_Ret_iff seen.refl)
    with seen_untouched [OF u] show ?thesis by (rule seen.trans)
  qed
  with first show ?thesis by (rule seen.trans)
qed

lemma doRunInternal_passes:
  assumes law: "suffix_law E" "full_writes E" and q: "q = resolve (cwd s) F" "fs s q \<noteq> None"
    and pid: "apart E (cwd s) P q" and W: "engine_confined W q"
    and run: "doRunInternal fuel E L W Cid P st F fd s = Ret code t"
  shows "\<exists>n1 n2 n3 c. code_of W (wasm_setup (Config st)) c \<and>
    passes q (map shown (lifecycle (mypid E) st n1 n2 n3 c)) s t"
proof -
  let ?cfg = "wasm_setup (Config st)"
  from run obtain so s1 where cm: "cached_module E W Cid (wasi_program ?cfg) s = Ret so s1"
    and rest: "(case so of None \<Rightarrow> returnP EXIT_FAILURE | Some SoPath \<Rightarrow>
      bindP (vm_start W ?cfg SoPath) (\<lambda>ok. if \<not> ok then returnP EXIT_FAILURE else
      bindP (sys E Fork) (\<lambda>WasmPid. if WasmPid < 0 then returnP EXIT_FAILURE
        else if WasmPid > 0 then returnP EXIT_SUCCESS
        else container_process fuel E L W ?cfg Cid P st F fd))) s1 = Ret code t"
    by (auto simp: doRunInternal_def Let_def bindP_Ret_iff ubP_def split: if_splits)
  have C: "shows_only q {} s s1" by (rule cached_module_stay [OF W q(2) cm])
  show ?thesis
  proof (cases so)
    case None
    with rest C have "passes q [] s t" by (auto simp: returnP_Ret_iff dest!: passes_stay)
    then show ?thesis using passes_nil unfolding code_of_def by blast
  next
    case (Some SoPath)
    with rest obtain ok s2 where v: "vm_start W ?cfg SoPath s1 = Ret ok s2"
      and go: "\<not> ok \<and> code = EXIT_FAILURE \<and> t = s2 \<or> ok \<and>
        bindP (sys E Fork) (\<lambda>WasmPid. if WasmPid < 0 then returnP EXIT_FAILURE
        else if WasmPid > 0 then returnP EXIT_SUCCESS
        else container_process fuel E L W ?cfg Cid P st F fd) s2 = Ret code t"
      by (auto simp: bindP_Ret_iff stage_cond)
    let ?s3 = "s2\<lparr>tick := Suc (tick s2), calls := calls s2 @ [Fork]\<rparr>"
    have "shows_only q {} s1 s2" using vm_start_stay [OF W] v obeys_Ret by (fastforce simp: leaves_alone_def)
    with C have "shows_only q {} s s2" by (rule seen.trans)
    moreover from this have "shows_only q {} s ?s3" by (simp add: shows_only_def)
    ultimately have S: "passes q [] s s2" "passes q [] s ?s3" "fs ?s3 q = fs s q" "cwd ?s3 = cwd s"
      using passes_stay [of q s s2] passes_stay [of q s ?s3] passes_cwd [of q "[]" s ?s3] by simp_all
    show ?thesis
    proof (cases "ok \<and> ret E (tick s2) = 0")
      case True
      with go have run3: "container_process fuel E L W ?cfg Cid P st F fd ?s3 = Ret code t"
        by (simp add: bindP_def sys_def)
      have "leaves_alone q (vm_execute W ?cfg ''_start'')" using W by (simp add: engine_confined_def)
      from container_process_completes [OF law _ _ this run3] q(1) pid S(4)
      obtain n1 where "completes W ?cfg q code (lifecycle (mypid E) st n1) ?s3 t" by auto
      then obtain n2 n3 c where c: "code_of W ?cfg c" and "passes q (map shown (lifecycle (mypid E) st n1 n2 n3 c)) ?s3 t"
        by (auto simp: completes_def)
      from passes_after_stay [OF S(2,3) this(2)] c show ?thesis by blast
    next
      case False
      with go have "t = s2 \<or> t = ?s3"
        by (auto simp: bindP_def sys_def returnP_def split: if_splits)
      with S(1,2) have "passes q [] s t" by auto
      then show ?thesis using passes_nil unfolding code_of_def by blast
    qed
  qed
qed

end
