(* ===== verification/Namespaces.thy ===== *)
theory Namespaces
  imports Runner_Laws
begin

text \<open>
  The namespaces of the container process (lines 443 to 535 of \<^verbatim>\<open>runw.cpp\<close>): which flags are unshared,
  which namespaces are joined, and in which order the calls are made.
\<close>

unbundle bit_operations_syntax

definition ns_flag_list :: "32 word list" where
  "ns_flag_list = [CLONE_NEWTIME, CLONE_NEWNS, CLONE_NEWCGROUP, CLONE_NEWUTS, CLONE_NEWIPC, CLONE_NEWUSER,
     CLONE_NEWPID, CLONE_NEWNET]"

lemmas clone_defs = CLONE_NEWTIME_def CLONE_NEWNS_def CLONE_NEWCGROUP_def CLONE_NEWUTS_def
  CLONE_NEWIPC_def CLONE_NEWUSER_def CLONE_NEWPID_def CLONE_NEWNET_def

lemma flag_known: "namespace_flag ty = Some F \<Longrightarrow> F \<in> set ns_flag_list"
  by (auto simp: namespace_flag_def ns_flag_list_def Let_def split: if_splits)

text \<open>The switch is a table lookup, and different types have different flags.\<close>

lemma namespace_flag_table:
  "namespace_flag ty = map_of [(''cgroup'', CLONE_NEWCGROUP), (''ipc'', CLONE_NEWIPC), (''mount'', CLONE_NEWNS),
     (''network'', CLONE_NEWNET), (''pid'', CLONE_NEWPID), (''time'', CLONE_NEWTIME), (''uts'', CLONE_NEWUTS),
     (''user'', CLONE_NEWUSER)] ty"
  by (auto simp: namespace_flag_def Let_def)

lemma flag_inject: "namespace_flag a = Some F \<Longrightarrow> namespace_flag b = Some F \<Longrightarrow> a = b"
  unfolding namespace_flag_table by (simp add: clone_defs split: if_splits)

text \<open>Each flag is one bit of its own.\<close>

lemma flags_disjoint:
  assumes "F \<in> set ns_flag_list" "G \<in> set ns_flag_list"
  shows "G AND F = (if F = G then F else 0)" "F \<noteq> 0"
proof -
  have "list_all (\<lambda>F. F \<noteq> 0 \<and> list_all (\<lambda>G. G AND F = (if F = G then F else 0)) ns_flag_list) ns_flag_list"
    by (simp add: ns_flag_list_def clone_defs)
  with assms show "G AND F = (if F = G then F else 0)" "F \<noteq> 0" by (auto simp: list_all_iff)
qed

definition asks_unshare :: "namespace_desc list \<Rightarrow> 32 word \<Rightarrow> bool" where
  "asks_unshare ds F \<longleftrightarrow> (\<exists>d \<in> set ds. namespace_flag (NsType d) = Some F \<and> NsPath d = [])"

definition joined :: "namespace_desc list \<Rightarrow> namespace_desc list" where
  "joined ds = filter (\<lambda>d. namespace_flag (NsType d) \<noteq> None \<and> NsPath d \<noteq> []) ds"

lemma or_flag:
  assumes "F \<in> set ns_flag_list" "G \<in> set ns_flag_list"
  shows "(u OR G) AND F \<noteq> 0 \<longleftrightarrow> u AND F \<noteq> 0 \<or> F = G"
  using flags_disjoint [OF assms] by (auto simp: bit.conj_disj_distrib2)

lemma collect_Ret:
  assumes "collect_namespaces E ds (u, js) s = Ret (Some (u', js')) t"
  shows "(\<forall>F \<in> set ns_flag_list. u' AND F \<noteq> 0 \<longleftrightarrow> u AND F \<noteq> 0 \<or> asks_unshare ds F) \<and>
    (\<exists>fds. length fds = length (joined ds) \<and>
       js' = js @ map2 (\<lambda>fd d. (fd, the (namespace_flag (NsType d)))) fds (joined ds)) \<and>
    calls t = calls s @ map (\<lambda>d. OpenFd (NsPath d)) (joined ds)"
  using assms
proof (induction ds arbitrary: u js s)
  case (Cons d ds)
  from Cons.prems have ty: "NsType d \<noteq> []" by (auto simp: ubP_def)
  show ?case
  proof (cases "namespace_flag (NsType d)")
    case None
    with Cons.prems ty have "collect_namespaces E ds (u, js) s = Ret (Some (u', js')) t" by simp
    from Cons.IH [OF this] None show ?thesis by (auto simp: asks_unshare_def joined_def)
  next
    case (Some G)
    note G = flag_known [OF Some]
    show ?thesis
    proof (cases "NsPath d = []")
      case True
      with Cons.prems ty Some have "collect_namespaces E ds (u OR G, js) s = Ret (Some (u', js')) t"
        by (simp add: UpdateFlags_def bindP_def returnP_def)
      from Cons.IH [OF this] Some True G show ?thesis by (auto simp: asks_unshare_def joined_def or_flag)
    next
      case False
      with Cons.prems ty Some obtain fd s1 where o1: "open_fd E (NsPath d) s = Ret fd s1"
        and rest: "collect_namespaces E ds (u, js @ [(fd, G)]) s1 = Ret (Some (u', js')) t"
        by (auto simp: UpdateFlags_def bindP_Ret_iff returnP_Ret_iff split: if_splits option.splits)
      from o1 have c1: "calls s1 = calls s @ [OpenFd (NsPath d)]"
        by (auto simp: open_fd_def sys_def)
      from Cons.IH [OF rest] obtain fds where IH: "length fds = length (joined ds)"
        "js' = (js @ [(fd, G)]) @ map2 (\<lambda>fd d. (fd, the (namespace_flag (NsType d)))) fds (joined ds)"
        "calls t = calls s1 @ map (\<lambda>d. OpenFd (NsPath d)) (joined ds)"
        "\<forall>F \<in> set ns_flag_list. u' AND F \<noteq> 0 \<longleftrightarrow> u AND F \<noteq> 0 \<or> asks_unshare ds F"
        by blast
      have j: "joined (d # ds) = d # joined ds" using Some False by (simp add: joined_def)
      have "\<exists>fds. length fds = length (joined (d # ds)) \<and>
          js' = js @ map2 (\<lambda>fd d. (fd, the (namespace_flag (NsType d)))) fds (joined (d # ds))"
        by (rule exI [of _ "fd # fds"]) (simp add: j IH Some)
      moreover have "asks_unshare (d # ds) F = asks_unshare ds F" for F
        using False by (auto simp: asks_unshare_def)
      ultimately show ?thesis using IH c1 j by simp
    qed
  qed
qed (auto simp: returnP_def asks_unshare_def joined_def)

lemma join_calls:
  "join_namespaces E js b s = Ret r t \<Longrightarrow> calls t = calls s @ concat (map (\<lambda>(fd, F). [SetNs fd F, CloseFd fd]) js)"
proof (induction js arbitrary: b s)
  case (Cons j js)
  then show ?case by (cases j) (auto simp: bindP_def sys_def dest!: Cons.IH)
qed (simp add: returnP_def)

definition unshare_step :: "env \<Rightarrow> 32 word \<Rightarrow> (int, 'w) prog" where
  "unshare_step E u = (if u \<noteq> 0 then sys E (Unshare u) else returnP 0)"

lemma unshare_step_calls:
  "unshare_step E u s = Ret r t \<Longrightarrow> calls t = calls s @ (if u = 0 then [] else [Unshare u])"
  by (auto simp: unshare_step_def sys_def returnP_def)

lemma enter_namespaces_calls:
  assumes "enter_namespaces E ds s = Ret True t"
  shows "\<exists>u fds. length fds = length (joined ds) \<and>
    calls t = calls s @ map (\<lambda>d. OpenFd (NsPath d)) (joined ds) @ (if u = 0 then [] else [Unshare u]) @
      concat (map2 (\<lambda>fd d. [SetNs fd (the (namespace_flag (NsType d))), CloseFd fd]) fds (joined ds)) \<and>
    (\<forall>F \<in> set ns_flag_list. u AND F \<noteq> 0 \<longleftrightarrow> asks_unshare ds F)"
proof -
  from assms obtain u js s1 s2 f where c: "collect_namespaces E ds (0, []) s = Ret (Some (u, js)) s1"
    and u: "calls s2 = calls s1 @ (if u = 0 then [] else [Unshare u])"
    and j: "join_namespaces E js False s2 = Ret f t"
    unfolding enter_namespaces_def
    by (auto simp: bindP_Ret_iff returnP_Ret_iff unshare_step_def [symmetric] split: option.splits)
      (metis unshare_step_calls)
  from collect_Ret [OF c] obtain fds where fds: "length fds = length (joined ds)"
    "js = map2 (\<lambda>fd d. (fd, the (namespace_flag (NsType d)))) fds (joined ds)"
    "calls s1 = calls s @ map (\<lambda>d. OpenFd (NsPath d)) (joined ds)"
    "\<forall>F \<in> set ns_flag_list. u AND F \<noteq> 0 \<longleftrightarrow> asks_unshare ds F" by auto
  have eq: "map (\<lambda>(fd, F). [SetNs fd F, CloseFd fd]) js =
      map2 (\<lambda>fd d. [SetNs fd (the (namespace_flag (NsType d))), CloseFd fd]) fds (joined ds)"
    unfolding fds(2) by (simp add: comp_def case_prod_beta)
  have "calls t = calls s @ map (\<lambda>d. OpenFd (NsPath d)) (joined ds) @
      (if u = 0 then [] else [Unshare u]) @
      concat (map2 (\<lambda>fd d. [SetNs fd (the (namespace_flag (NsType d))), CloseFd fd]) fds (joined ds))"
    by (simp only: join_calls [OF j] eq u fds(3) append.assoc)
  with fds(1,4) show ?thesis by blast
qed

end
