(* ===== verification/Runner_Returns.thy ===== *)
theory Runner_Returns
  imports Namespaces
begin

text \<open>
  When the container process returns: in an environment in which no call fails, with a directory for
  the state file, a place for the pid file and a bus that answers, the process runs to its end and
  leaves exactly the pid file and the state file of a stopped container behind.
\<close>

section \<open>Places for files\<close>

text \<open>The file \<open>n\<close> in the directory \<open>d\<close> has the node \<open>v\<close>, and no temporary name for it is taken.\<close>

definition slot :: "env \<Rightarrow> 'w os \<Rightarrow> string \<Rightarrow> string \<Rightarrow> node option \<Rightarrow> bool" where
  "slot E s d n v \<longleftrightarrow> plain_name n \<and> d \<noteq> [] \<and> fs s (resolve (cwd s) d) = Some Dir \<and>
     (\<forall>k. fs s (resolve (cwd s) d @ [n @ draw E k]) = None) \<and> fs s (resolve (cwd s) d @ [n]) = v"

lemma slot_put:
  assumes "calm E"
  shows "slot E s d n None \<Longrightarrow>
      \<exists>t. atomicCreateAndWriteFile (Suc fuel) E (path_append d n) c s = Ret True t \<and>
        put_exactly (resolve (cwd s) d @ [n]) c s t"
    and "slot E s d n (Some (Regular c0)) \<Longrightarrow>
      \<exists>t. atomicUpdateFile (Suc fuel) E (path_append d n) c s = Ret True t \<and>
        put_exactly (resolve (cwd s) d @ [n]) c s t"
  using calm_put [OF assms, of n d s] by (auto simp: slot_def)

lemma draw_nonempty: "calm E \<Longrightarrow> draw E k \<noteq> []"
  by (auto simp: calm_def suffix_law_def dest: spec [of _ k])

lemma slot_written:
  "calm E \<Longrightarrow> slot E s d n v \<Longrightarrow> put_exactly (resolve (cwd s) d @ [n]) c s t \<Longrightarrow> slot E t d n (Some (Regular c))"
  using draw_nonempty by (auto simp: slot_def put_exactly_def)

lemma slot_same: "fs t = fs s \<Longrightarrow> cwd t = cwd s \<Longrightarrow> slot E t d n v = slot E s d n v"
  by (simp add: slot_def)

lemma slot_elsewhere:
  assumes "slot E s d n (Some v)" "put_exactly q c s t" "fs s q = None"
    "\<And>k. q \<noteq> resolve (cwd s) d @ [n @ draw E k]"
  shows "slot E t d n (Some v)"
proof -
  have "q \<noteq> resolve (cwd s) d" "q \<noteq> resolve (cwd s) d @ [n]" using assms(1,3) by (auto simp: slot_def)
  with assms show ?thesis by (auto simp: slot_def put_exactly_def)
qed

section \<open>The stages in a calm environment\<close>

definition same_files :: "'w os \<Rightarrow> 'w os \<Rightarrow> bool" where
  "same_files s t \<longleftrightarrow> fs t = fs s \<and> cwd t = cwd s \<and> bus t = bus s"

definition ns_ready :: "'w os \<Rightarrow> namespace_desc \<Rightarrow> bool" where
  "ns_ready s d \<longleftrightarrow> NsType d \<noteq> [] \<and> (NsPath d = [] \<or> node_of s (NsPath d) \<noteq> None)"

lemma ns_ready_same: "same_files s t \<Longrightarrow> ns_ready t d = ns_ready s d"
  by (simp add: ns_ready_def same_files_def node_of_def)

lemma collect_calm:
  assumes "calm E" "list_all (ns_ready s) ds"
  shows "\<exists>fl' t. collect_namespaces E ds fl s = Ret (Some fl') t \<and> same_files s t"
  using assms(2)
proof (induction ds arbitrary: fl s)
  case (Cons d ds)
  have r: "\<not> ret E (tick s) < 0" using assms(1) by (simp add: calm_def)
  let ?s = "s\<lparr>tick := Suc (tick s), calls := calls s @ [OpenFd (NsPath d)]\<rparr>"
  have same: "same_files s ?s" by (simp add: same_files_def)
  then have "list_all (ns_ready ?s) ds"
    using Cons.prems ns_ready_same [OF same] by (simp add: list_all_iff)
  from Cons.IH [OF this, of "(fst fl, snd fl @ [(ret E (tick s), F)])" for F] same
  have open_ok: "\<exists>fl' t. collect_namespaces E ds (fst fl, snd fl @ [(ret E (tick s), F)]) ?s = Ret (Some fl') t \<and>
      same_files s t" for F
    by (auto simp: same_files_def)
  show ?case
    using Cons.prems Cons.IH [of s] open_ok r
    by (auto simp: ns_ready_def UpdateFlags_def bindP_def returnP_def open_fd_def sys_def split: option.split)
qed (simp add: returnP_def same_files_def)

lemma join_calm:
  assumes "calm E"
  shows "\<exists>t. join_namespaces E js b s = Ret b t \<and> same_files s t"
proof (induction js arbitrary: s)
  case (Cons j js)
  obtain fd F where j: "j = (fd, F)" by (cases j)
  have "\<not> ret E k < 0" for k using assms by (simp add: calm_def)
  moreover obtain t where "join_namespaces E js b (s\<lparr>tick := Suc (Suc (tick s)),
      calls := calls s @ [SetNs fd F, CloseFd fd]\<rparr>) = Ret b t"
    "same_files (s\<lparr>tick := Suc (Suc (tick s)), calls := calls s @ [SetNs fd F, CloseFd fd]\<rparr>) t"
    using Cons by blast
  ultimately show ?case
    by (simp add: j bindP_def sys_def same_files_def)
qed (simp add: returnP_def same_files_def)

lemma namespaces_calm:
  assumes "calm E" "list_all (ns_ready s) ds"
  shows "\<exists>t. enter_namespaces E ds s = Ret True t \<and> same_files s t"
proof -
  from collect_calm [OF assms, of "(0, [])"] obtain u js t1 where
    c: "collect_namespaces E ds (0, []) s = Ret (Some (u, js)) t1" and s1: "same_files s t1"
    by (metis surj_pair)
  let ?t = "if u = 0 then t1 else t1\<lparr>tick := Suc (tick t1), calls := calls t1 @ [Unshare u]\<rparr>"
  obtain t where j: "join_namespaces E js False ?t = Ret False t" and s2: "same_files ?t t"
    using join_calm [OF assms(1)] by blast
  have "same_files s t" using s1 s2 by (auto simp: same_files_def)
  moreover have "enter_namespaces E ds s = Ret True t"
    using c j by (simp add: enter_namespaces_def bindP_def sys_def returnP_def split: if_splits)
  ultimately show ?thesis by blast
qed

lemma await_calm:
  assumes "calm E" "fd < FD_SETSIZE"
  shows "\<exists>t. await_start E fd s = Ret True t \<and> same_files s t"
proof -
  have "\<not> ret E k < 0" for k using assms(1) by (simp add: calm_def)
  with assms(2) show ?thesis
    by (simp add: await_start_def bindP_def returnP_def sys_def same_files_def)
qed

text \<open>\<^verbatim>\<open>CGroup::enter\<close> reads the pid and the cgroups path of the state only.\<close>

lemma enter_time: "enter fuel L Cid (setCreated n pid st) = enter fuel L Cid (setCreated 0 pid st)"
proof -
  have r: "request_scope fuel L Cid (setCreated n pid st) = request_scope fuel L Cid (setCreated 0 pid st)"
    by (intro ext) (simp add: request_scope_def setCreated_def getPid_def)
  have b: "enter_body fuel L Cid (setCreated n pid st) = enter_body fuel L Cid (setCreated 0 pid st)"
    by (intro ext) (simp only: enter_body_def r)
  have "enter_with fuel L Cid (setCreated n pid st) = enter_with fuel L Cid (setCreated 0 pid st)"
    by (intro ext) (simp only: enter_with_def b)
  then show ?thesis by (intro ext) (simp only: enter_def)
qed

lemma cgroup_calm:
  assumes "enter fuel L Cid (setCreated 0 pid st) (bus s) = Some (Inr (), ck, w)" "\<not> CkUB ck"
  shows "enter_cgroup fuel L Cid (setCreated n pid st) s = Ret True (s\<lparr>bus := w\<rparr>)"
  using assms by (simp add: enter_cgroup_def enter_time [of fuel L Cid n])

section \<open>The whole process\<close>

text \<open>What is assumed of the program: it ends with the code \<open>c\<close> and does not touch any file.\<close>

definition program_ends :: "'w wasmedge \<Rightarrow> vm_config \<Rightarrow> int \<Rightarrow> bool" where
  "program_ends W cfg c \<longleftrightarrow> (\<forall>s. \<exists>t. vm_execute W cfg ''_start'' s = Ret (Some c) t \<and> fs t = fs s \<and> cwd t = cwd s)"

lemma run_to_end_calm:
  assumes calm: "calm E" and slot: "slot E s d n (Some (Regular c0))" and ends: "program_ends W cfg c"
  shows "\<exists>t n2 n3. run_to_end (Suc fuel) E W cfg st (path_append d n) s = Ret c t \<and> cwd t = cwd s \<and>
    fs t = (fs s)(resolve (cwd s) d @ [n] := shown (setStopped n3 c (setRunning n2 st)))"
proof -
  let ?F = "path_append d n" and ?q = "resolve (cwd s) d @ [n]"
  let ?r = "setRunning (now E (tick s)) st"
  from slot_put(2) [OF calm slot] obtain s1 where
    w1: "atomicUpdateFile (Suc fuel) E ?F (print ?r) s = Ret True s1" and p1: "put_exactly ?q (print ?r) s s1"
    by blast
  from ends obtain s2 where x: "vm_execute W cfg ''_start'' s1 = Ret (Some c) s2" "fs s2 = fs s1" "cwd s2 = cwd s1"
    unfolding program_ends_def by blast
  let ?z = "setStopped (now E (tick s2)) c ?r"
  have c2: "cwd s2 = cwd s" using x(3) p1 by (simp add: put_exactly_def)
  have "slot E s2 d n (Some (Regular (print ?r)))"
    using slot_written [OF calm slot p1] slot_same [OF x(2,3)] by simp
  from slot_put(2) [OF calm this] obtain s3 where
    w2: "atomicUpdateFile (Suc fuel) E ?F (print ?z) s2 = Ret True s3" and p2: "put_exactly ?q (print ?z) s2 s3"
    unfolding c2 by blast
  have "run_to_end (Suc fuel) E W cfg st ?F s = Ret c s3"
    using w1 w2 x(1) by (simp add: run_to_end_def bindP_def time_now_def write_state_def Let_def returnP_def)
  moreover have "fs s3 = (fs s)(?q := shown ?z)" "cwd s3 = cwd s"
    using p1 p2 x(2) c2 by (simp_all add: put_exactly_def shown_def)
  ultimately show ?thesis by blast
qed

lemma container_process_calm:
  assumes calm: "calm E" and slot: "slot E s d n (Some (Regular c0))" and pid: "slot E s pd pn None"
    and apart: "\<And>k. resolve (cwd s) pd @ [pn] \<noteq> resolve (cwd s) d @ [n @ draw E k]"
    and ns: "list_all (ns_ready s) (Namespaces (Config st))"
    and cg: "enter (Suc fuel) L Cid (setCreated 0 (mypid E) st) (bus s) = Some (Inr (), ck, w)" "\<not> CkUB ck"
    and fd: "fd < FD_SETSIZE" and ends: "program_ends W cfg c"
  shows "\<exists>t n1 n2 n3. container_process (Suc fuel) E L W cfg Cid (path_append pd pn) st (path_append d n) fd s = Ret c t \<and>
    fs t = (fs s)(resolve (cwd s) pd @ [pn] := Some (Regular (show_int (mypid E))),
      resolve (cwd s) d @ [n] := shown (last (lifecycle (mypid E) st n1 n2 n3 c)))"
proof -
  let ?F = "path_append d n" and ?q = "resolve (cwd s) d @ [n]" and ?p = "resolve (cwd s) pd @ [pn]"
  from slot_put(1) [OF calm pid] obtain s1 where
    w1: "atomicCreateAndWriteFile (Suc fuel) E (path_append pd pn) (show_int (mypid E)) s = Ret True s1"
    and p1: "put_exactly ?p (show_int (mypid E)) s s1" by blast
  have free: "fs s ?p = None" using pid by (simp add: slot_def)
  note slot1 = slot_elsewhere [OF slot p1 free apart]
  let ?st = "setCreated (now E (tick s1)) (mypid E) st"
  have "ns_ready s1 x" if "ns_ready s x" for x
    using that p1 by (auto simp: ns_ready_def node_of_def put_exactly_def)
  then have "list_all (ns_ready s1) (Namespaces (Config st))" using ns by (simp add: list_all_iff)
  from namespaces_calm [OF calm this] obtain s2 where
    e2: "enter_namespaces E (Namespaces (Config st)) s1 = Ret True s2" and f2: "same_files s1 s2" by blast
  have "bus s2 = bus s" using f2 p1 by (simp add: same_files_def put_exactly_def)
  with cg have e3: "enter_cgroup (Suc fuel) L Cid ?st s2 = Ret True (s2\<lparr>bus := w\<rparr>)" by (simp add: cgroup_calm)
  let ?s3 = "s2\<lparr>bus := w\<rparr>"
  have fs3: "fs ?s3 = fs s1" "cwd ?s3 = cwd s1" "cwd s1 = cwd s"
    using f2 p1 by (simp_all add: same_files_def put_exactly_def)
  with slot1 have slot3: "slot E ?s3 d n (Some (Regular c0))" using slot_same [OF fs3(1,2)] by simp
  from slot_put(2) [OF calm slot3, of fuel "print ?st"] obtain s4 where
    w4: "atomicUpdateFile (Suc fuel) E ?F (print ?st) ?s3 = Ret True s4" and p4: "put_exactly ?q (print ?st) ?s3 s4"
    using fs3 by auto
  obtain s5 where a5: "await_start E fd s4 = Ret True s5" and f5: "same_files s4 s5"
    using await_calm [OF calm fd] by blast
  have c5: "cwd s5 = cwd s" using f5 p4 fs3 by (simp add: same_files_def put_exactly_def)
  have "slot E s4 d n (Some (Regular (print ?st)))"
    using slot_written [OF calm slot3] p4 fs3 by simp
  then have "slot E s5 d n (Some (Regular (print ?st)))" using f5 slot_same by (metis same_files_def)
  from run_to_end_calm [OF calm this ends, of fuel ?st] obtain t n2 n3 where
    r: "run_to_end (Suc fuel) E W cfg ?st ?F s5 = Ret c t"
    "fs t = (fs s5)(?q := shown (setStopped n3 c (setRunning n2 ?st)))"
    unfolding c5 by blast
  have "container_process (Suc fuel) E L W cfg Cid (path_append pd pn) st ?F fd s = Ret c t"
    using w1 e2 e3 w4 a5 r(1)
    by (simp add: container_process_def bindP_def time_now_def write_pid_file_def write_state_def Let_def
        setCreated_def)
  moreover have "fs t = (fs s)(?p := Some (Regular (show_int (mypid E))),
      ?q := shown (last (lifecycle (mypid E) st (now E (tick s1)) n2 n3 c)))"
    using r(2) f5 p4 fs3 p1 by (simp add: same_files_def put_exactly_def lifecycle_def Let_def)
  ultimately show ?thesis by blast
qed

end
