(* ===== verification/Lifecycle.thy ===== *)
theory Lifecycle
  imports Runner_Laws State_File
begin

text \<open>
  The life of a container as a step relation on states, with its invariants, and the refinement: at
  every moment while the container process runs, the state file shows a state that is reachable in
  this relation.
\<close>

section \<open>The step relation\<close>

inductive life :: "State \<Rightarrow> State \<Rightarrow> bool" where
  created: "Status st = Creating \<Longrightarrow> in_c_range Int32 pid \<Longrightarrow> life st (setCreated Now pid st)"
| running: "Status st = Created \<Longrightarrow> life st (setRunning Now st)"
| stopped: "Status st = Running \<Longrightarrow> in_c_range Int32 code \<Longrightarrow> life st (setStopped Now code st)"

inductive_cases lifeE: "life st st'"

fun rank :: "StatusCode \<Rightarrow> nat" where
  "rank Unknown = 0" | "rank Creating = 1" | "rank Created = 2" | "rank Running = 3" | "rank Stopped = 4"

lemmas transition_defs = setCreating_def setCreated_def setRunning_def setStopped_def

text \<open>A step goes to the next status and keeps the identity of the container.\<close>

lemma life_step:
  assumes "life st st'"
  shows "rank (Status st') = Suc (rank (Status st))"
    and "ContainerId st' = ContainerId st" "BundlePath st' = BundlePath st" "Config st' = Config st"
      "SystemdCgroup st' = SystemdCgroup st"
    and "Status st = Creating \<or> Pid st' = Pid st"
  using assms by (auto elim!: lifeE simp: transition_defs)

lemma life_printable: "life st st' \<Longrightarrow> printable st \<Longrightarrow> printable st'"
  by (auto elim!: lifeE simp: printable_transitions)

lemma life_reaches:
  assumes "life\<^sup>*\<^sup>* st st'"
  shows "rank (Status st) \<le> rank (Status st') \<and> ContainerId st' = ContainerId st \<and> BundlePath st' = BundlePath st \<and>
    Config st' = Config st \<and> SystemdCgroup st' = SystemdCgroup st \<and> (printable st \<longrightarrow> printable st')"
  using assms by (induction rule: rtranclp_induct) (auto simp: life_step life_printable)

text \<open>After the third step the container is stopped for good.\<close>

lemma stopped_is_final: "Status st = Stopped \<Longrightarrow> \<not> life st st'"
  by (auto elim!: lifeE)

lemma lifecycle_reached:
  assumes "Status st = Creating" "in_c_range Int32 pid" "in_c_range Int32 c" "st' \<in> set (lifecycle pid st n1 n2 n3 c)"
  shows "life\<^sup>*\<^sup>* st st'"
proof -
  let ?a = "setCreated n1 pid st"
  let ?b = "setRunning n2 ?a"
  have 1: "life st ?a" by (rule life.created [OF assms(1,2)])
  have 2: "life ?a ?b" by (rule life.running) (simp add: setCreated_def)
  have 3: "life ?b (setStopped n3 c ?b)" by (rule life.stopped [OF _ assms(3)]) (simp add: setRunning_def)
  from assms(4) have "st' = ?a \<or> st' = ?b \<or> st' = setStopped n3 c ?b" by (auto simp: lifecycle_def Let_def)
  then show ?thesis
    using 1 2 3 by (meson r_into_rtranclp rtranclp.rtrancl_into_rtrancl)
qed

section \<open>The refinement\<close>

lemma in_order_set: "in_order xs ns \<Longrightarrow> set xs \<subseteq> set ns"
  by (induction xs ns rule: in_order.induct) auto

text \<open>The file trees of all moments from \<open>s\<close> to \<open>t\<close>.\<close>

definition moments :: "'w os \<Rightarrow> 'w os \<Rightarrow> tree set" where
  "moments s t = set (drop (length (hist s)) (hist t)) \<union> {fs t}"

lemma passes_moments: "passes q ns s t \<Longrightarrow> f \<in> moments s t \<Longrightarrow> f q = fs s q \<or> f q \<in> set ns"
  by (auto simp: passes_def moments_def dest!: in_order_set) (use image_subset_iff in fastforce)+

lemma passes_end: "passes q [] s t \<Longrightarrow> fs t q = fs s q"
  by (auto simp: passes_def dest!: in_order_set)

lemma run_refines_life:
  assumes law: "suffix_law E" "full_writes E" and q: "q = resolve (cwd s) F" "fs s q = shown st"
    and pid: "apart E (cwd s) P q" "in_c_range Int32 (mypid E)" and W: "engine_confined W q"
    and codes: "\<And>c. code_of W (wasm_setup (Config st)) c \<Longrightarrow> in_c_range Int32 c"
    and st: "Status st = Creating"
    and run: "doRunInternal fuel E L W Cid P st F fd s = Ret code t" and f: "f \<in> moments s t"
  shows "\<exists>st'. life\<^sup>*\<^sup>* st st' \<and> f q = shown st'"
proof -
  have "fs s q \<noteq> None" using q(2) by (simp add: shown_def)
  from doRunInternal_passes [OF law q(1) this pid(1) W run] obtain n1 n2 n3 c where
    c: "code_of W (wasm_setup (Config st)) c" and p: "passes q (map shown (lifecycle (mypid E) st n1 n2 n3 c)) s t"
    by blast
  from passes_moments [OF p f] q(2) consider "f q = shown st"
    | st' where "st' \<in> set (lifecycle (mypid E) st n1 n2 n3 c)" "f q = shown st'" by auto
  then show ?thesis
  proof cases
    case 2
    with lifecycle_reached [OF st pid(2) codes [OF c]] show ?thesis by blast
  qed blast
qed

section \<open>Visible as created only inside the cgroup\<close>

definition grows :: "'w os \<Rightarrow> 'w os \<Rightarrow> bool" where
  "grows s t \<longleftrightarrow> (\<exists>h. hist t = hist s @ h)"

interpretation growing: os_relation grows
  by unfold_locales (auto simp: grows_def)

lemma write_state_grows: "obeys grows (write_state fuel E F st)"
  unfolding write_state_def by (rule obeys_mono [OF update.put_tree]) (auto simp: tree_kept_def grows_def)

lemma quiet_grows: "obeys untouched m \<Longrightarrow> obeys grows m"
  by (erule obeys_mono) (auto simp: untouched_def grows_def)

lemma run_to_end_grows:
  assumes "leaves_alone q (vm_execute W cfg ''_start'')"
  shows "obeys grows (run_to_end fuel E W cfg st F)"
proof -
  have "obeys grows (vm_execute W cfg ''_start'')"
    using assms unfolding leaves_alone_def by (rule obeys_mono) (auto simp: shows_only_def grows_def)
  then show ?thesis
    unfolding run_to_end_def Let_def
    by (intro growing.bind growing.cond growing.return write_state_grows quiet_calls [THEN quiet_grows])
qed

text \<open>
  The state file has changed from \<open>s\<close> to \<open>t\<close> only by what the process did after it had entered the
  cgroup in some state \<open>u\<close> between them.
\<close>

definition after_cgroup ::
  "nat \<Rightarrow> env \<Rightarrow> 'w sd_lib \<Rightarrow> string \<Rightarrow> State \<Rightarrow> string \<Rightarrow> string list \<Rightarrow> 'w os \<Rightarrow> 'w os \<Rightarrow> bool" where
  "after_cgroup fuel E L Cid st F q s t \<longleftrightarrow>
     (\<exists>u ck w v. passes q [] s u \<and> enter fuel L Cid st (bus u) = Some (Inr (), ck, w) \<and>
        write_state fuel E F st (u\<lparr>bus := w\<rparr>) = Ret True v \<and> grows v t)"

lemma after_cgroup_lift:
  "passes q [] s s' \<Longrightarrow> fs s' q = fs s q \<Longrightarrow> after_cgroup fuel E L Cid st F q s' t \<Longrightarrow> after_cgroup fuel E L Cid st F q s t"
  unfolding after_cgroup_def using passes_after_stay by blast

lemma created_inside_cgroup:
  assumes law: "suffix_law E" and pid: "apart E (cwd s) P q" and q: "q = resolve (cwd s) F"
    and alone: "leaves_alone q (vm_execute W cfg ''_start'')"
    and run: "container_process fuel E L W cfg Cid P st F fd s = Ret code t"
  shows "fs t q = fs s q \<or> (\<exists>n. after_cgroup fuel E L Cid (setCreated n (mypid E) st) F q s t)"
  using run unfolding container_process_def
proof (rule stage_cases [where G = "\<lambda>s t. fs t q = fs s q \<or>
    (\<exists>n. after_cgroup fuel E L Cid (setCreated n (mypid E) st) F q s t)"])
  fix s1 assume cwd1: "cwd s1 = cwd s"
    and run1: "bindP (time_now E) (\<lambda>Now. let st = setCreated Now (mypid E) st in
       bindP (enter_namespaces E (Namespaces (Config st))) (\<lambda>ok. if \<not> ok then returnP EXIT_FAILURE else
       bindP (enter_cgroup fuel L Cid st) (\<lambda>ok. if \<not> ok then returnP EXIT_FAILURE else
       bindP (write_state fuel E F st) (\<lambda>ok. if \<not> ok then returnP EXIT_FAILURE else
       bindP (await_start E fd) (\<lambda>ok. if \<not> ok then returnP EXIT_FAILURE else
       run_to_end fuel E W cfg st F))))) s1 = Ret code t"
  define st1 where "st1 = setCreated (now E (tick s1)) (mypid E) st"
  from run1 have "bindP (enter_namespaces E (Namespaces (Config st1))) (\<lambda>ok. if \<not> ok then returnP EXIT_FAILURE else
       bindP (enter_cgroup fuel L Cid st1) (\<lambda>ok. if \<not> ok then returnP EXIT_FAILURE else
       bindP (write_state fuel E F st1) (\<lambda>ok. if \<not> ok then returnP EXIT_FAILURE else
       bindP (await_start E fd) (\<lambda>ok. if \<not> ok then returnP EXIT_FAILURE else
       run_to_end fuel E W cfg st1 F)))) s1 = Ret code t"
    unfolding st1_def Let_def by (subst (asm) bindP_def) (simp add: time_now_def)
  then have "fs t q = fs s1 q \<or> after_cgroup fuel E L Cid st1 F q s1 t"
  proof (rule stage_cases)
    fix s2 assume cwd2: "cwd s2 = cwd s1"
      and run2: "bindP (enter_cgroup fuel L Cid st1) (\<lambda>ok. if \<not> ok then returnP EXIT_FAILURE else
       bindP (write_state fuel E F st1) (\<lambda>ok. if \<not> ok then returnP EXIT_FAILURE else
       bindP (await_start E fd) (\<lambda>ok. if \<not> ok then returnP EXIT_FAILURE else
       run_to_end fuel E W cfg st1 F))) s2 = Ret code t"
    from run2 obtain ok s3 where e: "enter_cgroup fuel L Cid st1 s2 = Ret ok s3"
      and rest: "(if \<not> ok then returnP EXIT_FAILURE else
       bindP (write_state fuel E F st1) (\<lambda>ok. if \<not> ok then returnP EXIT_FAILURE else
       bindP (await_start E fd) (\<lambda>ok. if \<not> ok then returnP EXIT_FAILURE else
       run_to_end fuel E W cfg st1 F))) s3 = Ret code t"
      by (auto simp: bindP_Ret_iff)
    note quiet = obeys_Ret [OF cgroup_quiet e]
    show "fs t q = fs s2 q \<or> after_cgroup fuel E L Cid st1 F q s2 t"
    proof (cases ok)
      case False
      with rest quiet show ?thesis by (auto simp: returnP_Ret_iff untouched_def)
    next
      case True
      from e True obtain ck w where w: "enter fuel L Cid st1 (bus s2) = Some (Inr (), ck, w)" "s3 = s2\<lparr>bus := w\<rparr>"
        by (auto simp: enter_cgroup_def split: option.splits if_splits sum.splits)
      from True rest obtain ok2 v where v: "write_state fuel E F st1 s3 = Ret ok2 v"
        and rest2: "(if \<not> ok2 then returnP EXIT_FAILURE else
       bindP (await_start E fd) (\<lambda>ok. if \<not> ok then returnP EXIT_FAILURE else
       run_to_end fuel E W cfg st1 F)) v = Ret code t"
        by (auto simp: bindP_Ret_iff)
      show ?thesis
      proof (cases ok2)
        case False
        have "q = resolve (cwd s3) F" using q cwd1 cwd2 quiet by (simp add: untouched_def)
        with v False update.refused [OF law, of fuel F "print st1" s3 v] have "fs v q = fs s3 q"
          by (auto simp: write_state_def shows_only_def)
        with rest2 False quiet show ?thesis by (auto simp: returnP_Ret_iff untouched_def)
      next
        case True
        have "obeys grows (bindP (await_start E fd) (\<lambda>ok. if \<not> ok then returnP EXIT_FAILURE else
            run_to_end fuel E W cfg st1 F))"
          by (intro growing.bind growing.cond growing.return run_to_end_grows [OF alone] quiet_grows [OF await_quiet])
        from obeys_Ret [OF this] rest2 True have "grows v t" by simp
        moreover have "passes q [] s2 s2" by (simp add: passes_def)
        ultimately have "after_cgroup fuel E L Cid st1 F q s2 t"
          unfolding after_cgroup_def using w v True
          by - (rule exI [of _ s2], rule exI [of _ ck], rule exI [of _ w], rule exI [of _ v], simp)
        then show ?thesis ..
      qed
    qed
  qed (erule quiet_stay [OF namespaces_quiet] | blast dest: passes_end intro: after_cgroup_lift | simp)+
  then show "fs t q = fs s1 q \<or> (\<exists>n. after_cgroup fuel E L Cid (setCreated n (mypid E) st) F q s1 t)"
    unfolding st1_def by blast
qed (erule pid_file_stay [OF law pid] | blast dest: passes_end intro: after_cgroup_lift | simp)+

end
