(* ===== verification/Commands.thy ===== *)
theory Commands
  imports Runner Signals
begin

text \<open>
  The commands of \<^verbatim>\<open>src/runw.cpp\<close>: \<^verbatim>\<open>doCreate\<close>, \<^verbatim>\<open>doDelete\<close>, \<^verbatim>\<open>doKill\<close>, \<^verbatim>\<open>doStart\<close>, \<^verbatim>\<open>doState\<close> and
  \<^verbatim>\<open>main\<close>. A command is a program over the operating system; simdjson, libsystemd, WasmEdge and the
  option parser are parameters.
\<close>

definition IO_ERROR :: simdjson_error where "IO_ERROR = Other_error 0"

definition container_root :: "string \<Rightarrow> string \<Rightarrow> string" where
  "container_root Root Cid = path_append Root Cid"

definition state_file :: "string \<Rightarrow> string \<Rightarrow> string" where
  "state_file Root Cid = path_append (container_root Root Cid) ''state.json''"

definition fifo_file :: "string \<Rightarrow> string \<Rightarrow> string" where
  "fifo_file Root Cid = path_append (container_root Root Cid) ''exec.fifo''"

text \<open>The files as the JSON parser sees them in a state of the operating system.\<close>

definition seen_files :: "env \<Rightarrow> ('el, 'z) simdjson_scheme \<Rightarrow> 'w os \<Rightarrow> string \<Rightarrow> simdjson_error + 'el" where
  "seen_files E D s = parser_load E (parse_json D) IO_ERROR s"

text \<open>\<^verbatim>\<open>State.load\<close> into a fresh object: the state, or nothing when it returns \<^verbatim>\<open>false\<close>.\<close>

definition load_state ::
  "env \<Rightarrow> ('el, 'z) simdjson_scheme \<Rightarrow> string \<Rightarrow> string \<Rightarrow> (State option, 'w) prog" where
  "load_state E D StateFile ConfigFileName s =
     (case state_load D (seen_files E D s) StateFile ConfigFileName default_state of
        Done st \<Rightarrow> Ret (Some st) s | Failed _ \<Rightarrow> Ret None s | Undef \<Rightarrow> UB)"

section \<open>\<^verbatim>\<open>doDelete\<close>, \<^verbatim>\<open>doKill\<close>, \<^verbatim>\<open>doStart\<close>, \<^verbatim>\<open>doState\<close>\<close>

definition doDelete :: "env \<Rightarrow> 'w wasmedge \<Rightarrow> string \<Rightarrow> string \<Rightarrow> bool \<Rightarrow> (int, 'w) prog" where
  "doDelete E W Root Cid Force =
     bindP (is_directory E (container_root Root Cid)) (\<lambda>isdir.
       if \<not> isdir \<and> \<not> Force then returnP EXIT_FAILURE else
     bindP (remove_all E (container_root Root Cid)) (\<lambda>ok.
       if \<not> ok \<and> \<not> Force then returnP EXIT_FAILURE else
     bindP (cache_clear W Cid) (\<lambda>_. returnP EXIT_SUCCESS)))"

definition doKill ::
  "env \<Rightarrow> ('el, 'z) simdjson_scheme \<Rightarrow> string \<Rightarrow> string \<Rightarrow> string \<Rightarrow> string \<Rightarrow> (int, 'w) prog" where
  "doKill E D Root ConfigFileName Cid SignalName =
     (case parseSignal SignalName of
        None \<Rightarrow> ubP
      | Some Signal \<Rightarrow>
          if Signal < 0 then returnP EXIT_FAILURE else
          bindP (is_regular_file E (state_file Root Cid)) (\<lambda>b.
            if \<not> b then returnP EXIT_FAILURE else
          bindP (load_state E D (state_file Root Cid) ConfigFileName) (\<lambda>r.
            case r of None \<Rightarrow> returnP EXIT_FAILURE
            | Some st \<Rightarrow>
                if getPid st < 0 then returnP EXIT_FAILURE else
                bindP (sys E (Kill (getPid st) Signal)) (\<lambda>res.
                  if res \<noteq> 0 then returnP EXIT_FAILURE else returnP EXIT_SUCCESS))))"

text \<open>
  The descriptor of the fifo is closed when the function is left, and on success it has been closed
  before that already.
\<close>

definition doStart ::
  "env \<Rightarrow> ('el, 'z) simdjson_scheme \<Rightarrow> string \<Rightarrow> string \<Rightarrow> string \<Rightarrow> (int, 'w) prog" where
  "doStart E D Root ConfigFileName Cid =
     bindP (is_regular_file E (state_file Root Cid)) (\<lambda>b.
       if \<not> b then returnP EXIT_FAILURE else
     bindP (load_state E D (state_file Root Cid) ConfigFileName) (\<lambda>r.
       case r of None \<Rightarrow> returnP EXIT_FAILURE
       | Some st \<Rightarrow>
     bindP (open_fd E (fifo_file Root Cid)) (\<lambda>ExecFifoFd.
       if ExecFifoFd < 0 then returnP EXIT_FAILURE else
     bindP (bindP (unlink E (fifo_file Root Cid)) (\<lambda>Ret.
              if Ret < 0 then returnP EXIT_FAILURE else
            bindP (sys E (WriteFd ExecFifoFd 0)) (\<lambda>Ret.
              if Ret < 0 then returnP EXIT_FAILURE else
            bindP (sys E (CloseFd ExecFifoFd)) (\<lambda>_. returnP EXIT_SUCCESS)))) (\<lambda>code.
     bindP (sys E (CloseFd ExecFifoFd)) (\<lambda>_. returnP code)))))"

definition doState :: "env \<Rightarrow> string \<Rightarrow> string \<Rightarrow> (int, 'w) prog" where
  "doState E Root Cid =
     bindP (is_directory E (container_root Root Cid)) (\<lambda>isdir.
       if \<not> isdir then returnP EXIT_FAILURE else
     bindP (readAll E (state_file Root Cid)) (\<lambda>Data.
       if Data = [] then returnP EXIT_FAILURE else
     bindP (print_out (Data @ [CHR 0x0A])) (\<lambda>_. returnP EXIT_SUCCESS)))"

section \<open>\<^verbatim>\<open>doCreate\<close>\<close>

text \<open>The pieces return the exit code and the value of the flag \<^verbatim>\<open>Success\<close> that the scope guard reads.\<close>

text \<open>The side of the caller. While it waits and while it reads, the daemon and its container are at work.\<close>

definition create_server :: "env \<Rightarrow> int \<Rightarrow> (int \<times> bool, 'w) prog" where
  "create_server E ChildPid =
     bindP (sys E CloseWriteEnd) (\<lambda>_.
     bindP (block E (WaitPid ChildPid)) (\<lambda>_.
     bindP (block E ReadPipe) (\<lambda>Result.
     bindP (last_data E) (\<lambda>d.
       if Result < 0 \<and> d \<noteq> EINTR then returnP (EXIT_FAILURE, False)
       else if Result > 0 \<and> d \<noteq> 0 then returnP (EXIT_FAILURE, False)
       else bindP (sys E CloseReadEnd) (\<lambda>_. returnP (EXIT_SUCCESS, True))))))"

definition SUN_PATH_SIZE :: nat where "SUN_PATH_SIZE = 108"

text \<open>Lines 706 to 732: the console socket, or nothing when it cannot be connected.\<close>

definition open_console :: "env \<Rightarrow> string \<Rightarrow> (int option, 'w) prog" where
  "open_console E ConsoleSocket =
     (if ConsoleSocket = [] then returnP (Some (- 1))
      else bindP (sys E Socket) (\<lambda>Fd.
        if Fd < 0 then returnP None
        else if SUN_PATH_SIZE \<le> length ConsoleSocket then
          bindP (sys E (CloseFd Fd)) (\<lambda>_. returnP None)
        else bindP (sys E (Connect Fd ConsoleSocket)) (\<lambda>Ret.
          if Ret < 0 then bindP (sys E (CloseFd Fd)) (\<lambda>_. returnP None)
          else returnP (Some Fd))))"

definition create_daemon ::
  "nat \<Rightarrow> env \<Rightarrow> 'w sd_lib \<Rightarrow> 'w wasmedge \<Rightarrow> string \<Rightarrow> string \<Rightarrow> State \<Rightarrow> string \<Rightarrow> int \<Rightarrow> string
     \<Rightarrow> (int \<times> bool, 'w) prog" where
  "create_daemon fuel E L W Cid PidFile st StateFile ExecFifoFd ConsoleSocket =
     bindP (open_console E ConsoleSocket) (\<lambda>c.
       case c of None \<Rightarrow> returnP (EXIT_FAILURE, False)
       | Some ConsoleFd \<Rightarrow>
     bindP (doRunInternal fuel E L W Cid PidFile st StateFile ExecFifoFd) (\<lambda>Code.
     bindP (sys E (WritePipe Code)) (\<lambda>_.
     bindP (sys E CloseWriteEnd) (\<lambda>_.
     bindP (if ConsoleFd \<ge> 0 then sys E (CloseFd ConsoleFd) else returnP 0) (\<lambda>_.
     returnP (EXIT_FAILURE, True))))))"

definition create_child ::
  "nat \<Rightarrow> env \<Rightarrow> 'w sd_lib \<Rightarrow> 'w wasmedge \<Rightarrow> string \<Rightarrow> string \<Rightarrow> State \<Rightarrow> string \<Rightarrow> int \<Rightarrow> string
     \<Rightarrow> (int \<times> bool, 'w) prog" where
  "create_child fuel E L W Cid PidFile st StateFile ExecFifoFd ConsoleSocket =
     bindP (sys E CloseReadEnd) (\<lambda>_.
     bindP (sys E SetSid) (\<lambda>Ret. if Ret < 0 then returnP (EXIT_FAILURE, False) else
     bindP (sys E Fork) (\<lambda>DaemonPid.
       if DaemonPid < 0 then returnP (EXIT_FAILURE, False)
       else if DaemonPid > 0 then exitP EXIT_SUCCESS
       else create_daemon fuel E L W Cid PidFile st StateFile ExecFifoFd ConsoleSocket)))"

text \<open>Lines 648 to 742, with the descriptor of the fifo open.\<close>

definition create_fork ::
  "nat \<Rightarrow> env \<Rightarrow> 'w sd_lib \<Rightarrow> 'w wasmedge \<Rightarrow> string \<Rightarrow> string \<Rightarrow> State \<Rightarrow> string \<Rightarrow> int \<Rightarrow> string
     \<Rightarrow> (int \<times> bool, 'w) prog" where
  "create_fork fuel E L W Cid PidFile st StateFile ExecFifoFd ConsoleSocket =
     bindP (sys E Pipe) (\<lambda>Ret. if Ret < 0 then returnP (EXIT_FAILURE, False) else
     bindP (sys E Fork) (\<lambda>ChildPid.
       if ChildPid < 0 then returnP (EXIT_FAILURE, False)
       else if ChildPid > 0 then create_server E ChildPid
       else create_child fuel E L W Cid PidFile st StateFile ExecFifoFd ConsoleSocket))"

text \<open>Lines 615 to 646: the bundle, the state file and the fifo.\<close>

definition create_container ::
  "nat \<Rightarrow> env \<Rightarrow> ('el, 'z) simdjson_scheme \<Rightarrow> 'w sd_lib \<Rightarrow> 'w wasmedge \<Rightarrow> string \<Rightarrow> bool \<Rightarrow> string \<Rightarrow> string
     \<Rightarrow> string \<Rightarrow> string \<Rightarrow> string \<Rightarrow> (int \<times> bool, 'w) prog" where
  "create_container fuel E D L W Root Systemd ConfigFileName Cid Path ConsoleSocket PidFile s =
     (case loadBundle D (seen_files E D s) ConfigFileName (new_state Cid Path) of
        Undef \<Rightarrow> UB
      | Failed _ \<Rightarrow> Ret (EXIT_FAILURE, False) s
      | Done st \<Rightarrow>
          (let st = setCreating (setSystemdCgroup Systemd st) in
           bindP (atomicCreateAndWriteFile fuel E (state_file Root Cid) (print st)) (\<lambda>ok.
             if \<not> ok then returnP (EXIT_FAILURE, False) else
           bindP (mkfifo E (fifo_file Root Cid)) (\<lambda>Ret.
             if Ret < 0 then returnP (EXIT_FAILURE, False) else
           bindP (open_fd E (fifo_file Root Cid)) (\<lambda>ExecFifoFd.
             if ExecFifoFd < 0 then returnP (EXIT_FAILURE, False) else
           bindP (create_fork fuel E L W Cid PidFile st (state_file Root Cid) ExecFifoFd ConsoleSocket) (\<lambda>r.
           bindP (sys E (CloseFd ExecFifoFd)) (\<lambda>_. returnP r))))) s))"

text \<open>The scope guard: unless \<^verbatim>\<open>Success\<close> was set, the directory of the container is removed.\<close>

definition doCreate ::
  "nat \<Rightarrow> env \<Rightarrow> ('el, 'z) simdjson_scheme \<Rightarrow> 'w sd_lib \<Rightarrow> 'w wasmedge \<Rightarrow> string \<Rightarrow> bool \<Rightarrow> string \<Rightarrow> string
     \<Rightarrow> string \<Rightarrow> string \<Rightarrow> string \<Rightarrow> (int, 'w) prog" where
  "doCreate fuel E D L W Root Systemd ConfigFileName Cid Path ConsoleSocket PidFile =
     bindP (create_directories E (container_root Root Cid)) (\<lambda>b.
       if \<not> b then returnP EXIT_FAILURE else
     bindP (create_container fuel E D L W Root Systemd ConfigFileName Cid Path ConsoleSocket PidFile) (\<lambda>(code, Success).
       if Success then returnP code
       else bindP (remove_all E (container_root Root Cid)) (\<lambda>_. returnP code)))"

section \<open>\<^verbatim>\<open>main\<close>\<close>

text \<open>What the option parser delivers: whether parsing succeeded, what is selected, and the values.\<close>

record po =
  po_parse :: bool
  po_isVersion :: bool
  po_start :: bool
  po_create :: bool
  po_delete :: bool
  po_kill :: bool
  po_state :: bool
  po_root :: string
  po_systemd_cgroup :: bool
  po_config :: string
  po_config_default :: string
  po_id :: string
  po_bundle :: string
  po_console :: string
  po_pid_file :: string
  po_force :: bool
  po_signal :: string
  po_help :: string

definition main ::
  "nat \<Rightarrow> env \<Rightarrow> ('el, 'z) simdjson_scheme \<Rightarrow> 'w sd_lib \<Rightarrow> 'w wasmedge \<Rightarrow> string \<Rightarrow> string \<Rightarrow> po \<Rightarrow> (int, 'w) prog" where
  "main fuel E D L W Argv0 kVersionString o1 =
     (if \<not> po_parse o1 then returnP EXIT_FAILURE
      else if po_isVersion o1 then
        bindP (print_out (Argv0 @ '' version '' @ kVersionString @ [CHR 0x0A])) (\<lambda>_. returnP EXIT_SUCCESS)
      else
        let ConfigFileName = (if po_config o1 = [] then po_config_default o1 else po_config o1) in
        if po_start o1 then doStart E D (po_root o1) ConfigFileName (po_id o1)
        else if po_create o1 then
          doCreate fuel E D L W (po_root o1) (po_systemd_cgroup o1) ConfigFileName (po_id o1) (po_bundle o1)
            (po_console o1) (po_pid_file o1)
        else if po_delete o1 then doDelete E W (po_root o1) (po_id o1) (po_force o1)
        else if po_kill o1 then doKill E D (po_root o1) ConfigFileName (po_id o1) (po_signal o1)
        else if po_state o1 then doState E (po_root o1) (po_id o1)
        else bindP (print_out (po_help o1)) (\<lambda>_. returnP EXIT_FAILURE))"

end
