(* ===== verification/Demo_System.thy ===== *)
theory Demo_System
  imports Runner_Returns Lifecycle Commands State_Properties
begin

text \<open>
  A concrete system on which the theorems about the commands are instantiated: an environment in
  which all calls succeed, a file tree with one container that is being created, a WebAssembly
  engine whose program exits with code 3, and a JSON parser that knows one more document.
\<close>

definition demo_env :: env where
  "demo_env = \<lparr>ret = \<lambda>_. 0, data = \<lambda>_. 0, draw = \<lambda>_. ''abcdef'', now = \<lambda>k. 1700000000 + int k, mypid = 4711,
     app_pos = \<lambda>n. n, short_write = \<lambda>_. None, purged = \<lambda>_ _. False, unreadable = \<lambda>_. False,
     others = \<lambda>_ f. f\<rparr>"

definition demo_state :: State where
  "demo_state = setCreating (setSystemdCgroup False ((new_state ''c1'' ''/b'')\<lparr>Config := sample_bundle\<rparr>))"

definition demo_tree :: tree where
  "demo_tree = map_of
     [([], Dir), ([''run''], Dir), ([''run'', ''c1''], Dir),
      ([''run'', ''c1'', ''state.json''], Regular (print demo_state)), ([''run'', ''c1'', ''exec.fifo''], Fifo),
      ([''b''], Dir), ([''b'', ''config.json''], Regular ''cfg''),
      ([''cache''], Dir), ([''cache'', ''m.so''], Regular ''so'')]"

definition demo_os :: "nat os" where
  "demo_os = \<lparr>fs = demo_tree, cwd = [], tick = 0, hist = [], cout = [], calls = [], bus = (0, [])\<rparr>"

definition demo_wasm :: "nat wasmedge" where
  "demo_wasm = \<lparr>loadFile = \<lambda>_. returnP (Some ''wasm''), cache_getPath = \<lambda>_ _. Some ''/cache/m.wasm'',
     parseModule = \<lambda>_. True, validateModule = \<lambda>_. True, compile = \<lambda>_ _. returnP True,
     vm_loadWasm = \<lambda>_ _. returnP True, vm_validate = \<lambda>_. returnP True, vm_instantiate = \<lambda>_. returnP True,
     vm_execute = \<lambda>_ _. returnP (Some 3), cache_clear = \<lambda>_. returnP ()\<rparr>"

definition demo_parse :: "string \<Rightarrow> simdjson_error + json" where
  "demo_parse c = (if c = ''cfg'' then Inr sample_config else read_object c)"

definition demo_dom :: "json simdjson" where
  "demo_dom = json_dom demo_parse"

lemma demo_dom_laws: "dom_laws demo_dom"
  by (simp add: demo_dom_def json_dom_laws)

lemma demo_denotes: "token_valid tok \<Longrightarrow> denotes demo_dom tok (token_value tok)"
  by (cases tok) (auto simp: demo_dom_def)

lemma demo_parses_flat: "parses_flat demo_dom"
  unfolding parses_flat_def
proof (intro allI impI)
  fix ms :: "(string \<times> token) list"
  assume ms: "ms \<noteq> []" "list_all (\<lambda>m. list_all plain_char (fst m) \<and> token_valid (snd m)) ms"
  let ?els = "map (\<lambda>m. (fst m, token_value (snd m))) ms"
  have "list_all2 (\<lambda>m e. fst m = fst e \<and> denotes demo_dom (snd m) (snd e)) ms ?els"
    using ms(2) by (auto simp: list_all2_conv_all_nth list_all_iff intro!: demo_denotes)
  moreover have "parse_json demo_dom (object_text ms) = Inr (JObject ?els)"
    "get_object demo_dom (JObject ?els) = Inr ?els"
    using read_object_text [OF ms] by (simp_all add: demo_dom_def demo_parse_def object_text_def)
  ultimately show "\<exists>el els. parse_json demo_dom (object_text ms) = Inr el \<and>
      get_object demo_dom el = Inr els \<and>
      list_all2 (\<lambda>m e. fst m = fst e \<and> denotes demo_dom (snd m) (snd e)) ms els"
    by blast
qed

lemma demo_calm: "calm demo_env"
  by (simp add: calm_def demo_env_def full_writes_def suffix_law_def char_val_def)

lemma demo_laws: "suffix_law demo_env" "full_writes demo_env"
  using demo_calm by (simp_all add: calm_def)

lemma demo_cwd [simp]: "cwd demo_os = []" "hist demo_os = []" "bus demo_os = (0, [])" "tick demo_os = 0"
  "fs demo_os = demo_tree" "calls demo_os = []"
  by (simp_all add: demo_os_def)

lemma demo_env_simps [simp]:
  "ret demo_env = (\<lambda>_. 0)" "draw demo_env = (\<lambda>_. ''abcdef'')" "mypid demo_env = 4711"
  "unreadable demo_env = (\<lambda>_. False)" "others demo_env = (\<lambda>_ f. f)" "app_pos demo_env = (\<lambda>n. n)" "short_write demo_env = (\<lambda>_. None)"
  by (simp_all add: demo_env_def)

text \<open>Paths of the system.\<close>

lemma demo_resolve [simp]:
  "resolve [] ''/run/c1'' = [''run'', ''c1'']" "resolve [] ''/run'' = [''run'']"
  "resolve [] ''/run/c1/state.json'' = [''run'', ''c1'', ''state.json'']"
  "resolve [] ''/run/c1/exec.fifo'' = [''run'', ''c1'', ''exec.fifo'']"
  "resolve [] ''/run/c1.pid'' = [''run'', ''c1.pid'']"
  "resolve [] ''/run/c1.pidabcdef'' = [''run'', ''c1.pidabcdef'']"
  "resolve [] ''/b/config.json'' = [''b'', ''config.json'']"
  "resolve [] ''/cache/m.so'' = [''cache'', ''m.so'']"
  by (simp_all add: resolve_def components_def is_absolute_def)

lemma demo_paths [simp]:
  "path_append ''/run/c1'' ''state.json'' = ''/run/c1/state.json''"
  "path_append ''/run/c1'' ''exec.fifo'' = ''/run/c1/exec.fifo''"
  "path_append ''/run'' ''c1.pid'' = ''/run/c1.pid''" "path_append ''/run'' ''c1'' = ''/run/c1''"
  "path_append ''/b'' ''config.json'' = ''/b/config.json''"
  by (simp_all add: path_append_def is_absolute_def)

lemma demo_names [simp]:
  "container_root ''/run'' ''c1'' = ''/run/c1''" "state_file ''/run'' ''c1'' = ''/run/c1/state.json''"
  "fifo_file ''/run'' ''c1'' = ''/run/c1/exec.fifo''"
  by (simp_all add: container_root_def state_file_def fifo_file_def)

lemma demo_slots:
  "slot demo_env demo_os ''/run/c1'' ''state.json'' (Some (Regular (print demo_state)))"
  "slot demo_env demo_os ''/run'' ''c1.pid'' None"
  by (simp_all add: slot_def plain_name_def demo_tree_def)

lemma demo_enters:
  "\<exists>ck w. enter 5 demo_bus ''c1'' (setCreated 0 4711 demo_state) (0, []) = Some (Inr (), ck, w) \<and> \<not> CkUB ck"
proof -
  have "case enter 5 demo_bus ''c1'' (setCreated 0 4711 demo_state) (0, []) of
      Some (x, ck, _) \<Rightarrow> x = Inr () \<and> \<not> CkUB ck | None \<Rightarrow> False"
    by code_simp
  then show ?thesis by (auto split: option.splits)
qed

lemma demo_state_simps [simp]:
  "Status demo_state = Creating" "Config demo_state = sample_bundle" "BundlePath demo_state = ''/b''"
  "ContainerId demo_state = ''c1''"
  by (simp_all add: demo_state_def setCreating_def setSystemdCgroup_def new_state_def)

lemma demo_printable: "printable demo_state"
  by (simp add: demo_state_def printable_def setCreating_def setSystemdCgroup_def new_state_def default_state_def
      in_c_range_def) (simp add: escapable_def plain_char_def char_val_def)

lemma demo_program: "program_ends demo_wasm cfg 3"
  by (simp add: program_ends_def demo_wasm_def returnP_def)

lemma demo_confined: "engine_confined demo_wasm q"
  by (simp add: engine_confined_def demo_wasm_def leaves_alone_def seen.return)

lemma demo_apart: "apart demo_env [] ''/run/c1.pid'' [''run'', ''c1'', ''state.json'']"
  by (simp add: apart_def foreign_def)

lemma demo_codes: "code_of demo_wasm cfg c \<Longrightarrow> in_c_range Int32 c"
  by (auto simp: code_of_def demo_wasm_def returnP_def EXIT_FAILURE_def in_c_range_def)

text \<open>The container process of the system.\<close>

lemma demo_process:
  "\<exists>t n1 n2 n3. container_process 5 demo_env demo_bus demo_wasm cfg ''c1'' ''/run/c1.pid'' demo_state
       ''/run/c1/state.json'' 3 (demo_os\<lparr>tick := k, calls := cs\<rparr>) = Ret 3 t \<and>
     fs t = demo_tree([''run'', ''c1.pid''] := Some (Regular ''4711''),
       [''run'', ''c1'', ''state.json''] := shown (last (lifecycle 4711 demo_state n1 n2 n3 3)))"
proof -
  let ?s = "demo_os\<lparr>tick := k, calls := cs\<rparr>"
  from demo_enters obtain ck w where
    e: "enter (Suc 4) demo_bus ''c1'' (setCreated 0 (mypid demo_env) demo_state) (bus ?s) = Some (Inr (), ck, w)" "\<not> CkUB ck"
    by auto
  have slots: "slot demo_env ?s ''/run/c1'' ''state.json'' (Some (Regular (print demo_state)))"
    "slot demo_env ?s ''/run'' ''c1.pid'' None"
    using demo_slots by (simp_all add: slot_same [of ?s demo_os])
  have ns: "list_all (ns_ready ?s) (Namespaces (Config demo_state))"
    by (simp add: ns_ready_def sample_bundle_def)
  have "map char_of [52, 55, 49 :: nat] = ''471''" by code_simp
  then have pid: "show_int 4711 = ''4711''" by (simp add: show_int_def show_nat.simps digit_char_def)
  have "(3::int) < FD_SETSIZE" by (simp add: FD_SETSIZE_def)
  from container_process_calm [OF demo_calm slots _ ns e this demo_program] show ?thesis
    by (simp add: pid)
qed

lemma demo_run:
  "\<exists>t. doRunInternal 5 demo_env demo_bus demo_wasm ''c1'' ''/run/c1.pid'' demo_state ''/run/c1/state.json'' 3 demo_os = Ret 3 t"
proof -
  have ext: "replace_extension ''/cache/m.wasm'' ''.so'' = ''/cache/m.so''"
    by (simp add: replace_extension_def file_name_def)
  have args: "Args sample_bundle \<noteq> []" by (simp add: sample_bundle_def)
  have so: "node_of demo_os ''/cache/m.so'' = Some (Regular ''so'')" by (simp add: node_of_def demo_tree_def)
  let ?cfg = "wasm_setup sample_bundle"
  have "doRunInternal 5 demo_env demo_bus demo_wasm ''c1'' ''/run/c1.pid'' demo_state ''/run/c1/state.json'' 3 demo_os
      = container_process 5 demo_env demo_bus demo_wasm ?cfg ''c1'' ''/run/c1.pid'' demo_state
          ''/run/c1/state.json'' 3 (demo_os\<lparr>tick := Suc (Suc 0), calls := [Fork]\<rparr>)"
    using args so
    by (simp add: doRunInternal_def Let_def cached_module_def vm_start_def bindP_def sys_def is_regular_file_throwing_def
        pop_def demo_wasm_def returnP_def ext)
  with demo_process [where cfg = ?cfg and k = "Suc (Suc 0)" and cs = "[Fork]"] show ?thesis by auto
qed

end
