(* ===== verification/Runner_Properties.thy ===== *)
theory Runner_Properties
  imports Demo_System
begin

text \<open>
  What is proved of the file helpers and of the container process: atomic replacement of the state
  file, the states an observer can see, the exit code, the cgroup, the namespaces, and that the
  process comes to its end.
\<close>

section \<open>The file helpers\<close>

text \<open>
  C6. Atomic replacement. Whatever calls of \<^verbatim>\<open>atomicUpdateFile\<close> fail, the target changes at most once.
  If the function returns \<^verbatim>\<open>true\<close> the target switches, at the last change of the tree, from the old
  node to the new contents, or to a part of them if a write was cut short, which nobody checks; if it
  returns \<^verbatim>\<open>false\<close> the target is never changed. Only the target and temporary names are touched.
\<close>

theorem atomic_update_visible:
  assumes "suffix_law E" "atomicUpdateFile fuel E Path Content s = Ret ok t"
  shows "(if ok then \<exists>n. switches (resolve (cwd s) Path) (Some (Regular (take n Content))) s t \<and>
            (full_writes E \<longrightarrow> take n Content = Content)
          else shows_only (resolve (cwd s) Path) {} s t) \<and>
    (\<forall>q. q \<noteq> resolve (cwd s) Path \<and> foreign E (cwd s) Path q \<longrightarrow> shows_only q {} s t)"
  using update.put_stored [OF assms] by (auto simp: stored_def)

theorem atomic_update_visible_witness:
  "\<exists>t. atomicUpdateFile 1 demo_env ''/run/c1/state.json'' ''new'' demo_os = Ret True t \<and>
     switches [''run'', ''c1'', ''state.json''] (Some (Regular ''new'')) demo_os t \<and>
     shows_only [''b'', ''config.json''] {} demo_os t"
proof -
  from slot_put(2) [OF demo_calm demo_slots(1), of 0 "''new''"] obtain t where
    t: "atomicUpdateFile 1 demo_env ''/run/c1/state.json'' ''new'' demo_os = Ret True t" by auto
  have "foreign demo_env [] ''/run/c1/state.json'' [''b'', ''config.json'']"
    by (simp add: foreign_def resolve_def components_def is_absolute_def)
  with atomic_update_visible [OF demo_laws(1) t] t demo_laws(2) show ?thesis by fastforce
qed

text \<open>
  C22. \<^verbatim>\<open>atomicCreateAndWriteFile\<close>, which writes the pid file and the first state file, does not
  overwrite: if the query of the target succeeds and finds a regular file, the function returns \<^verbatim>\<open>false\<close>
  and nothing has changed. (A query that fails counts as finding nothing.) In every case the target
  changes at most once, and only if \<^verbatim>\<open>true\<close> is returned: then to the contents, or to a part of them if
  a write was cut short. Only the target and temporary names are touched.
\<close>

theorem atomic_create_once:
  assumes "suffix_law E" "atomicCreateAndWriteFile fuel E Path Content s = Ret ok t"
  shows "(0 \<le> ret E (tick s) \<and> is_regular (node_of s Path) \<longrightarrow> \<not> ok \<and> fs t = fs s \<and> hist t = hist s) \<and>
    (if ok then \<exists>n. switches (resolve (cwd s) Path) (Some (Regular (take n Content))) s t \<and>
            (full_writes E \<longrightarrow> take n Content = Content)
          else shows_only (resolve (cwd s) Path) {} s t) \<and>
    (\<forall>q. q \<noteq> resolve (cwd s) Path \<and> foreign E (cwd s) Path q \<longrightarrow> shows_only q {} s t)"
proof -
  have "\<not> ok \<and> fs t = fs s \<and> hist t = hist s" if "0 \<le> ret E (tick s)" "is_regular (node_of s Path)"
    using assms(2) that by (auto simp: atomicCreateAndWriteFile_def bindP_def is_regular_file_eq returnP_def)
  with create.put_stored [OF assms] show ?thesis by (auto simp: stored_def)
qed

theorem atomic_create_once_witness:
  "(\<exists>t. atomicCreateAndWriteFile 1 demo_env ''/run/c1.pid'' ''17'' demo_os = Ret True t \<and>
     switches [''run'', ''c1.pid''] (Some (Regular ''17'')) demo_os t) \<and>
   (\<exists>t. atomicCreateAndWriteFile 1 demo_env ''/run/c1/state.json'' ''17'' demo_os = Ret False t \<and>
     shows_only [''run'', ''c1'', ''state.json''] {} demo_os t)"
proof
  from slot_put(1) [OF demo_calm demo_slots(2), of 0 "''17''"] obtain t where
    t: "atomicCreateAndWriteFile 1 demo_env ''/run/c1.pid'' ''17'' demo_os = Ret True t" by auto
  with atomic_create_once [OF demo_laws(1) t] demo_laws(2)
  show "\<exists>t. atomicCreateAndWriteFile 1 demo_env ''/run/c1.pid'' ''17'' demo_os = Ret True t \<and>
     switches [''run'', ''c1.pid''] (Some (Regular ''17'')) demo_os t" by fastforce
  have "is_regular (node_of demo_os ''/run/c1/state.json'')"
    by (simp add: is_regular_def node_of_def demo_tree_def)
  then have u: "atomicCreateAndWriteFile 1 demo_env ''/run/c1/state.json'' ''17'' demo_os
      = Ret False (demo_os\<lparr>tick := Suc 0\<rparr>)"
    by (simp add: atomicCreateAndWriteFile_def bindP_def is_regular_file_eq returnP_def)
  with atomic_create_once [OF demo_laws(1) u]
  show "\<exists>t. atomicCreateAndWriteFile 1 demo_env ''/run/c1/state.json'' ''17'' demo_os = Ret False t \<and>
     shows_only [''run'', ''c1'', ''state.json''] {} demo_os t" by auto
qed

text \<open>
  C35. The search for a temporary name does not end when the directory of the target does not exist:
  however many rounds are allowed, none of them gives a name.
\<close>

theorem temp_name_search_endless:
  assumes "\<And>k. node_of s (Prefix @ draw E k) = None" "\<And>k. \<not> parent_is_dir s (Prefix @ draw E k)"
  shows "getTempFilename fuel E Prefix s = Diverge"
  using assms by (intro getTempFilename_diverges) simp

theorem temp_name_search_endless_witness:
  "getTempFilename 1000 demo_env ''/nowhere/c1.pid'' demo_os = Diverge"
  by (rule temp_name_search_endless)
    (simp_all add: node_of_def parent_is_dir_def demo_tree_def resolve_def components_def is_absolute_def)

section \<open>The container process\<close>

text \<open>
  C3. What an observer sees. While \<^verbatim>\<open>doRunInternal\<close> runs, whatever calls fail and whichever side of
  the fork is followed, the state file shows at every moment a state that the life of the container
  (creating, created, running, stopped, in this order) reaches from the one \<^verbatim>\<open>create\<close> wrote; and that
  file can be loaded again by another invocation, with every persisted field.
\<close>

theorem state_file_refines_life:
  assumes "suffix_law E" "full_writes E" "q = resolve (cwd s) StateFile" "fs s q = shown st"
    "apart E (cwd s) PidFile q" "in_c_range Int32 (mypid E)" "engine_confined W q"
    "\<And>c. code_of W (wasm_setup (Config st)) c \<Longrightarrow> in_c_range Int32 c"
    "Status st = Creating" "printable st"
    "doRunInternal fuel E L W Cid PidFile st StateFile fd s = Ret code t" "f \<in> moments s t"
  shows "\<exists>st'. life\<^sup>*\<^sup>* st st' \<and> f q = Some (Regular (print st')) \<and>
    (\<forall>D files Path ConfigFileName c. parses_flat D \<and> dom_laws D \<and> files Path = parse_json D (print st') \<and>
       load D files (BundlePath st) ConfigFileName empty_bundle = Done c \<longrightarrow>
       state_load D files Path ConfigFileName default_state = Done (persisted st' c))"
proof -
  from run_refines_life [OF assms(1-9,11,12)] obtain st' where r: "life\<^sup>*\<^sup>* st st'" "f q = shown st'" by blast
  have "printable st'" "BundlePath st' = BundlePath st" "Status st' \<noteq> Unknown"
    using life_reaches [OF r(1)] assms(9,10) by auto
  then have "state_load D files Path name default_state = Done (persisted st' c)"
    if "parses_flat D" "dom_laws D" "files Path = parse_json D (print st')"
      "load D files (BundlePath st) name empty_bundle = Done c" for D files Path name c
    using that by (intro read_back) auto
  with r show ?thesis by (intro exI [of _ st']) (auto simp: shown_def)
qed

theorem state_file_refines_life_witness:
  "\<exists>t st'. doRunInternal 5 demo_env demo_bus demo_wasm ''c1'' ''/run/c1.pid'' demo_state ''/run/c1/state.json'' 3 demo_os
      = Ret 3 t \<and> life\<^sup>*\<^sup>* demo_state st' \<and> fs t [''run'', ''c1'', ''state.json''] = Some (Regular (print st'))"
proof -
  from demo_run obtain t where t: "doRunInternal 5 demo_env demo_bus demo_wasm ''c1'' ''/run/c1.pid'' demo_state
      ''/run/c1/state.json'' 3 demo_os = Ret 3 t" by blast
  have "fs t \<in> moments demo_os t" by (simp add: moments_def)
  moreover have "demo_tree [''run'', ''c1'', ''state.json''] = shown demo_state" by (simp add: demo_tree_def shown_def)
  ultimately have "\<exists>st'. life\<^sup>*\<^sup>* demo_state st' \<and> fs t [''run'', ''c1'', ''state.json''] = Some (Regular (print st'))"
    using state_file_refines_life [OF demo_laws _ _ _ _ demo_confined demo_codes _ demo_printable t, where
        q = "[''run'', ''c1'', ''state.json'']" and f = "fs t"] demo_apart
    by (fastforce simp: in_c_range_def)
  with t show ?thesis by blast
qed

text \<open>
  C7. The exit code of the container process is the one that is recorded: if it is not
  \<^verbatim>\<open>EXIT_FAILURE\<close>, the state file ends with a stopped container with exactly this code, after the
  states created and running, and nothing in between or after.
\<close>

theorem exit_code_recorded:
  assumes "suffix_law E" "full_writes E" "q = resolve (cwd s) StateFile" "apart E (cwd s) PidFile q"
    "leaves_alone q (vm_execute W cfg ''_start'')" "code \<noteq> EXIT_FAILURE"
    "container_process fuel E L W cfg Cid PidFile st StateFile fd s = Ret code t"
  shows "\<exists>n1 n2 n3. fs t q = shown (setStopped n3 code (setRunning n2 (setCreated n1 (mypid E) st))) \<and>
    passes q (map shown (lifecycle (mypid E) st n1 n2 n3 code)) s t"
proof -
  from container_process_completes [OF assms(1-5,7)] obtain n1 n2 n3 c where
    "passes q (map shown (lifecycle (mypid E) st n1 n2 n3 c)) s t"
    "code \<noteq> EXIT_FAILURE \<longrightarrow> c = code \<and> fs t q = shown (last (lifecycle (mypid E) st n1 n2 n3 c))"
    by (auto simp: completes_def)
  with assms(6) show ?thesis by (auto simp: lifecycle_def Let_def)
qed

theorem exit_code_recorded_witness:
  "\<exists>t n1 n2 n3. container_process 5 demo_env demo_bus demo_wasm (wasm_setup sample_bundle) ''c1'' ''/run/c1.pid''
       demo_state ''/run/c1/state.json'' 3 demo_os = Ret 3 t \<and>
     fs t [''run'', ''c1'', ''state.json''] =
       shown (setStopped n3 3 (setRunning n2 (setCreated n1 4711 demo_state)))"
proof -
  have "demo_os\<lparr>tick := 0, calls := []\<rparr> = demo_os" by (simp add: demo_os_def)
  with demo_process [where k = 0 and cs = "[]"] obtain t where
    t: "container_process 5 demo_env demo_bus demo_wasm (wasm_setup sample_bundle) ''c1'' ''/run/c1.pid''
       demo_state ''/run/c1/state.json'' 3 demo_os = Ret 3 t" by metis
  have "leaves_alone q (vm_execute demo_wasm cfg ''_start'')" for q cfg
    using demo_confined by (simp add: engine_confined_def)
  from exit_code_recorded [OF demo_laws _ _ this _ t] demo_apart t show ?thesis
    by (fastforce simp: EXIT_FAILURE_def)
qed



text \<open>
  C5. The container process comes to its end. With a directory for the state file, a free place for the
  pid file, namespaces that exist, a bus on which the scope is entered, and a program that exits
  with code \<open>c\<close>, the process returns \<open>c\<close>; it leaves exactly two files different: the pid file with its
  pid, and the state file of the stopped container.
\<close>

theorem container_process_returns:
  assumes "calm E" "slot E s d n (Some (Regular old))" "slot E s pd pn None"
    "\<And>k. resolve (cwd s) pd @ [pn] \<noteq> resolve (cwd s) d @ [n @ draw E k]"
    "list_all (ns_ready s) (Namespaces (Config st))"
    "enter (Suc fuel) L Cid (setCreated 0 (mypid E) st) (bus s) = Some (Inr (), ck, w)" "\<not> CkUB ck"
    "fd < FD_SETSIZE" "program_ends W cfg c"
  shows "\<exists>t n1 n2 n3. container_process (Suc fuel) E L W cfg Cid (path_append pd pn) st (path_append d n) fd s = Ret c t \<and>
    fs t = (fs s)(resolve (cwd s) pd @ [pn] := Some (Regular (show_int (mypid E))),
      resolve (cwd s) d @ [n] := shown (setStopped n3 c (setRunning n2 (setCreated n1 (mypid E) st))))"
  using container_process_calm [OF assms] by (simp add: lifecycle_def Let_def)

theorem container_process_returns_witness:
  "\<exists>t n1 n2 n3. container_process 5 demo_env demo_bus demo_wasm (wasm_setup sample_bundle) ''c1'' ''/run/c1.pid''
       demo_state ''/run/c1/state.json'' 3 demo_os = Ret 3 t \<and>
     fs t [''run'', ''c1'', ''state.json''] =
       shown (setStopped n3 3 (setRunning n2 (setCreated n1 4711 demo_state)))"
proof -
  from demo_enters obtain ck w where
    e: "enter (Suc 4) demo_bus ''c1'' (setCreated 0 (mypid demo_env) demo_state) (bus demo_os) = Some (Inr (), ck, w)" "\<not> CkUB ck"
    by auto
  have ns: "list_all (ns_ready demo_os) (Namespaces (Config demo_state))"
    by (simp add: ns_ready_def sample_bundle_def)
  have "(3::int) < FD_SETSIZE" by (simp add: FD_SETSIZE_def)
  from container_process_returns [OF demo_calm demo_slots _ ns e this demo_program] show ?thesis
    by fastforce
qed

section \<open>Namespaces\<close>

unbundle bit_operations_syntax

text \<open>
  C16. The namespaces. On success the process has opened every namespace with a path, in the order of
  the bundle, before it unshares anything; it unshares at most once, with exactly the flags of the
  types that come without a path; then it joins the opened namespaces in the same order, each with the
  flag of its type, and closes their descriptors.
\<close>

theorem namespaces_entered:
  assumes "enter_namespaces E Descs s = Ret True t"
  shows "\<exists>u fds. length fds = length (joined Descs) \<and>
    calls t = calls s @ map (\<lambda>d. OpenFd (NsPath d)) (joined Descs) @ (if u = 0 then [] else [Unshare u]) @
      concat (map2 (\<lambda>fd d. [SetNs fd (the (namespace_flag (NsType d))), CloseFd fd]) fds (joined Descs)) \<and>
    (\<forall>ty F. namespace_flag ty = Some F \<longrightarrow>
       (u AND F \<noteq> 0 \<longleftrightarrow> (\<exists>d \<in> set Descs. NsType d = ty \<and> NsPath d = [])))"
proof -
  from enter_namespaces_calls [OF assms] obtain u fds where u: "length fds = length (joined Descs)"
    "calls t = calls s @ map (\<lambda>d. OpenFd (NsPath d)) (joined Descs) @ (if u = 0 then [] else [Unshare u]) @
      concat (map2 (\<lambda>fd d. [SetNs fd (the (namespace_flag (NsType d))), CloseFd fd]) fds (joined Descs))"
    "\<forall>F \<in> set ns_flag_list. u AND F \<noteq> 0 \<longleftrightarrow> asks_unshare Descs F" by (elim exE conjE) (rule that)
  have "u AND F \<noteq> 0 \<longleftrightarrow> (\<exists>d \<in> set Descs. NsType d = ty \<and> NsPath d = [])" if ty: "namespace_flag ty = Some F" for ty F
  proof -
    have "asks_unshare Descs F \<longleftrightarrow> (\<exists>d \<in> set Descs. NsType d = ty \<and> NsPath d = [])"
      unfolding asks_unshare_def using ty flag_inject [OF _ ty] by blast
    with u(3) flag_known [OF ty] show ?thesis by simp
  qed
  then show ?thesis by (intro exI [of _ u] exI [of _ fds] conjI allI impI u)
qed

theorem namespaces_entered_witness:
  "\<exists>t u fds. enter_namespaces demo_env [\<lparr>NsType = ''network'', NsPath = ''/b''\<rparr>, \<lparr>NsType = ''pid'', NsPath = []\<rparr>] demo_os = Ret True t \<and>
     calls t = [OpenFd ''/b'', Unshare u, SetNs (hd fds) CLONE_NEWNET, CloseFd (hd fds)] \<and> u AND CLONE_NEWPID \<noteq> 0"
proof -
  let ?ds = "[\<lparr>NsType = ''network'', NsPath = ''/b''\<rparr>, \<lparr>NsType = ''pid'', NsPath = []\<rparr>]"
  have "list_all (ns_ready demo_os) ?ds"
    by (simp add: ns_ready_def node_of_def resolve_def components_def is_absolute_def demo_tree_def)
  from namespaces_calm [OF demo_calm this] obtain t where t: "enter_namespaces demo_env ?ds demo_os = Ret True t" by blast
  have fl: "namespace_flag ''pid'' = Some CLONE_NEWPID" "namespace_flag ''network'' = Some CLONE_NEWNET"
    by (simp_all add: namespace_flag_def)
  then have j: "joined ?ds = [\<lparr>NsType = ''network'', NsPath = ''/b''\<rparr>]" by (simp add: joined_def)
  from namespaces_entered [OF t] obtain u fds where u: "length fds = length (joined ?ds)"
    "calls t = calls demo_os @ map (\<lambda>d. OpenFd (NsPath d)) (joined ?ds) @ (if u = 0 then [] else [Unshare u]) @
      concat (map2 (\<lambda>fd d. [SetNs fd (the (namespace_flag (NsType d))), CloseFd fd]) fds (joined ?ds))"
    and bits: "\<And>ty F. namespace_flag ty = Some F \<Longrightarrow>
      (u AND F \<noteq> 0 \<longleftrightarrow> (\<exists>d \<in> set ?ds. NsType d = ty \<and> NsPath d = []))" by blast
  have pid: "u AND CLONE_NEWPID \<noteq> 0" using bits [OF fl(1)] by simp
  then have "u \<noteq> 0" by auto
  moreover obtain fd where fd: "fds = [fd]" using u(1) j by (cases fds) auto
  ultimately have "calls t = [OpenFd ''/b'', Unshare u, SetNs fd CLONE_NEWNET, CloseFd fd]"
    using u(2) j fl(2) by simp
  with t pid fd show ?thesis by (intro exI [of _ t] exI [of _ u] exI [of _ fds]) simp
qed

end
