(* ===== verification/Command_Laws.thy ===== *)
theory Command_Laws
  imports Commands Lifecycle State_Properties
begin

text \<open>
  What is proved of the commands: which signal \<^verbatim>\<open>kill\<close> sends to which process, that a container is
  started at most once, and what \<^verbatim>\<open>delete\<close> and \<^verbatim>\<open>create\<close> do to the file tree.
\<close>

section \<open>Loading the state\<close>

text \<open>The parser sees the files of the tree and nothing else of the state.\<close>

lemma seen_files_cong: "fs t = fs s \<Longrightarrow> cwd t = cwd s \<Longrightarrow> seen_files E D t = seen_files E D s"
  by (simp add: fun_eq_iff seen_files_def parser_load_def node_of_def)

lemma seen_files_upd [simp]:
  "seen_files E D (s\<lparr>tick := n\<rparr>) = seen_files E D s" "seen_files E D (s\<lparr>calls := cs\<rparr>) = seen_files E D s"
  by (rule seen_files_cong; simp)+

lemma load_state_Ret:
  "load_state E D F name s = Ret r t \<longleftrightarrow> t = s \<and>
     (case state_load D (seen_files E D s) F name default_state of
        Done st \<Rightarrow> r = Some st | Failed _ \<Rightarrow> r = None | Undef \<Rightarrow> False)"
  by (auto simp: load_state_def split: outcome.split)

lemma load_state_quiet: "obeys untouched (load_state E D F name)"
  by (auto simp: obeys_def load_state_def untouched_def split: outcome.split)

section \<open>\<^verbatim>\<open>doKill\<close>\<close>

lemma doKill_quiet: "obeys untouched (doKill E D Root name Cid Sig)"
  unfolding doKill_def
  by (intro looking.opt looking.cond looking.bind looking.return looking.ub quiet_calls load_state_quiet)

lemma loaded_pid:
  assumes "state_load D files F name default_state = Done st" "\<not> Pid st < 0"
  shows "Status st = Created \<or> Status st = Running"
  using state_load_Done(1,3) [OF assms(1)] assms(2) by (cases "Status st") (auto simp: default_state_def)

text \<open>At most one signal is sent; if one is, it goes to the pid of a live container.\<close>

lemma doKill_calls:
  assumes "doKill E D Root name Cid Sig s = Ret code t"
  shows "(calls t = calls s \<and> code = EXIT_FAILURE) \<or>
    (\<exists>n st. parseSignal Sig = Some n \<and> 0 \<le> n \<and>
       state_load D (seen_files E D s) (state_file Root Cid) name default_state = Done st \<and>
       (Status st = Created \<or> Status st = Running) \<and> 0 \<le> Pid st \<and>
       calls t = calls s @ [Kill (Pid st) n] \<and>
       code = (if ret E (Suc (tick s)) = 0 then EXIT_SUCCESS else EXIT_FAILURE))"
proof (cases "parseSignal Sig")
  case None
  with assms show ?thesis by (simp add: doKill_def ubP_def)
next
  case (Some n)
  show ?thesis
  proof (cases "n < 0 \<or> \<not> (0 \<le> ret E (tick s) \<and> is_regular (node_of s (state_file Root Cid)))")
    case True
    with assms Some show ?thesis
      by (auto simp: doKill_def returnP_def bindP_def is_regular_file_eq split: if_splits)
  next
    case False
    let ?s = "s\<lparr>tick := Suc (tick s)\<rparr>"
    from False assms Some obtain r where r: "load_state E D (state_file Root Cid) name ?s = Ret r ?s"
      and rest: "(case r of None \<Rightarrow> returnP EXIT_FAILURE
            | Some st \<Rightarrow>
                if getPid st < 0 then returnP EXIT_FAILURE else
                bindP (sys E (Kill (getPid st) n)) (\<lambda>res.
                  if res \<noteq> 0 then returnP EXIT_FAILURE else returnP EXIT_SUCCESS)) ?s = Ret code t"
      by (auto simp: doKill_def bindP_def is_regular_file_eq load_state_def split: outcome.splits)
    show ?thesis
    proof (cases "r = None \<or> getPid (the r) < 0")
      case True
      with rest show ?thesis by (auto simp: returnP_def split: option.splits)
    next
      case False
      then obtain st where st: "r = Some st" "\<not> Pid st < 0" by (auto simp: getPid_def)
      from r st(1) have load: "state_load D (seen_files E D s) (state_file Root Cid) name default_state = Done st"
        by (auto simp: load_state_Ret split: outcome.splits)
      have "calls t = calls s @ [Kill (Pid st) n]"
        "code = (if ret E (Suc (tick s)) = 0 then EXIT_SUCCESS else EXIT_FAILURE)"
        using rest st by (auto simp: getPid_def bindP_def sys_def returnP_def split: if_splits)
      with load st(2) loaded_pid [OF load st(2)] Some \<open>\<not> (n < 0 \<or> _)\<close> show ?thesis by auto
    qed
  qed
qed

text \<open>The exact result when the state file is the print of a state.\<close>

lemma state_loads:
  assumes "parses_flat D" "dom_laws D" "printable st" "Status st \<noteq> Unknown"
    "node_of s F = Some (Regular (print st))" "\<not> unreadable E F"
    "load D (seen_files E D s) (BundlePath st) name empty_bundle = Done b"
  shows "state_load D (seen_files E D s) F name default_state = Done (persisted st b)"
  using assms(1-4) by (rule read_back) (use assms(5-7) in \<open>simp_all add: seen_files_def parser_load_def\<close>)

lemma doKill_exact:
  assumes "state_load D (seen_files E D s) (state_file Root Cid) name default_state = Done (persisted st b)"
    "is_regular (node_of s (state_file Root Cid))" "0 \<le> ret E (tick s)" "parseSignal Sig = Some n" "0 \<le> n"
  shows "doKill E D Root name Cid Sig s =
    (if (Status st = Created \<or> Status st = Running) \<and> 0 \<le> Pid st
     then Ret (if ret E (Suc (tick s)) = 0 then EXIT_SUCCESS else EXIT_FAILURE)
            (s\<lparr>tick := Suc (Suc (tick s)), calls := calls s @ [Kill (Pid st) n]\<rparr>)
     else Ret EXIT_FAILURE (s\<lparr>tick := Suc (tick s)\<rparr>))"
  using assms
  by (simp add: doKill_def bindP_def is_regular_file_eq load_state_def getPid_def sys_def returnP_def persisted_def
      linorder_not_less)

section \<open>\<^verbatim>\<open>doStart\<close>\<close>

lemma doStart_success:
  assumes "doStart E D Root name Cid s = Ret EXIT_SUCCESS t"
  shows "node_of s (fifo_file Root Cid) \<noteq> None \<and> node_of s (fifo_file Root Cid) \<noteq> Some Dir \<and>
    fs t = (fs s)(resolve (cwd s) (fifo_file Root Cid) := None) \<and> cwd t = cwd s \<and>
    (\<exists>fd. 0 \<le> fd \<and> calls t = calls s @ [OpenFd (fifo_file Root Cid), WriteFd fd 0, CloseFd fd, CloseFd fd])"
proof -
  let ?p = "fifo_file Root Cid" and ?s = "s\<lparr>tick := Suc (tick s)\<rparr>"
  from assms obtain r where l: "load_state E D (state_file Root Cid) name ?s = Ret (Some r) ?s"
    and rest: "bindP (open_fd E ?p) (\<lambda>ExecFifoFd.
       if ExecFifoFd < 0 then returnP EXIT_FAILURE else
     bindP (bindP (unlink E ?p) (\<lambda>Ret.
              if Ret < 0 then returnP EXIT_FAILURE else
            bindP (sys E (WriteFd ExecFifoFd 0)) (\<lambda>Ret.
              if Ret < 0 then returnP EXIT_FAILURE else
            bindP (sys E (CloseFd ExecFifoFd)) (\<lambda>_. returnP EXIT_SUCCESS)))) (\<lambda>code.
     bindP (sys E (CloseFd ExecFifoFd)) (\<lambda>_. returnP code))) ?s = Ret EXIT_SUCCESS t"
    by (auto simp: doStart_def bindP_def is_regular_file_eq load_state_def returnP_def EXIT_SUCCESS_def EXIT_FAILURE_def
        split: outcome.splits if_splits)
  show ?thesis
    using rest
    by (auto simp: bindP_def returnP_def open_fd_def unlink_def sys_def pop_def node_of_def set_node_def set_tree_def
        EXIT_SUCCESS_def EXIT_FAILURE_def split: if_splits option.splits node.splits)
qed

lemma doStart_refused:
  assumes "node_of s (fifo_file Root Cid) = None" "doStart E D Root name Cid s = Ret code t"
  shows "code = EXIT_FAILURE \<and> fs t = fs s"
  using assms
  by (auto simp: doStart_def bindP_def is_regular_file_eq load_state_def returnP_def open_fd_def sys_def
      split: outcome.splits if_splits)

section \<open>\<^verbatim>\<open>doDelete\<close>\<close>

lemma remove_all_Ret_True:
  "remove_all E p s = Ret True t \<Longrightarrow> p \<noteq> [] \<Longrightarrow> \<not> dotted p \<Longrightarrow>
     fs t = (\<lambda>q. if prefix (resolve (cwd s) p) q \<and> q \<noteq> [] then None else fs s q) \<and> cwd t = cwd s"
  by (auto simp: remove_all_def pop_def Let_def set_tree_def split: if_splits)

lemma remove_all_result:
  "remove_all E p s = Ret b t \<Longrightarrow> tick t = Suc (tick s) \<and> (0 \<le> ret E (tick s) \<longrightarrow> b)"
  by (auto simp: remove_all_def pop_def Let_def set_tree_def split: if_splits)

lemma container_root_plain:
  assumes "plain_name Cid" "Root \<noteq> []"
  shows "container_root Root Cid \<noteq> []" "\<not> dotted (container_root Root Cid)"
  using assms dotted_append [OF assms]
  by (cases Cid; auto simp: container_root_def path_append_def plain_name_def is_absolute_def)+

lemma doDelete_gone:
  assumes "plain_name Cid" "Root \<noteq> []" "\<not> Force \<or> 0 \<le> ret E (Suc (tick s))"
    "doDelete E W Root Cid Force s = Ret EXIT_SUCCESS t"
  shows "\<exists>u. (\<not> Force \<longrightarrow> node_of s (container_root Root Cid) = Some Dir) \<and> cache_clear W Cid u = Ret () t \<and>
    fs u = (\<lambda>q. if prefix (resolve (cwd s) (container_root Root Cid)) q \<and> q \<noteq> [] then None else fs s q)"
proof -
  let ?p = "container_root Root Cid" and ?s = "s\<lparr>tick := Suc (tick s)\<rparr>"
  from assms(4) obtain ok u where d: "\<not> Force \<longrightarrow> node_of s ?p = Some Dir" and r: "remove_all E ?p ?s = Ret ok u"
    and ok: "ok \<or> Force" and c: "cache_clear W Cid u = Ret () t"
    by (auto simp: doDelete_def bindP_Ret_iff is_directory_def pop_def returnP_def EXIT_SUCCESS_def EXIT_FAILURE_def
        split: if_splits)
  from ok assms(3) remove_all_result [OF r] have "ok" by auto
  with r remove_all_Ret_True [of E ?p ?s u] container_root_plain [OF assms(1,2)]
  have "fs u = (\<lambda>q. if prefix (resolve (cwd s) ?p) q \<and> q \<noteq> [] then None else fs s q)" by (simp add: fun_eq_iff)
  with d c show ?thesis by blast
qed

lemma doDelete_forced: "doDelete E W Root Cid True s = Ret code t \<Longrightarrow> code = EXIT_SUCCESS"
  by (auto simp: doDelete_def bindP_Ret_iff returnP_def)

section \<open>\<^verbatim>\<open>doCreate\<close>\<close>

lemma tree_wf_prefixes:
  assumes "tree_wf f" "f q \<noteq> None" "prefix d q"
  shows "f d \<noteq> None"
  using assms(2,3)
proof (induction q rule: rev_induct)
  case (snoc n q)
  have "f q = Some Dir" using snoc.prems(1) assms(1) unfolding tree_wf_def by blast
  with snoc show ?case by (auto simp: prefix_snoc)
qed auto

lemma create_refuses:
  assumes "tree_wf (fs s)" "node_of s (container_root Root Cid) \<noteq> None"
  shows "doCreate fuel E D L W Root Systemd name Cid Path Console PidFile s =
    Ret EXIT_FAILURE (s\<lparr>tick := Suc (tick s)\<rparr>)"
proof -
  let ?q = "resolve (cwd s) (container_root Root Cid)"
  have "fs s ?q \<noteq> None" using assms(2) by (auto simp: node_of_def split: if_splits)
  from tree_wf_prefixes [OF assms(1) this] have "missing_dirs (fs s) ?q = []"
    by (auto simp: missing_dirs_def filter_empty_conv)
  then show ?thesis
    by (simp add: doCreate_def bindP_def create_directories_def pop_def Let_def returnP_def)
qed


text \<open>The server side only talks to the pipe and waits: the tree is as the other processes have left it.\<close>

definition waited :: "env \<Rightarrow> 'w os \<Rightarrow> 'w os \<Rightarrow> bool" where
  "waited E s t \<longleftrightarrow> cwd t = cwd s \<and>
     (\<exists>k. fs t = others E (Suc k) (others E k (fs s)) \<and> hist t = hist s @ [others E k (fs s), fs t])"

lemma waited_spare: "waited E s t \<Longrightarrow> others_spare E q \<Longrightarrow> fs t q = fs s q"
  by (auto simp: waited_def others_spare_def)

lemma waited_cong:
  "fs s' = fs s \<Longrightarrow> cwd s' = cwd s \<Longrightarrow> hist s' = hist s \<Longrightarrow> fs t' = fs t \<Longrightarrow> cwd t' = cwd t \<Longrightarrow> hist t' = hist t \<Longrightarrow>
     waited E s t \<Longrightarrow> waited E s' t'"
  by (simp add: waited_def)

lemma create_server_Ret:
  "create_server E pid s = Ret (code, ok) t \<Longrightarrow> waited E s t \<and> (ok \<longleftrightarrow> code = EXIT_SUCCESS) \<and> (\<not> ok \<longrightarrow> code = EXIT_FAILURE)"
  by (auto simp: create_server_def bindP_def sys_def block_def last_data_def returnP_def waited_def set_tree_def
      EXIT_SUCCESS_def EXIT_FAILURE_def split: if_splits)

lemma open_console_quiet: "obeys untouched (open_console E path)"
  unfolding open_console_def by (intro looking.cond looking.bind looking.return quiet_calls)

lemma create_daemon_Ret:
  assumes "create_daemon fuel E L W Cid P st F fd path s = Ret (code, ok) t"
  shows "code = EXIT_FAILURE \<and> (if ok then \<exists>c. WritePipe c \<in> set (calls t) else untouched s t)"
proof -
  from assms obtain c s1 where o1: "open_console E path s = Ret c s1"
    and rest: "(case c of None \<Rightarrow> returnP (EXIT_FAILURE, False)
       | Some ConsoleFd \<Rightarrow>
     bindP (doRunInternal fuel E L W Cid P st F fd) (\<lambda>Code.
     bindP (sys E (WritePipe Code)) (\<lambda>_.
     bindP (sys E CloseWriteEnd) (\<lambda>_.
     bindP (if ConsoleFd \<ge> 0 then sys E (CloseFd ConsoleFd) else returnP 0) (\<lambda>_.
     returnP (EXIT_FAILURE, True)))))) s1 = Ret (code, ok) t"
    unfolding create_daemon_def by (auto simp: bindP_Ret_iff)
  show ?thesis
    using rest obeys_Ret [OF open_console_quiet o1]
    by (auto simp: bindP_Ret_iff returnP_def sys_def split: option.splits if_splits)
qed

text \<open>
  The three sides of the fork: with a failure without the flag \<^verbatim>\<open>Success\<close> the process has touched no
  file itself, and only the server can report success.
\<close>

lemma create_fork_Ret:
  assumes "create_fork fuel E L W Cid P st F fd path s = Ret (code, ok) t"
  shows "(\<not> ok \<longrightarrow> code = EXIT_FAILURE \<and> (untouched s t \<or> waited E s t)) \<and>
    (code = EXIT_SUCCESS \<longrightarrow> ok \<and> waited E s t) \<and>
    (ok \<and> code \<noteq> EXIT_SUCCESS \<longrightarrow> code = EXIT_FAILURE \<and> (\<exists>c. WritePipe c \<in> set (calls t)))"
proof -
  let ?s1 = "s\<lparr>tick := Suc (tick s), calls := calls s @ [Pipe]\<rparr>"
  let ?s2 = "s\<lparr>tick := Suc (Suc (tick s)), calls := calls s @ [Pipe, Fork]\<rparr>"
  let ?s3 = "s\<lparr>tick := Suc (Suc (Suc (tick s))), calls := calls s @ [Pipe, Fork, CloseReadEnd]\<rparr>"
  let ?s5 = "s\<lparr>tick := Suc (Suc (Suc (Suc (Suc (tick s))))), calls := calls s @ [Pipe, Fork, CloseReadEnd, SetSid, Fork]\<rparr>"
  have diff: "EXIT_SUCCESS \<noteq> EXIT_FAILURE" by (simp add: EXIT_SUCCESS_def EXIT_FAILURE_def)
  consider (early) "code = EXIT_FAILURE" "\<not> ok" "untouched s t"
    | (server) pid where "create_server E pid ?s2 = Ret (code, ok) t"
    | (daemon) "create_daemon fuel E L W Cid P st F fd path ?s5 = Ret (code, ok) t"
    using assms
    by (auto simp: create_fork_def create_child_def bindP_def sys_def returnP_def exitP_def untouched_def
        split: if_splits)
  then show ?thesis
  proof cases
    case server
    from create_server_Ret [OF this] diff show ?thesis by (auto simp: waited_def)
  next
    case daemon
    from create_daemon_Ret [OF this] diff show ?thesis by (auto simp: untouched_def split: if_splits)
  qed (use diff in auto)
qed


text \<open>The files of a container lie below its directory.\<close>

lemma container_files:
  assumes "container_root Root Cid \<noteq> []"
  shows "resolve d (state_file Root Cid) = resolve d (container_root Root Cid) @ [''state.json'']"
    "resolve d (fifo_file Root Cid) = resolve d (container_root Root Cid) @ [''exec.fifo'']"
    "state_file Root Cid \<noteq> []" "fifo_file Root Cid \<noteq> []"
proof -
  have "path_append p n \<noteq> []" if "n \<noteq> []" for p n
    using that by (simp add: path_append_def)
  then show "resolve d (state_file Root Cid) = resolve d (container_root Root Cid) @ [''state.json'']"
    "resolve d (fifo_file Root Cid) = resolve d (container_root Root Cid) @ [''exec.fifo'']"
    "state_file Root Cid \<noteq> []" "fifo_file Root Cid \<noteq> []"
    using assms by (simp_all add: state_file_def fifo_file_def resolve_append plain_name_def)
qed

lemma state_temp_below:
  assumes "suffix_law E" "container_root Root Cid \<noteq> []" "\<not> prefix (resolve d (container_root Root Cid)) q"
  shows "foreign E d (state_file Root Cid) q"
proof -
  have "resolve d (state_file Root Cid @ draw E k) = resolve d (container_root Root Cid) @ [''state.json'' @ draw E k]" for k
    unfolding state_file_def by (rule resolve_temp) (use assms in \<open>simp_all add: plain_name_def\<close>)
  with assms(3) show ?thesis by (auto simp: foreign_def)
qed

text \<open>
  \<open>create_container\<close>: without the flag, the process has changed places below the directory only; with
  \<^verbatim>\<open>EXIT_SUCCESS\<close>, the bundle was loaded and the two files were there when the fork happened.
\<close>

lemma create_container_Ret:
  assumes law: "suffix_law E" and ne: "container_root Root Cid \<noteq> []"
    and run: "create_container fuel E D L W Root Systemd name Cid Path Console PidFile s = Ret (code, ok) t"
  shows "(\<not> ok \<longrightarrow> code = EXIT_FAILURE \<and> cwd t = cwd s \<and>
        (\<forall>q. \<not> prefix (resolve (cwd s) (container_root Root Cid)) q \<and> others_spare E q \<longrightarrow> fs t q = fs s q)) \<and>
    (ok \<and> code \<noteq> EXIT_SUCCESS \<longrightarrow> code = EXIT_FAILURE \<and> (\<exists>c. WritePipe c \<in> set (calls t))) \<and>
    (full_writes E \<and> code = EXIT_SUCCESS \<longrightarrow> ok \<and> (\<exists>b v. load D (seen_files E D s) Path name empty_bundle = Done b \<and>
        node_of v (state_file Root Cid) =
          shown (setCreating (setSystemdCgroup Systemd ((new_state Cid Path)\<lparr>Config := b\<rparr>))) \<and>
        node_of v (fifo_file Root Cid) = Some Fifo \<and> (\<exists>h. hist v = hist s @ h @ [fs v]) \<and>
        cwd v = cwd s \<and>
        (\<forall>q. \<not> prefix (resolve (cwd s) (container_root Root Cid)) q \<longrightarrow> fs v q = fs s q) \<and> waited E v t))"
proof (cases "loadBundle D (seen_files E D s) name (new_state Cid Path)")
  case Undef
  with run show ?thesis by (simp add: create_container_def)
next
  case (Failed x)
  with run show ?thesis by (auto simp: create_container_def EXIT_SUCCESS_def EXIT_FAILURE_def)
next
  case (Done st0)
  let ?q = "resolve (cwd s) (container_root Root Cid)"
  define st where "st = setCreating (setSystemdCgroup Systemd st0)"
  note files = container_files [OF ne]
  have diff: "EXIT_SUCCESS \<noteq> EXIT_FAILURE" by (simp add: EXIT_SUCCESS_def EXIT_FAILURE_def)
  from Done obtain b where b: "load D (seen_files E D s) Path name empty_bundle = Done b"
    and st0: "st0 = (new_state Cid Path)\<lparr>Config := b\<rparr>"
    by (auto simp: loadBundle_def new_state_def default_state_def split: outcome.splits)
  from run Done obtain ok1 s1 where w: "atomicCreateAndWriteFile fuel E (state_file Root Cid) (print st) s = Ret ok1 s1"
    and rest: "(if \<not> ok1 then returnP (EXIT_FAILURE, False) else
           bindP (mkfifo E (fifo_file Root Cid)) (\<lambda>Ret.
             if Ret < 0 then returnP (EXIT_FAILURE, False) else
           bindP (open_fd E (fifo_file Root Cid)) (\<lambda>ExecFifoFd.
             if ExecFifoFd < 0 then returnP (EXIT_FAILURE, False) else
           bindP (create_fork fuel E L W Cid PidFile st (state_file Root Cid) ExecFifoFd Console) (\<lambda>r.
           bindP (sys E (CloseFd ExecFifoFd)) (\<lambda>_. returnP r))))) s1 = Ret (code, ok) t"
    by (auto simp: create_container_def Let_def bindP_Ret_iff st_def [symmetric])
  have away: "fs s1 q = fs s q" if "\<not> prefix ?q q" for q
  proof -
    have "q \<noteq> resolve (cwd s) (state_file Root Cid)" using that files(1) by auto
    from create.elsewhere [OF law w this state_temp_below [OF law ne that]] show ?thesis
      by (auto simp: shows_only_def)
  qed
  have cwd1: "cwd s1 = cwd s" using create.put_stored [OF law w]
    by (auto simp: stored_def shows_only_def switches_def split: if_splits)
  show ?thesis
  proof (cases ok1)
    case False
    with rest away cwd1 diff show ?thesis by (auto simp: returnP_def)
  next
    case True
    from True rest obtain r s2 where m: "mkfifo E (fifo_file Root Cid) s1 = Ret r s2"
      and rest2: "(if r < 0 then returnP (EXIT_FAILURE, False) else
           bindP (open_fd E (fifo_file Root Cid)) (\<lambda>ExecFifoFd.
             if ExecFifoFd < 0 then returnP (EXIT_FAILURE, False) else
           bindP (create_fork fuel E L W Cid PidFile st (state_file Root Cid) ExecFifoFd Console) (\<lambda>r.
           bindP (sys E (CloseFd ExecFifoFd)) (\<lambda>_. returnP r)))) s2 = Ret (code, ok) t"
      by (auto simp: bindP_Ret_iff)
    have M: "fs s2 q = fs s q" if "\<not> prefix ?q q" for q
      using m away that files cwd1
      by (auto simp: mkfifo_def pop_def set_node_def set_tree_def split: if_splits)
    have cwd2: "cwd s2 = cwd s" using m cwd1
      by (auto simp: mkfifo_def pop_def set_node_def set_tree_def split: if_splits)
    have S: "node_of s2 (state_file Root Cid) = shown st \<and> node_of s2 (fifo_file Root Cid) = Some Fifo \<and>
        (\<exists>h. hist s2 = hist s @ h @ [fs s2])" if r: "0 \<le> r" and full: "full_writes E"
    proof -
      from True w have "node_of s1 (state_file Root Cid) = shown st"
        using create.written [OF law full] by (simp add: shown_def)
      moreover from obeys_Ret [OF create.put_tree w] obtain h where "hist s1 = hist s @ h"
        by (auto simp: tree_kept_def)
      ultimately show ?thesis
        using m r files cwd1
        by (auto simp: mkfifo_def pop_def node_of_def set_node_def set_tree_def split: if_splits)
    qed
    let ?s3 = "s2\<lparr>tick := Suc (tick s2), calls := calls s2 @ [OpenFd (fifo_file Root Cid)]\<rparr>"
    consider (early) "code = EXIT_FAILURE" "\<not> ok" "untouched s2 t"
      | (forked) fd s4 where "0 \<le> r" "create_fork fuel E L W Cid PidFile st (state_file Root Cid) fd Console ?s3 = Ret (code, ok) s4"
        "t = s4\<lparr>tick := Suc (tick s4), calls := calls s4 @ [CloseFd fd]\<rparr>"
      using rest2
      by (auto simp: bindP_Ret_iff returnP_def open_fd_def sys_def untouched_def split: if_splits)
    then show ?thesis
    proof cases
      case early
      with M cwd2 diff show ?thesis by (auto simp: untouched_def)
    next
      case forked
      note F = create_fork_Ret [OF forked(2)]
      have end_state: "fs t = fs s4" "cwd t = cwd s4" "hist t = hist s4" using forked(3) by simp_all
      have kept: "cwd t = cwd s \<and> (\<forall>q. \<not> prefix ?q q \<and> others_spare E q \<longrightarrow> fs t q = fs s q)"
        if "untouched ?s3 s4 \<or> waited E ?s3 s4"
      proof -
        have "fs s4 q = fs ?s3 q" if "others_spare E q" for q
          using \<open>untouched ?s3 s4 \<or> waited E ?s3 s4\<close> waited_spare [of E ?s3 s4, OF _ that] by (auto simp: untouched_def)
        moreover have "cwd s4 = cwd ?s3"
          using \<open>untouched ?s3 s4 \<or> waited E ?s3 s4\<close> by (auto simp: untouched_def waited_def)
        ultimately show ?thesis using M cwd2 end_state by simp
      qed
      have fine: "waited E s2 t" if "waited E ?s3 s4"
        using that end_state by (simp add: waited_def)
      have "\<exists>b v. load D (seen_files E D s) Path name empty_bundle = Done b \<and>
          node_of v (state_file Root Cid) =
            shown (setCreating (setSystemdCgroup Systemd ((new_state Cid Path)\<lparr>Config := b\<rparr>))) \<and>
          node_of v (fifo_file Root Cid) = Some Fifo \<and> (\<exists>h. hist v = hist s @ h @ [fs v]) \<and>
          cwd v = cwd s \<and> (\<forall>q. \<not> prefix ?q q \<longrightarrow> fs v q = fs s q) \<and> waited E v t"
        if "full_writes E" "waited E ?s3 s4"
        using S [OF forked(1) that(1)] fine [OF that(2)] b st0 M cwd2
        by (intro exI [of _ b] exI [of _ s2]) (simp add: st_def)
      with F kept forked(3) diff show ?thesis by (cases ok; cases "code = EXIT_SUCCESS") auto
    qed
  qed
qed

text \<open>\<^verbatim>\<open>create_directories\<close> adds directories and changes nothing else.\<close>

lemma create_directories_adds:
  assumes "create_directories E p s = Ret b t"
  shows "cwd t = cwd s \<and> (fs s q \<noteq> None \<longrightarrow> fs t q = fs s q)"
proof
  show "cwd t = cwd s"
    using assms by (auto simp: create_directories_def pop_def Let_def split: if_splits)
  show "fs s q \<noteq> None \<longrightarrow> fs t q = fs s q"
    using seen_create_directories [OF assms, of q] by (auto simp: shows_only_def)
qed

lemma create_directories_new:
  assumes "create_directories E p s = Ret True t" "tree_wf (fs s)"
  shows "p \<noteq> [] \<and> node_of s p = None"
proof -
  let ?q = "resolve (cwd s) p"
  from assms(1) have p: "p \<noteq> []" "missing_dirs (fs s) ?q \<noteq> []"
    by (auto simp: create_directories_def pop_def Let_def split: if_splits)
  then obtain d where "prefix d ?q" "fs s d = None"
    by (auto simp: missing_dirs_def filter_empty_conv)
  with tree_wf_prefixes [OF assms(2), of ?q d] have "fs s ?q = None" by blast
  with p show ?thesis by (simp add: node_of_def)
qed

lemma doCreate_stages:
  assumes "doCreate fuel E D L W Root Systemd name Cid Path Console PidFile s = Ret code t"
  obtains (refused) "create_directories E (container_root Root Cid) s = Ret False t" "code = EXIT_FAILURE"
    | (kept) u where "create_directories E (container_root Root Cid) s = Ret True u"
      "create_container fuel E D L W Root Systemd name Cid Path Console PidFile u = Ret (code, True) t"
    | (removed) u v b where "create_directories E (container_root Root Cid) s = Ret True u"
      "create_container fuel E D L W Root Systemd name Cid Path Console PidFile u = Ret (code, False) v"
      "remove_all E (container_root Root Cid) v = Ret b t"
  using assms unfolding doCreate_def
  by (auto simp: bindP_Ret_iff returnP_def split: if_splits)

lemma doCreate_success:
  assumes law: "suffix_law E" "full_writes E" "tree_wf (fs s)"
    and run: "doCreate fuel E D L W Root Systemd name Cid Path Console PidFile s = Ret EXIT_SUCCESS t"
  shows "node_of s (container_root Root Cid) = None \<and>
    (\<exists>b u v. create_directories E (container_root Root Cid) s = Ret True u \<and>
       load D (seen_files E D u) Path name empty_bundle = Done b \<and>
       node_of v (state_file Root Cid) =
         shown (setCreating (setSystemdCgroup Systemd ((new_state Cid Path)\<lparr>Config := b\<rparr>))) \<and>
       node_of v (fifo_file Root Cid) = Some Fifo \<and> cwd v = cwd s \<and>
       (\<forall>q. fs s q \<noteq> None \<longrightarrow> fs v q = fs s q) \<and> fs v \<in> moments s t \<and> waited E v t)"
  using run
proof (cases rule: doCreate_stages)
  case refused
  then show ?thesis by (simp add: EXIT_SUCCESS_def EXIT_FAILURE_def)
next
  case (kept u)
  note new = create_directories_new [OF kept(1) law(3)]
  let ?q = "resolve (cwd s) (container_root Root Cid)"
  from new have ne: "container_root Root Cid \<noteq> []" by simp
  have u: "cwd u = cwd s" "\<And>q. fs s q \<noteq> None \<Longrightarrow> fs u q = fs s q"
    using create_directories_adds [OF kept(1)] by auto
  from obeys_Ret [OF tree_create_directories kept(1)] obtain h0 where h0: "hist u = hist s @ h0"
    by (auto simp: tree_kept_def)
  from create_container_Ret [OF law(1) ne kept(2)] law(2) have
    "\<exists>b v. load D (seen_files E D u) Path name empty_bundle = Done b \<and>
      node_of v (state_file Root Cid) = shown (setCreating (setSystemdCgroup Systemd ((new_state Cid Path)\<lparr>Config := b\<rparr>))) \<and>
      node_of v (fifo_file Root Cid) = Some Fifo \<and> (\<exists>h. hist v = hist u @ h @ [fs v]) \<and>
      cwd v = cwd u \<and> (\<forall>q. \<not> prefix (resolve (cwd u) (container_root Root Cid)) q \<longrightarrow> fs v q = fs u q) \<and> waited E v t"
    by (simp only: simp_thms)
  then obtain b v h where
    v: "load D (seen_files E D u) Path name empty_bundle = Done b"
      "node_of v (state_file Root Cid) = shown (setCreating (setSystemdCgroup Systemd ((new_state Cid Path)\<lparr>Config := b\<rparr>)))"
      "node_of v (fifo_file Root Cid) = Some Fifo" "hist v = hist u @ h @ [fs v]"
      "cwd v = cwd u" "\<forall>q. \<not> prefix (resolve (cwd u) (container_root Root Cid)) q \<longrightarrow> fs v q = fs u q" "waited E v t"
    by (elim exE conjE) (rule that)
  have old: "fs v q = fs s q" if "fs s q \<noteq> None" for q
  proof -
    have "\<not> prefix ?q q"
      using tree_wf_prefixes [OF law(3) that, of ?q] new by (auto simp: node_of_def split: if_splits)
    with v(6) u that show ?thesis by simp
  qed
  have "fs v \<in> moments s t" using v(4,7) h0 by (auto simp: moments_def waited_def)
  with new kept(1) v(1-3,5,7) u(1) old show ?thesis
    by - (rule conjI, simp, rule exI [of _ b], rule exI [of _ u], rule exI [of _ v], simp)
next
  case (removed u v b)
  note new = create_directories_new [OF removed(1) law(3)]
  then have "container_root Root Cid \<noteq> []" by simp
  from create_container_Ret [OF law(1) this removed(2)] law(2) show ?thesis
    by (simp add: EXIT_SUCCESS_def EXIT_FAILURE_def)
qed

lemma doCreate_failure:
  assumes law: "suffix_law E" "tree_wf (fs s)" "0 \<le> ret E (tick t - 1)" and Cid: "plain_name Cid" "Root \<noteq> []"
    and run: "doCreate fuel E D L W Root Systemd name Cid Path Console PidFile s = Ret EXIT_FAILURE t"
    and server: "\<And>c. WritePipe c \<notin> set (calls t)"
  shows "fs t = fs s \<or> node_of s (container_root Root Cid) = None \<and>
     (\<forall>q. if prefix (resolve (cwd s) (container_root Root Cid)) q then fs t q = None
          else fs s q \<noteq> None \<and> others_spare E q \<longrightarrow> fs t q = fs s q)"
  using run
proof (cases rule: doCreate_stages)
  case refused
  have "tick t = Suc (tick s)"
    using refused(1) by (auto simp: create_directories_def pop_def Let_def split: if_splits)
  with refused law(3) show ?thesis
    by (auto simp: create_directories_def pop_def Let_def split: if_splits)
next
  case (kept u)
  note new = create_directories_new [OF kept(1) law(2)]
  then have "container_root Root Cid \<noteq> []" by simp
  from create_container_Ret [OF law(1) this kept(2)] server show ?thesis
    by (auto simp: EXIT_SUCCESS_def EXIT_FAILURE_def)
next
  case (removed u v b)
  let ?p = "container_root Root Cid"
  note new = create_directories_new [OF removed(1) law(2)]
  note plain = container_root_plain [OF Cid]
  have u: "cwd u = cwd s" "fs s q \<noteq> None \<Longrightarrow> fs u q = fs s q" for q
    using create_directories_adds [OF removed(1)] by auto
  have v: "cwd v = cwd s" "\<not> prefix (resolve (cwd s) ?p) q \<Longrightarrow> others_spare E q \<Longrightarrow> fs v q = fs u q" for q
    using create_container_Ret [OF law(1) plain(1) removed(2)] u(1) by auto
  have "b" using remove_all_result [OF removed(3)] law(3) by simp
  with removed(3) have "fs t = (\<lambda>q. if prefix (resolve (cwd s) ?p) q \<and> q \<noteq> [] then None else fs v q)"
    using remove_all_Ret_True [of E ?p v t] plain v(1) by simp
  moreover have "resolve (cwd s) ?p \<noteq> []"
    using new law(2) by (auto simp: node_of_def tree_wf_def)
  then have "\<not> prefix (resolve (cwd s) ?p) []" by simp
  ultimately show ?thesis using new u v by auto
qed

end
