(* ===== verification/Confinement.thy ===== *)
theory Confinement
  imports Command_Laws
begin

text \<open>
  What the commands as a whole respect. A relation between states that holds across the calls, the
  file writers and the operations of WasmEdge holds across \<^verbatim>\<open>doRunInternal\<close> and \<^verbatim>\<open>main\<close> (locale
  \<open>command_relation\<close>). It is used for three relations: for the tree staying a tree, for the places that no
  command touches, and for the pipe between the daemon and its caller.
\<close>

section \<open>Lifting a relation to the commands\<close>

text \<open>Only the values that the first program delivers matter to the second.\<close>

context os_relation
begin

lemma bind_on:
  assumes "obeys R m" "\<And>s a t. m s = Ret a t \<Longrightarrow> obeys R (f a)"
  shows "obeys R (bindP m f)"
  unfolding obeys_def
proof
  fix s
  have "case m s of Ret a t \<Rightarrow> R s t | Abort t \<Rightarrow> R s t | Exit c t \<Rightarrow> R s t | _ \<Rightarrow> True"
    using assms(1) by (simp add: obeys_def)
  moreover have "case f a s' of Ret a t \<Rightarrow> R s' t | Abort t \<Rightarrow> R s' t | Exit c t \<Rightarrow> R s' t | _ \<Rightarrow> True"
    if "m s = Ret a s'" for a s'
    using assms(2) [OF that] by (simp add: obeys_def)
  ultimately show "case bindP m f s of Ret a t \<Rightarrow> R s t | Abort t \<Rightarrow> R s t | Exit c t \<Rightarrow> R s t | _ \<Rightarrow> True"
    by (auto simp: bindP_def intro: trans split: result.splits)
qed

end

text \<open>A step that changes neither the tree nor the pipe.\<close>

definition no_report :: "'w os \<Rightarrow> 'w os \<Rightarrow> bool" where
  "no_report s t \<longleftrightarrow> (\<exists>cs. calls t = calls s @ cs \<and> (\<forall>c. WritePipe c \<notin> set cs))"

definition inert :: "'w os \<Rightarrow> 'w os \<Rightarrow> bool" where
  "inert s t \<longleftrightarrow> untouched s t \<and> no_report s t"

lemma no_report_same: "calls t = calls s \<Longrightarrow> no_report s t"
  by (simp add: no_report_def)

lemma inert_calls:
  "(\<And>x. c \<noteq> WritePipe x) \<Longrightarrow> obeys inert (sys E c)" "obeys inert (last_data E)" "obeys inert (time_now E)"
  "obeys inert (print_out x)" "obeys inert (is_regular_file E p)" "obeys inert (is_regular_file_throwing E p)"
  "obeys inert (is_directory E p)" "obeys inert (file_size E p)" "obeys inert (open_in E p)"
  "obeys inert (read_bytes E x n)" "obeys inert (open_fd E p)" "obeys inert (enter_cgroup fuel L Cid st)"
  "obeys inert (load_state E D F name)"
  by (auto simp: obeys_def inert_def untouched_def no_report_def os_defs enter_cgroup_def load_state_def
      split: option.split outcome.split)

locale command_relation = os_relation R
  for R :: "'w os \<Rightarrow> 'w os \<Rightarrow> bool" +
  fixes E :: env and W :: "'w wasmedge"
  assumes inert_step: "inert s t \<Longrightarrow> R s t"
    and directories: "obeys R (create_directories E p)"
    and engine: "obeys R (loadFile W p)" "obeys R (compile W d p)" "obeys R (vm_loadWasm W cfg p)"
      "obeys R (vm_validate W cfg)" "obeys R (vm_instantiate W cfg)" "obeys R (vm_execute W cfg p)"
begin

lemma quiet: "obeys inert m \<Longrightarrow> obeys R m"
  by (erule obeys_mono) (rule inert_step)

lemmas calls = inert_calls [THEN quiet]

lemma compile_module: "obeys R (compile_module E W d p)"
  unfolding compile_module_def compiler_child_def
  by (intro bind cond return ub exit calls directories engine) simp_all

lemma cached_module: "obeys R (cached_module E W Cid p)"
  unfolding cached_module_def Let_def by (intro bind opt cond return calls engine compile_module)

lemma vm_start: "obeys R (vm_start W cfg p)"
  unfolding vm_start_def by (intro bind cond return engine)

lemma collect: "obeys R (collect_namespaces E ds fl :: (ns_flags option, 'w) prog)"
proof (induction ds arbitrary: fl)
  case (Cons d ds)
  have "obeys R (UpdateFlags E F P fl :: (ns_flags option, 'w) prog)" for F P fl
    unfolding UpdateFlags_def by (intro cond bind return calls)
  then have "obeys R (bindP (UpdateFlags E F (NsPath d) fl) (\<lambda>r. case r of None \<Rightarrow> returnP None
      | Some fl' \<Rightarrow> (collect_namespaces E ds fl' :: (ns_flags option, 'w) prog)))" for F
    by (intro bind opt return Cons)
  with Cons show ?case by (simp add: ub split: option.split)
qed (simp add: return)

lemma join: "obeys R (join_namespaces E js b)"
proof (induction js arbitrary: b)
  case (Cons j js)
  then show ?case by (cases j) (auto intro!: bind calls)
qed (simp add: return)

lemma namespaces: "obeys R (enter_namespaces E ds)"
  unfolding enter_namespaces_def
  by (intro bind opt return collect) (auto intro!: bind return cond calls join split: prod.split)

lemma await: "obeys R (await_start E fd)"
  unfolding await_start_def by (intro cond bind return ub calls) simp_all

lemma run_to_end:
  assumes "\<And>c. obeys R (atomicUpdateFile fuel E F c)"
  shows "obeys R (run_to_end fuel E W cfg st F)"
  unfolding run_to_end_def Let_def write_state_def by (intro bind cond return calls engine assms)

lemma container_process:
  assumes "\<And>c. obeys R (atomicUpdateFile fuel E F c)" "\<And>c. obeys R (atomicCreateAndWriteFile fuel E P c)"
  shows "obeys R (container_process fuel E L W cfg Cid P st F fd)"
  unfolding container_process_def Let_def write_state_def write_pid_file_def
  by (intro bind cond return calls namespaces await run_to_end assms)

lemma runs:
  assumes "\<And>c. obeys R (atomicUpdateFile fuel E F c)" "\<And>c. obeys R (atomicCreateAndWriteFile fuel E P c)"
  shows "obeys R (doRunInternal fuel E L W Cid P st F fd)"
  unfolding doRunInternal_def Let_def
  by (intro bind opt cond return ub cached_module vm_start container_process assms) (intro calls, simp)

end

text \<open>With the pipe, the waiting and the removal, the relation lifts to all commands.\<close>

locale main_relation = command_relation R E W
  for R :: "'w os \<Rightarrow> 'w os \<Rightarrow> bool" and E :: env and W :: "'w wasmedge" +
  assumes pipe: "obeys R (sys E (WritePipe c))"
    and waits: "obeys R (block E x)"
    and clears: "obeys R (cache_clear W Cid)"
begin

lemma console: "obeys R (open_console E path)"
  unfolding open_console_def by (intro cond bind return calls) simp_all

lemma fork:
  assumes "\<And>c. obeys R (atomicUpdateFile fuel E F c)" "\<And>c. obeys R (atomicCreateAndWriteFile fuel E P c)"
  shows "obeys R (create_fork fuel E L W Cid P st F fd path)"
  unfolding create_fork_def create_child_def create_daemon_def create_server_def
  by (intro bind opt cond return exit runs console pipe waits assms calls) simp_all

lemma container:
  assumes "\<And>c. obeys R (atomicUpdateFile fuel E (state_file Root Cid) c)"
    "\<And>c. obeys R (atomicCreateAndWriteFile fuel E (state_file Root Cid) c)"
    "\<And>c. obeys R (atomicCreateAndWriteFile fuel E PidFile c)" "obeys R (mkfifo E (fifo_file Root Cid))"
  shows "obeys R (create_container fuel E D L W Root Systemd name Cid Path Console PidFile)"
proof -
  have "obeys R (bindP (atomicCreateAndWriteFile fuel E (state_file Root Cid) (print st)) (\<lambda>ok.
             if \<not> ok then returnP (EXIT_FAILURE, False) else
           bindP (mkfifo E (fifo_file Root Cid)) (\<lambda>Ret.
             if Ret < 0 then returnP (EXIT_FAILURE, False) else
           bindP (open_fd E (fifo_file Root Cid)) (\<lambda>ExecFifoFd.
             if ExecFifoFd < 0 then returnP (EXIT_FAILURE, False) else
           bindP (create_fork fuel E L W Cid PidFile st (state_file Root Cid) ExecFifoFd Console) (\<lambda>r.
           bindP (sys E (CloseFd ExecFifoFd)) (\<lambda>_. returnP r))))))" for st
    by (intro bind cond return assms fork calls) simp_all
  then show ?thesis
    unfolding obeys_def create_container_def Let_def by (auto simp: refl split: outcome.split)
qed

lemma creates:
  assumes "\<And>c. obeys R (atomicUpdateFile fuel E (state_file Root Cid) c)"
    "\<And>c. obeys R (atomicCreateAndWriteFile fuel E (state_file Root Cid) c)"
    "\<And>c. obeys R (atomicCreateAndWriteFile fuel E PidFile c)" "obeys R (mkfifo E (fifo_file Root Cid))"
    "obeys R (remove_all E (container_root Root Cid))"
  shows "obeys R (doCreate fuel E D L W Root Systemd name Cid Path Console PidFile)"
proof -
  have "obeys R (case r of (code, Success) \<Rightarrow> if Success then returnP code
       else bindP (remove_all E (container_root Root Cid)) (\<lambda>_. returnP code))" for r :: "int \<times> bool"
    using assms(5) by (cases r) (auto intro!: bind return)
  with container [OF assms(1-4)] show ?thesis
    unfolding doCreate_def by (intro bind cond return directories)
qed

lemma other_commands:
  "obeys R (remove_all E (container_root Root Cid)) \<Longrightarrow> obeys R (doDelete E W Root Cid Force)"
  "obeys R (unlink E (fifo_file Root Cid)) \<Longrightarrow> obeys R (doStart E D Root name Cid)"
  "obeys R (doKill E D Root name Cid Sig)" "obeys R (doState E Root Cid)"
  unfolding doDelete_def doStart_def doKill_def doState_def readAll_def
  by (intro bind cond opt return ub clears calls; simp)+

lemma main:
  assumes "\<And>c. obeys R (atomicUpdateFile fuel E (state_file (po_root o1) (po_id o1)) c)"
    "\<And>c. obeys R (atomicCreateAndWriteFile fuel E (state_file (po_root o1) (po_id o1)) c)"
    "\<And>c. obeys R (atomicCreateAndWriteFile fuel E (po_pid_file o1) c)"
    "obeys R (mkfifo E (fifo_file (po_root o1) (po_id o1)))" "obeys R (unlink E (fifo_file (po_root o1) (po_id o1)))"
    "obeys R (remove_all E (container_root (po_root o1) (po_id o1)))"
  shows "obeys R (main fuel E D L W Argv0 version o1)"
  unfolding main_def Let_def
  by (intro cond bind return calls creates other_commands assms)

end

section \<open>The tree stays a tree\<close>

text \<open>What is assumed of WasmEdge and of other processes: they leave the file tree a tree.\<close>

definition engine_tree :: "'w wasmedge \<Rightarrow> bool" where
  "engine_tree W \<longleftrightarrow>
     (\<forall>p. obeys tree_kept (loadFile W p)) \<and> (\<forall>d p. obeys tree_kept (compile W d p)) \<and>
     (\<forall>cfg p. obeys tree_kept (vm_loadWasm W cfg p)) \<and> (\<forall>cfg. obeys tree_kept (vm_validate W cfg)) \<and>
     (\<forall>cfg. obeys tree_kept (vm_instantiate W cfg)) \<and> (\<forall>cfg f. obeys tree_kept (vm_execute W cfg f)) \<and>
     (\<forall>c. obeys tree_kept (cache_clear W c))"

definition tree_under :: "env \<Rightarrow> 'w wasmedge \<Rightarrow> 'w os \<Rightarrow> 'w os \<Rightarrow> bool" where
  "tree_under E W s t \<longleftrightarrow> (engine_tree W \<and> others_tree E \<longrightarrow> tree_kept s t)"

lemma obeys_tree_under: "(engine_tree W \<Longrightarrow> others_tree E \<Longrightarrow> obeys tree_kept m) \<Longrightarrow> obeys (tree_under E W) m"
  by (auto simp: obeys_def tree_under_def split: result.splits)

interpretation trees: main_relation "tree_under E W" E W for E W
proof
  show "tree_under E W s s" for s by (simp add: tree_under_def tree.refl)
  show "tree_under E W s t \<Longrightarrow> tree_under E W t u \<Longrightarrow> tree_under E W s u" for s t u
    by (auto simp: tree_under_def intro: tree.trans)
  show "inert s t \<Longrightarrow> tree_under E W s t" for s t
    by (simp add: inert_def untouched_def tree_under_def tree_same)
qed (rule obeys_tree_under, (rule tree_create_directories | erule tree_block | rule tree_queries [OF quiet_calls(1)] |
    simp add: engine_tree_def))+

lemma main_tree:
  assumes "engine_tree W" "others_tree E"
  shows "obeys tree_kept (main fuel E D L W Argv0 version opts)"
proof -
  have "obeys (tree_under E W) (main fuel E D L W Argv0 version opts)"
    by (intro trees.main obeys_tree_under create.put_tree update.put_tree tree_writes tree_remove_all)
  then show ?thesis by (rule obeys_mono) (simp add: tree_under_def assms)
qed

section \<open>Places that are not touched\<close>

text \<open>An existing file at \<open>q\<close> is left alone, as long as the process is in the directory \<open>c\<close>.\<close>

definition spared :: "string list \<Rightarrow> string list \<Rightarrow> 'w os \<Rightarrow> 'w os \<Rightarrow> bool" where
  "spared c q s t \<longleftrightarrow> (cwd s = c \<and> fs s q \<noteq> None \<longrightarrow> shows_only q {} s t)"

text \<open>What is assumed of WasmEdge: none of its operations writes to the place.\<close>

definition engine_spares :: "'w wasmedge \<Rightarrow> string list \<Rightarrow> bool" where
  "engine_spares W q \<longleftrightarrow> engine_confined W q \<and>
     (\<forall>d p. leaves_alone q (compile W d p)) \<and> (\<forall>c. leaves_alone q (cache_clear W c))"

definition spared_under :: "env \<Rightarrow> 'w wasmedge \<Rightarrow> string list \<Rightarrow> string list \<Rightarrow> 'w os \<Rightarrow> 'w os \<Rightarrow> bool" where
  "spared_under E W c q s t \<longleftrightarrow> (engine_spares W q \<and> others_spare E q \<longrightarrow> spared c q s t)"

lemma spared_trans: "spared c q s t \<Longrightarrow> spared c q t u \<Longrightarrow> spared c q s u"
  unfolding spared_def by (auto simp: shows_only_def)

interpretation sparing: os_relation "spared c q" for c q
  by unfold_locales (simp add: spared_def seen.refl, erule spared_trans)

lemma obeys_spared_under:
  "(engine_spares W q \<Longrightarrow> others_spare E q \<Longrightarrow> obeys (spared c q) m) \<Longrightarrow> obeys (spared_under E W c q) m"
  by (auto simp: obeys_def spared_under_def split: result.splits)

lemma spared_shows: "obeys (shows_only q {}) m \<Longrightarrow> obeys (spared c q) m"
  by (erule obeys_mono) (simp add: spared_def)

lemma spared_directories: "obeys (spared c q) (create_directories E p)"
proof (rule obeysI)
  fix s :: "'w os" and b t assume "create_directories E p s = Ret b t"
  from seen_create_directories [OF this, of q] show "spared c q s t" by (auto simp: spared_def)
qed (auto simp: create_directories_def pop_def Let_def split: if_splits)

interpretation spares: main_relation "spared_under E W c q" E W for E W c q
proof
  show "spared_under E W c q s s" for s by (simp add: spared_under_def sparing.refl)
  show "spared_under E W c q s t \<Longrightarrow> spared_under E W c q t u \<Longrightarrow> spared_under E W c q s u" for s t u
    by (auto simp: spared_under_def intro: sparing.trans)
  show "inert s t \<Longrightarrow> spared_under E W c q s t" for s t
    by (simp add: inert_def untouched_def spared_under_def spared_def shows_same)
qed (rule obeys_spared_under, (rule spared_directories | rule spared_shows, (erule seen_block | rule seen_queries [OF quiet_calls(1)] |
    simp add: engine_spares_def engine_confined_def leaves_alone_def)))+

text \<open>The calls on files, at other places.\<close>

lemma spared_calls:
  assumes "resolve c p \<noteq> q"
  shows "obeys (spared c q) (open_app E p)" "obeys (spared c q) (open_trunc E p)"
    "obeys (spared c q) (write_stream E p x)" "obeys (spared c q) (remove_file E p)"
    "obeys (spared c q) (unlink E p)" "obeys (spared c q) (mkfifo E p)"
    "resolve c p' \<noteq> q \<Longrightarrow> obeys (spared c q) (rename E p p')"
  by (rule obeysI; use assms in \<open>auto simp: spared_def shows_only_def os_defs set_node_def set_tree_def
      split: if_splits option.splits node.splits\<close>)+

lemma spared_remove_all:
  assumes "\<not> prefix (resolve c p) q" shows "obeys (spared c q) (remove_all E p)"
proof -
  have "\<not> list_ex (\<lambda>d. prefix (resolve c p) d \<and> d \<noteq> [] \<and> purged E k d) (prefixes q)" for k
    using assms by (auto simp: list_ex_iff dest: prefix_order.trans)
  with assms show ?thesis
    by (auto simp: obeys_def spared_def shows_only_def remove_all_def pop_def Let_def set_tree_def)
qed

lemma spared_temp:
  assumes "foreign E c p q" shows "obeys (spared c q) (getTempFilename n E p :: (string, 'w) prog)"
proof (induction n)
  case (Suc n)
  have "obeys (spared c q) (random_suffix E :: (string, 'w) prog)"
    by (simp add: obeys_def random_suffix_def sparing.refl)
  then show ?case
    unfolding getTempFilename.simps
  proof (rule sparing.bind_on)
    fix s :: "'w os" and a t assume "random_suffix E s = Ret a t"
    then have "resolve c (p @ a) \<noteq> q" using assms by (auto simp: random_suffix_def foreign_def)
    then show "obeys (spared c q) (let Path = p @ a in bindP (open_app E Path) (\<lambda>pos.
        if pos = 0 then returnP Path else (getTempFilename n E p :: (string, 'w) prog)))"
      unfolding Let_def by (intro sparing.bind sparing.cond sparing.return spared_calls Suc)
  qed
qed (simp add: obeys_def)

lemma spared_write:
  assumes "apart E c p q" shows "obeys (spared c q) (write_and_rename fuel E p x :: (bool, 'w) prog)"
  unfolding write_and_rename_def
proof (rule sparing.bind_on)
  show "obeys (spared c q) (getTempFilename fuel E p)" using assms by (simp add: apart_def spared_temp)
  fix s :: "'w os" and tmp t assume "getTempFilename fuel E p s = Ret tmp t"
  from getTempFilename_Ret [OF this] obtain k where "tmp = p @ draw E k" by blast
  then have q: "resolve c tmp \<noteq> q" "resolve c p \<noteq> q" using assms by (auto simp: apart_def foreign_def)
  show "obeys (spared c q) (bindP (open_trunc E tmp) (\<lambda>Stream. if \<not> Stream then returnP False else
     bindP (write_stream E tmp x) (\<lambda>_. bindP (rename E tmp p) (\<lambda>ok. if ok then returnP True
       else bindP (remove_file E tmp) (\<lambda>_. returnP False)))) :: (bool, 'w) prog)"
    by (intro sparing.bind sparing.cond sparing.return spared_calls q)
qed

lemma spared_store:
  assumes "apart E c p q"
  shows "obeys (spared c q) (atomicCreateAndWriteFile fuel E p x)" "obeys (spared c q) (atomicUpdateFile fuel E p x)"
  unfolding atomicCreateAndWriteFile_def atomicUpdateFile_def
  by (intro sparing.bind sparing.cond sparing.return spared_write assms spared_shows seen_queries quiet_calls)+

lemma main_spares:
  assumes "suffix_law E" "engine_spares W q" "others_spare E q" "container_root (po_root o1) (po_id o1) \<noteq> []"
    "\<not> prefix (resolve c (container_root (po_root o1) (po_id o1))) q" "apart E c (po_pid_file o1) q"
  shows "obeys (spared c q) (main fuel E D L W Argv0 version o1)"
proof -
  note files = container_files [OF assms(4)]
  have "apart E c (state_file (po_root o1) (po_id o1)) q" "resolve c (fifo_file (po_root o1) (po_id o1)) \<noteq> q"
    using assms(5) files state_temp_below [OF assms(1,4,5)] by (auto simp: apart_def)
  with assms(5,6) have "obeys (spared_under E W c q) (main fuel E D L W Argv0 version o1)"
    by (intro spares.main obeys_spared_under spared_store spared_calls spared_remove_all)
  then show ?thesis by (rule obeys_mono) (simp add: spared_under_def assms)
qed

section \<open>The pipe between the daemon and its caller\<close>

text \<open>What is assumed of WasmEdge: it does not write to the pipe.\<close>

definition engine_silent :: "'w wasmedge \<Rightarrow> bool" where
  "engine_silent W \<longleftrightarrow>
     (\<forall>p. obeys no_report (loadFile W p)) \<and> (\<forall>d p. obeys no_report (compile W d p)) \<and>
     (\<forall>cfg p. obeys no_report (vm_loadWasm W cfg p)) \<and> (\<forall>cfg. obeys no_report (vm_validate W cfg)) \<and>
     (\<forall>cfg. obeys no_report (vm_instantiate W cfg)) \<and> (\<forall>cfg f. obeys no_report (vm_execute W cfg f))"

definition silent_under :: "'w wasmedge \<Rightarrow> 'w os \<Rightarrow> 'w os \<Rightarrow> bool" where
  "silent_under W s t \<longleftrightarrow> (engine_silent W \<longrightarrow> no_report s t)"

interpretation silence: os_relation no_report
proof
  show "no_report s s" for s :: "'w os" by (rule no_report_same) simp
  show "no_report s t \<Longrightarrow> no_report t u \<Longrightarrow> no_report s u" for s t u :: "'w os"
    unfolding no_report_def by (elim exE conjE) (auto intro!: exI)
qed

lemma obeys_silent_under: "(engine_silent W \<Longrightarrow> obeys no_report m) \<Longrightarrow> obeys (silent_under W) m"
  by (auto simp: obeys_def silent_under_def split: result.splits)

lemma make_dirs_silent: "obeys no_report (create_directories E p)"
  by (auto simp: obeys_def create_directories_def pop_def Let_def intro: no_report_same)

interpretation silent: command_relation "silent_under W" E W for E W
proof
  show "silent_under W s s" for s by (simp add: silent_under_def silence.refl)
  show "silent_under W s t \<Longrightarrow> silent_under W t u \<Longrightarrow> silent_under W s u" for s t u
    by (auto simp: silent_under_def intro: silence.trans)
  show "inert s t \<Longrightarrow> silent_under W s t" for s t by (simp add: inert_def silent_under_def)
qed (rule obeys_silent_under, (rule make_dirs_silent | simp add: engine_silent_def))+

lemma file_calls_silent:
  "obeys no_report (open_app E p)" "obeys no_report (open_trunc E p)" "obeys no_report (write_stream E p x)"
  "obeys no_report (remove_file E p)" "obeys no_report (rename E p p')" "obeys no_report (random_suffix E)"
  "obeys no_report (is_regular_file E p)"
  by (rule obeysI; rule no_report_same; auto simp: os_defs random_suffix_def set_node_def set_tree_def
      split: if_splits option.splits node.splits)+

lemma temp_silent: "obeys no_report (getTempFilename n E p)"
proof (induction n)
  case (Suc n)
  then show ?case
    unfolding getTempFilename.simps Let_def by (intro silence.bind silence.cond silence.return file_calls_silent)
qed (simp add: obeys_def)

lemma store_silent:
  "obeys no_report (atomicCreateAndWriteFile fuel E p x)" "obeys no_report (atomicUpdateFile fuel E p x)"
  unfolding atomicCreateAndWriteFile_def atomicUpdateFile_def write_and_rename_def
  by (intro silence.bind silence.cond silence.return file_calls_silent temp_silent)+

lemma run_silent: "engine_silent W \<Longrightarrow> obeys no_report (doRunInternal fuel E L W Cid P st F fd)"
proof -
  assume W: "engine_silent W"
  have "obeys (silent_under W) (doRunInternal fuel E L W Cid P st F fd)"
    by (intro silent.runs obeys_silent_under store_silent)
  then show ?thesis by (rule obeys_mono) (simp add: silent_under_def W)
qed

text \<open>The codes written to the pipe.\<close>

fun reports :: "os_call list \<Rightarrow> int list" where
  "reports [] = []"
| "reports (WritePipe c # cs) = c # reports cs"
| "reports (_ # cs) = reports cs"

lemma reports_append: "reports (cs @ ds) = reports cs @ reports ds"
  by (induction cs rule: reports.induct) auto

lemma reports_none: "(\<forall>c. WritePipe c \<notin> set cs) \<Longrightarrow> reports cs = []"
  by (induction cs rule: reports.induct) auto

lemma console_silent: "obeys no_report (open_console E path)"
  unfolding open_console_def
  by (intro silence.cond silence.bind silence.return; auto simp: obeys_def sys_def no_report_def)

text \<open>The daemon writes to the pipe exactly when it has a console and has run, and then the code once.\<close>

lemma daemon_reports:
  assumes "engine_silent W" "create_daemon fuel E L W Cid P st F fd path s = Ret (code, keep) t" "calls t = calls s @ cs"
  shows "if keep then \<exists>c u v. doRunInternal fuel E L W Cid P st F fd u = Ret c v \<and> reports cs = [c]
         else open_console E path s = Ret None t \<and> reports cs = []"
proof -
  from assms(2) obtain c s1 where o1: "open_console E path s = Ret c s1"
    and rest: "(case c of None \<Rightarrow> returnP (EXIT_FAILURE, False)
       | Some ConsoleFd \<Rightarrow>
     bindP (doRunInternal fuel E L W Cid P st F fd) (\<lambda>Code.
     bindP (sys E (WritePipe Code)) (\<lambda>_.
     bindP (sys E CloseWriteEnd) (\<lambda>_.
     bindP (if ConsoleFd \<ge> 0 then sys E (CloseFd ConsoleFd) else returnP 0) (\<lambda>_.
     returnP (EXIT_FAILURE, True)))))) s1 = Ret (code, keep) t"
    unfolding create_daemon_def by (auto simp: bindP_Ret_iff)
  from obeys_Ret [OF console_silent o1] obtain cs1 where cs1: "calls s1 = calls s @ cs1" "reports cs1 = []"
    by (auto simp: no_report_def reports_none)
  show ?thesis
  proof (cases c)
    case None
    with rest have "\<not> keep" "t = s1" by (simp_all add: returnP_def)
    with o1 None cs1 assms(3) show ?thesis by simp
  next
    case (Some ConsoleFd)
    with rest obtain Code v where r: "doRunInternal fuel E L W Cid P st F fd s1 = Ret Code v"
      and t: "keep" "\<exists>ds. calls t = calls v @ WritePipe Code # ds \<and> reports ds = []"
      by (auto simp: bindP_Ret_iff sys_def returnP_def split: if_splits)
    from obeys_Ret [OF run_silent [OF assms(1)] r] obtain cs2 where "calls v = calls s1 @ cs2" "reports cs2 = []"
      by (auto simp: no_report_def reports_none)
    with t cs1 assms(3) have "reports cs = [Code]" by (auto simp: reports_append)
    with r t show ?thesis by auto
  qed
qed

end
