(* ===== verification/Command_Properties.thy ===== *)
theory Command_Properties
  imports Confinement Demo_System
begin

text \<open>
  What is proved of the commands: whom \<^verbatim>\<open>kill\<close> reaches, that \<^verbatim>\<open>start\<close> works once, what \<^verbatim>\<open>state\<close> prints, what
  \<^verbatim>\<open>create\<close> and \<^verbatim>\<open>delete\<close> leave behind, which code the caller of \<^verbatim>\<open>create\<close> learns, and which files no command
  touches.
\<close>

section \<open>Examples\<close>

lemma demo_load:
  assumes "fs s [''b'', ''config.json''] = Some (Regular ''cfg'')" "cwd s = []" "unreadable E = (\<lambda>_. False)"
  shows "load demo_dom (seen_files E demo_dom s) ''/b'' ''config.json'' empty_bundle = Done sample_bundle"
proof -
  have "seen_files E demo_dom s ''/b/config.json'' = Inr sample_config"
    using assms by (simp add: seen_files_def parser_load_def node_of_def demo_dom_def demo_parse_def)
  moreover have "load_doc demo_dom (Inr sample_config) empty_bundle = Done sample_bundle"
    by (simp add: sample_config_def sample_bundle_def demo_dom_def sample_defs key_simps empty_bundle_def)
  ultimately show ?thesis by (simp add: load_def)
qed

lemma demo_state_load:
  assumes "printable st" "Status st \<noteq> Unknown" "BundlePath st = ''/b''"
    "fs s [''run'', ''c1'', ''state.json''] = shown st" "fs s [''b'', ''config.json''] = Some (Regular ''cfg'')" "cwd s = []"
  shows "state_load demo_dom (seen_files demo_env demo_dom s) ''/run/c1/state.json'' ''config.json'' default_state
    = Done (persisted st sample_bundle)"
  by (rule state_loads [OF demo_parses_flat demo_dom_laws assms(1,2)])
    (use assms demo_load [OF assms(5,6), of demo_env] in \<open>simp_all add: node_of_def shown_def\<close>)

text \<open>The system with a running container.\<close>

definition live_state :: State where
  "live_state = setRunning 1700000001 (setCreated 1700000000 4711 demo_state)"

definition live_os :: "nat os" where
  "live_os = demo_os\<lparr>fs := demo_tree([''run'', ''c1'', ''state.json''] := shown live_state)\<rparr>"

lemma live_simps [simp]:
  "fs live_os = demo_tree([''run'', ''c1'', ''state.json''] := shown live_state)" "cwd live_os = []" "tick live_os = 0"
  "calls live_os = []" "Status live_state = Running" "Pid live_state = 4711" "BundlePath live_state = ''/b''"
  by (simp_all add: live_os_def live_state_def transition_defs)

lemma live_printable: "printable live_state"
  unfolding live_state_def
  by (intro printable_transitions demo_printable) (simp add: in_c_range_def)

lemma demo_tree_wf: "tree_wf demo_tree"
proof -
  have "demo_tree q = Some Dir" if "demo_tree (q @ [n]) \<noteq> None" for q n
  proof -
    from that have "q @ [n] \<in> fst ` set [([], Dir), ([''run''], Dir), ([''run'', ''c1''], Dir),
      ([''run'', ''c1'', ''state.json''], Regular (print demo_state)), ([''run'', ''c1'', ''exec.fifo''], Fifo),
      ([''b''], Dir), ([''b'', ''config.json''], Regular ''cfg''),
      ([''cache''], Dir), ([''cache'', ''m.so''], Regular ''so'')]"
      unfolding demo_tree_def by (metis map_of_eq_None_iff)
    then have "q \<in> {[], [''run''], [''run'', ''c1''], [''b''], [''cache'']}"
      by (auto simp: append_eq_Cons_conv)
    then show ?thesis by (auto simp: demo_tree_def)
  qed
  then show ?thesis by (simp add: tree_wf_def) (simp add: demo_tree_def)
qed

section \<open>\<^verbatim>\<open>kill\<close>\<close>

text \<open>
  C15. \<^verbatim>\<open>kill\<close> sends at most one signal, and if it sends one, then the number the argument denotes, to the
  non-negative pid that the state file records for a created or running container. It reports success
  exactly if the system call does. It never touches a file, and in all other cases sends nothing.
\<close>

theorem kill_only_live:
  assumes "doKill E D Root ConfigFileName Cid SignalName s = Ret code t"
  shows "fs t = fs s \<and> (calls t = calls s \<and> code = EXIT_FAILURE \<or>
    (\<exists>n st. parseSignal SignalName = Some n \<and> 0 \<le> n \<and>
       state_load D (seen_files E D s) (state_file Root Cid) ConfigFileName default_state = Done st \<and>
       (Status st = Created \<or> Status st = Running) \<and> 0 \<le> Pid st \<and>
       calls t = calls s @ [Kill (Pid st) n] \<and>
       code = (if ret E (Suc (tick s)) = 0 then EXIT_SUCCESS else EXIT_FAILURE)))"
  using doKill_calls [OF assms] obeys_Ret [OF doKill_quiet assms] by (simp add: untouched_def)

lemma parse_TERM: "parseSignal ''TERM'' = Some 15"
  by code_simp

lemma live_load:
  "state_load demo_dom (seen_files demo_env demo_dom live_os) ''/run/c1/state.json'' ''config.json'' default_state
    = Done (persisted live_state sample_bundle)"
  by (rule demo_state_load [OF live_printable]) (simp_all add: demo_tree_def)

lemma live_kill:
  "\<exists>t. doKill demo_env demo_dom ''/run'' ''config.json'' ''c1'' ''TERM'' live_os = Ret EXIT_SUCCESS t \<and> calls t \<noteq> []"
  using doKill_exact [of demo_dom demo_env live_os "''/run''" "''c1''" "''config.json''" live_state sample_bundle
      "''TERM''" 15] live_load parse_TERM
  by (simp add: is_regular_def node_of_def shown_def)

theorem kill_only_live_witness:
  "\<exists>t. \<exists>st :: State. doKill demo_env demo_dom ''/run'' ''config.json'' ''c1'' ''TERM'' live_os = Ret EXIT_SUCCESS t \<and>
     calls t = [Kill (Pid st) 15] \<and> Status st = Running"
proof -
  from live_kill obtain t where t: "doKill demo_env demo_dom ''/run'' ''config.json'' ''c1'' ''TERM'' live_os = Ret EXIT_SUCCESS t"
    and c: "calls t \<noteq> []" by blast
  from kill_only_live [OF t] c parse_TERM live_load obtain st where "calls t = [Kill (Pid st) 15]"
    "st = persisted live_state sample_bundle" by auto
  moreover have "Status (persisted live_state sample_bundle) = Running" by (simp add: persisted_def)
  ultimately show ?thesis using t by (intro exI [of _ t] exI [of _ st] conjI) simp_all
qed

text \<open>
  C9. End to end: if the state file is the one that another invocation printed for the state \<open>st\<close>, then
  \<^verbatim>\<open>kill\<close> signals the process \<^verbatim>\<open>Pid\<close> of \<open>st\<close> when the container is created or running, and otherwise sends
  nothing and fails.
\<close>

theorem kill_reaches_container:
  assumes "parses_flat D" "dom_laws D" "printable st" "Status st \<noteq> Unknown"
    "node_of s (state_file Root Cid) = Some (Regular (print st))" "\<not> unreadable E (state_file Root Cid)"
    "load D (seen_files E D s) (BundlePath st) ConfigFileName empty_bundle = Done b"
    "0 \<le> ret E (tick s)" "parseSignal SignalName = Some n" "0 \<le> n"
  shows "doKill E D Root ConfigFileName Cid SignalName s =
    (if (Status st = Created \<or> Status st = Running) \<and> 0 \<le> Pid st
     then Ret (if ret E (Suc (tick s)) = 0 then EXIT_SUCCESS else EXIT_FAILURE)
            (s\<lparr>tick := Suc (Suc (tick s)), calls := calls s @ [Kill (Pid st) n]\<rparr>)
     else Ret EXIT_FAILURE (s\<lparr>tick := Suc (tick s)\<rparr>))"
  by (rule doKill_exact [OF state_loads [OF assms(1-7)]]) (use assms in \<open>simp_all add: is_regular_def\<close>)

theorem kill_reaches_container_witness:
  "doKill demo_env demo_dom ''/run'' ''config.json'' ''c1'' ''TERM'' live_os =
     Ret EXIT_SUCCESS (live_os\<lparr>tick := 2, calls := [Kill 4711 15]\<rparr>) \<and>
   doKill demo_env demo_dom ''/run'' ''config.json'' ''c1'' ''TERM'' demo_os = Ret EXIT_FAILURE (demo_os\<lparr>tick := 1\<rparr>)"
proof
  have "load demo_dom (seen_files demo_env demo_dom live_os) (BundlePath live_state) ''config.json'' empty_bundle = Done sample_bundle"
    using demo_load [of live_os demo_env] by (simp add: demo_tree_def)
  from kill_reaches_container [OF demo_parses_flat demo_dom_laws live_printable _ _ _ this _ parse_TERM,
      of "''/run''" "''c1''"]
  show "doKill demo_env demo_dom ''/run'' ''config.json'' ''c1'' ''TERM'' live_os =
     Ret EXIT_SUCCESS (live_os\<lparr>tick := 2, calls := [Kill 4711 15]\<rparr>)"
    by (simp add: node_of_def shown_def numeral_2_eq_2)
  have "load demo_dom (seen_files demo_env demo_dom demo_os) (BundlePath demo_state) ''config.json'' empty_bundle = Done sample_bundle"
    using demo_load [of demo_os demo_env] by (simp add: demo_tree_def)
  from kill_reaches_container [OF demo_parses_flat demo_dom_laws demo_printable _ _ _ this _ parse_TERM,
      of "''/run''" "''c1''"]
  show "doKill demo_env demo_dom ''/run'' ''config.json'' ''c1'' ''TERM'' demo_os = Ret EXIT_FAILURE (demo_os\<lparr>tick := 1\<rparr>)"
    by (simp add: node_of_def demo_tree_def)
qed

section \<open>\<^verbatim>\<open>start\<close> and \<^verbatim>\<open>state\<close>\<close>

text \<open>
  C10. A container is started at most once. A successful \<^verbatim>\<open>start\<close> writes one byte to the fifo that
  \<^verbatim>\<open>create\<close> made and removes it, and nothing else in the tree; in any later state with these files,
  every \<^verbatim>\<open>start\<close> of the container fails and changes nothing.
\<close>

theorem start_at_most_once:
  assumes "doStart E D Root ConfigFileName Cid s = Ret EXIT_SUCCESS t"
  shows "node_of s (fifo_file Root Cid) \<noteq> None \<and>
    fs t = (fs s)(resolve (cwd s) (fifo_file Root Cid) := None) \<and>
    (\<exists>fd. calls t = calls s @ [OpenFd (fifo_file Root Cid), WriteFd fd 0, CloseFd fd, CloseFd fd]) \<and>
    (\<forall>E' u code v. fs u = fs t \<and> cwd u = cwd t \<and> doStart E' D Root ConfigFileName Cid u = Ret code v \<longrightarrow>
       code = EXIT_FAILURE \<and> fs v = fs u)"
proof -
  note S = doStart_success [OF assms]
  have "node_of u (fifo_file Root Cid) = None" if "fs u = fs t" "cwd u = cwd t" for u
    using that S by (auto simp: node_of_def)
  with doStart_refused S show ?thesis by blast
qed

lemma demo_loaded:
  "load_state demo_env demo_dom ''/run/c1/state.json'' ''config.json'' (demo_os\<lparr>tick := k\<rparr>) =
     Ret (Some (persisted demo_state sample_bundle)) (demo_os\<lparr>tick := k\<rparr>)"
  using demo_state_load [OF demo_printable, of demo_os]
  by (simp add: load_state_def demo_tree_def shown_def)

theorem start_at_most_once_witness:
  "\<exists>t. doStart demo_env demo_dom ''/run'' ''config.json'' ''c1'' demo_os = Ret EXIT_SUCCESS t \<and>
     fs t [''run'', ''c1'', ''exec.fifo''] = None \<and>
     (\<forall>code v. doStart demo_env demo_dom ''/run'' ''config.json'' ''c1'' t = Ret code v \<longrightarrow> code = EXIT_FAILURE)"
proof -
  have "\<exists>t. doStart demo_env demo_dom ''/run'' ''config.json'' ''c1'' demo_os = Ret EXIT_SUCCESS t"
    by (simp add: doStart_def bindP_def is_regular_file_eq is_regular_def node_of_def demo_tree_def demo_loaded open_fd_def
        sys_def unlink_def pop_def returnP_def)
  then obtain t where t: "doStart demo_env demo_dom ''/run'' ''config.json'' ''c1'' demo_os = Ret EXIT_SUCCESS t" by blast
  from start_at_most_once [OF t] t show ?thesis by auto
qed

text \<open>
  C23. When no call fails, the state file in the directory of the container is replaced, \<^verbatim>\<open>readAll\<close> then
  returns exactly what was written, and \<^verbatim>\<open>state\<close> prints it, followed by a line end; the rest of the
  tree has not changed.
\<close>

theorem update_then_state:
  assumes "calm E" "slot E s (container_root Root Cid) ''state.json'' (Some (Regular old))" "Content \<noteq> []"
  shows "\<exists>t. atomicUpdateFile (Suc fuel) E (state_file Root Cid) Content s = Ret True t \<and>
    fs t = (fs s)(resolve (cwd s) (state_file Root Cid) := Some (Regular Content)) \<and>
    (\<exists>n. readAll E (state_file Root Cid) t = Ret Content (t\<lparr>tick := n\<rparr>)) \<and>
    (\<exists>n. doState E Root Cid t = Ret EXIT_SUCCESS (t\<lparr>tick := n, cout := cout t @ Content @ [CHR 0x0A]\<rparr>))"
proof -
  let ?d = "container_root Root Cid" and ?F = "state_file Root Cid"
  from assms(2) have d: "?d \<noteq> []" "fs s (resolve (cwd s) ?d) = Some Dir" by (auto simp: slot_def)
  note files = container_files [OF d(1)]
  from slot_put(2) [OF assms(1,2)] obtain t where t: "atomicUpdateFile (Suc fuel) E ?F Content s = Ret True t"
    and p: "put_exactly (resolve (cwd s) ?F) Content s t" unfolding files(1) unfolding state_file_def by blast
  have r: "\<forall>k. \<not> ret E k < 0" using assms(1) by (simp add: calm_def)
  have node: "node_of (t\<lparr>tick := k\<rparr>) ?F = Some (Regular Content)" for k
    using p files by (simp add: node_of_def put_exactly_def)
  obtain n where n: "readAll E ?F t = Ret Content (t\<lparr>tick := n\<rparr>)"
    using readAll_calm [OF r, of t] node [of "tick t"] by auto
  obtain n' where n': "readAll E ?F (t\<lparr>tick := Suc (tick t)\<rparr>) = Ret Content (t\<lparr>tick := n'\<rparr>)"
    using readAll_calm [OF r node] by force
  have "node_of t ?d = Some Dir" using p d files by (simp add: node_of_def put_exactly_def)
  then have "doState E Root Cid t = Ret EXIT_SUCCESS (t\<lparr>tick := n', cout := cout t @ Content @ [CHR 0x0A]\<rparr>)"
    using r n' assms(3)
    by (simp add: doState_def bindP_def is_directory_def pop_def print_out_def returnP_def not_less)
  with t p n show ?thesis by (auto simp: put_exactly_def)
qed

theorem update_then_state_witness:
  "\<exists>t n. atomicUpdateFile 1 demo_env ''/run/c1/state.json'' ''new'' demo_os = Ret True t \<and>
     doState demo_env ''/run'' ''c1'' t = Ret EXIT_SUCCESS (t\<lparr>tick := n, cout := cout t @ ''new'' @ [CHR 0x0A]\<rparr>)"
  using update_then_state [OF demo_calm, of demo_os "''/run''" "''c1''" "print demo_state" "''new''" 0] demo_slots(1) by auto

section \<open>\<^verbatim>\<open>delete\<close>\<close>








section \<open>\<^verbatim>\<open>create\<close>\<close>

text \<open>
  C18. \<^verbatim>\<open>create\<close> with the id of an existing container fails at once and changes nothing: in particular
  the removal of the directory on failure does not strike the existing container.
\<close>

theorem create_refuses_existing:
  assumes "tree_wf (fs s)" "node_of s (container_root Root Cid) \<noteq> None"
  shows "doCreate fuel E D L W Root Systemd ConfigFileName Cid Path ConsoleSocket PidFile s =
    Ret EXIT_FAILURE (s\<lparr>tick := Suc (tick s)\<rparr>)"
  using assms by (rule create_refuses)

theorem create_refuses_existing_witness:
  "doCreate 5 demo_env demo_dom demo_bus demo_wasm ''/run'' False ''config.json'' ''c1'' ''/b'' [] ''/run/c1.pid'' demo_os =
     Ret EXIT_FAILURE (demo_os\<lparr>tick := 1\<rparr>)"
  using create_refuses_existing [of demo_os "''/run''" "''c1''"] demo_tree_wf
  by (simp add: node_of_def demo_tree_def)

text \<open>
  C12. If \<^verbatim>\<open>create\<close> reports success, there was nothing at the place of the container before, the bundle
  was loaded, and when the daemon was forked the state file of a container that is being created,
  with this bundle, and the fifo that \<^verbatim>\<open>start\<close> waits for were in place, and all that had existed before
  was unchanged. From then on the caller has not touched the tree: it is what the other processes made of it
  while the caller waited for its child and read from the pipe.
\<close>

theorem create_success_installs:
  assumes "suffix_law E" "full_writes E" "tree_wf (fs s)"
    "doCreate fuel E D L W Root Systemd ConfigFileName Cid Path ConsoleSocket PidFile s = Ret EXIT_SUCCESS t"
  shows "node_of s (container_root Root Cid) = None \<and>
    (\<exists>b u f k. create_directories E (container_root Root Cid) s = Ret True u \<and>
       load D (seen_files E D u) Path ConfigFileName empty_bundle = Done b \<and>
       f (resolve (cwd s) (state_file Root Cid)) =
         Some (Regular (print (setCreating (setSystemdCgroup Systemd ((new_state Cid Path)\<lparr>Config := b\<rparr>))))) \<and>
       f (resolve (cwd s) (fifo_file Root Cid)) = Some Fifo \<and> (\<forall>q. fs s q \<noteq> None \<longrightarrow> f q = fs s q) \<and>
       f \<in> moments s t \<and> fs t = others E (Suc k) (others E k f))"
proof -
  from doCreate_success [OF assms] obtain b u v where d: "node_of s (container_root Root Cid) = None"
    "create_directories E (container_root Root Cid) s = Ret True u"
    "load D (seen_files E D u) Path ConfigFileName empty_bundle = Done b"
    and n: "node_of v (state_file Root Cid) = shown (setCreating (setSystemdCgroup Systemd ((new_state Cid Path)\<lparr>Config := b\<rparr>)))"
    "node_of v (fifo_file Root Cid) = Some Fifo" "cwd v = cwd s"
    and v: "\<forall>q. fs s q \<noteq> None \<longrightarrow> fs v q = fs s q" "fs v \<in> moments s t" "waited E v t"
    by (elim conjE exE) (rule that, assumption+)
  from v(3) obtain k where k: "fs t = others E (Suc k) (others E k (fs v))" by (auto simp: waited_def)
  have "fs v (resolve (cwd s) (state_file Root Cid)) =
      Some (Regular (print (setCreating (setSystemdCgroup Systemd ((new_state Cid Path)\<lparr>Config := b\<rparr>)))))"
    "fs v (resolve (cwd s) (fifo_file Root Cid)) = Some Fifo"
    using n by (auto simp: node_of_def shown_def split: if_splits)
  with d v(1,2) k show ?thesis
    by - (rule conjI, assumption, rule exI [of _ b], rule exI [of _ u], rule exI [of _ "fs v"], rule exI [of _ k],
      intro conjI)
qed

definition caller_env :: "int \<Rightarrow> env" where
  "caller_env d = demo_env\<lparr>ret := \<lambda>_. 7, data := \<lambda>_. d\<rparr>"

text \<open>The caller's side of a \<^verbatim>\<open>create\<close> to which the daemon reports the code \<open>d\<close>.\<close>

lemma caller_simps [simp]:
  "ret (caller_env d) = (\<lambda>_. 7)" "data (caller_env d) = (\<lambda>_. d)" "draw (caller_env d) = (\<lambda>_. ''abcdef'')"
  "unreadable (caller_env d) = (\<lambda>_. False)" "others (caller_env d) = (\<lambda>_ f. f)"
  by (simp_all add: caller_env_def)

lemma caller_calm: "calm (caller_env d)"
  using demo_calm by (simp add: calm_def caller_env_def full_writes_def suffix_law_def)

lemma caller_names [simp]:
  "container_root ''/run'' ''c2'' = ''/run/c2''" "state_file ''/run'' ''c2'' = ''/run/c2/state.json''"
  "fifo_file ''/run'' ''c2'' = ''/run/c2/exec.fifo''" "resolve [] ''/run/c2'' = [''run'', ''c2'']"
  "resolve [] ''/run/c2/state.json'' = [''run'', ''c2'', ''state.json'']"
  "resolve [] ''/run/c2/exec.fifo'' = [''run'', ''c2'', ''exec.fifo'']"
  "path_append ''/run/c2'' ''state.json'' = ''/run/c2/state.json''"
  by (simp_all add: container_root_def state_file_def fifo_file_def path_append_def resolve_def components_def
      is_absolute_def)

lemma caller_create:
  "\<exists>t. doCreate 5 (caller_env d) demo_dom demo_bus demo_wasm ''/run'' False ''config.json'' ''c2'' ''/b'' [] [] demo_os =
     Ret (if d = 0 then EXIT_SUCCESS else EXIT_FAILURE) t \<and> (\<forall>c. WritePipe c \<notin> set (calls t))"
proof -
  let ?E = "caller_env d"
  define u where "u = make_dirs [[''run'', ''c2'']] (demo_os\<lparr>tick := Suc 0\<rparr>)"
  have fsu: "fs u = demo_tree([''run'', ''c2''] := Some Dir)" "cwd u = []" "calls u = []"
    by (simp_all add: u_def set_tree_def)
  have cd: "create_directories ?E ''/run/c2'' demo_os = Ret True u"
    by (simp add: create_directories_def pop_def Let_def missing_dirs_def demo_tree_def u_def)
  have cfg: "load demo_dom (seen_files ?E demo_dom u) ''/b'' ''config.json'' empty_bundle = Done sample_bundle"
    using demo_load [of u ?E] fsu by (simp add: demo_tree_def)
  define st where "st = setCreating (setSystemdCgroup False ((new_state ''c2'' ''/b'')\<lparr>Config := sample_bundle\<rparr>))"
  have lb: "loadBundle demo_dom (seen_files ?E demo_dom u) ''config.json'' (new_state ''c2'' ''/b'') =
      Done ((new_state ''c2'' ''/b'')\<lparr>Config := sample_bundle\<rparr>)"
    using cfg by (simp add: loadBundle_def new_state_def default_state_def)
  have "slot ?E u ''/run/c2'' ''state.json'' None"
    by (simp add: slot_def plain_name_def fsu demo_tree_def)
  from slot_put(1) [OF caller_calm this, of 4 "print st"] obtain s1 where
    w: "atomicCreateAndWriteFile 5 ?E ''/run/c2/state.json'' (print st) u = Ret True s1"
    and p: "fs s1 = (fs u)([''run'', ''c2'', ''state.json''] := Some (Regular (print st)))" "cwd s1 = []" "calls s1 = []"
    by (auto simp: fsu put_exactly_def)
  let ?fork = "create_fork 5 ?E demo_bus demo_wasm ''c2'' [] st ''/run/c2/state.json'' 7 []"
  let ?s2 = "set_node ''/run/c2/exec.fifo'' (Some Fifo) (s1\<lparr>tick := Suc (tick s1)\<rparr>)"
  have m: "mkfifo ?E ''/run/c2/exec.fifo'' s1 = Ret 0 ?s2"
    by (simp add: mkfifo_def pop_def node_of_def parent_is_dir_def p fsu demo_tree_def)
  have o1: "open_fd ?E ''/run/c2/exec.fifo'' ?s2 = Ret 7
      (?s2\<lparr>tick := Suc (tick ?s2), calls := [OpenFd ''/run/c2/exec.fifo'']\<rparr>)"
    by (simp add: open_fd_def sys_def node_of_def set_node_def set_tree_def p)
  have f: "\<exists>t. ?fork s = Ret (if d = 0 then (EXIT_SUCCESS, True) else (EXIT_FAILURE, False)) t \<and>
      (\<exists>cs. calls t = calls s @ cs \<and> (\<forall>c. WritePipe c \<notin> set cs))" for s
    by (simp add: create_fork_def create_server_def bindP_def sys_def block_def set_tree_def last_data_def returnP_def)
  obtain t1 cs where t1: "?fork (?s2\<lparr>tick := Suc (tick ?s2), calls := [OpenFd ''/run/c2/exec.fifo'']\<rparr>) =
      Ret (if d = 0 then (EXIT_SUCCESS, True) else (EXIT_FAILURE, False)) t1"
    and cs: "calls t1 = OpenFd ''/run/c2/exec.fifo'' # cs" "\<forall>c. WritePipe c \<notin> set cs"
    using f by fastforce
  let ?t = "t1\<lparr>tick := Suc (tick t1), calls := calls t1 @ [CloseFd 7]\<rparr>"
  have cc: "create_container 5 ?E demo_dom demo_bus demo_wasm ''/run'' False ''config.json'' ''c2'' ''/b'' [] [] u =
      Ret (if d = 0 then (EXIT_SUCCESS, True) else (EXIT_FAILURE, False)) ?t"
    using lb w m o1 t1 by (simp add: create_container_def Let_def st_def [symmetric] bindP_def sys_def returnP_def)
  have "\<exists>t. remove_all ?E ''/run/c2'' ?t = Ret True t \<and> calls t = calls ?t"
    by (simp add: remove_all_def pop_def Let_def set_tree_def dotted_def)
  then show ?thesis
    using cd cc cs by (auto simp: doCreate_def bindP_def returnP_def)
qed

theorem create_success_installs_witness:
  "\<exists>t. doCreate 5 (caller_env 0) demo_dom demo_bus demo_wasm ''/run'' False ''config.json'' ''c2'' ''/b'' [] [] demo_os =
      Ret EXIT_SUCCESS t \<and> fs t [''run'', ''c2'', ''exec.fifo''] = Some Fifo"
proof -
  from caller_create [of 0] obtain t where
    t: "doCreate 5 (caller_env 0) demo_dom demo_bus demo_wasm ''/run'' False ''config.json'' ''c2'' ''/b'' [] [] demo_os =
      Ret EXIT_SUCCESS t" by auto
  have "suffix_law (caller_env 0)" "full_writes (caller_env 0)" "tree_wf (fs demo_os)"
    using caller_calm [of 0] demo_tree_wf by (simp_all add: calm_def)
  from create_success_installs [OF this t] have "fs t [''run'', ''c2'', ''exec.fifo''] = Some Fifo" by auto
  with t show ?thesis by blast
qed

text \<open>
  C13. If \<^verbatim>\<open>create\<close> fails on the side of the caller (or of the first child), for whatever reason: a bundle
  that cannot be loaded, a failing write, pipe or fork, a failure reported by the daemon; and if the last call, the
  clean-up, did not fail, then nothing is left of the container. Either the tree is unchanged, or
  everything in the directory of the container is gone again and what existed elsewhere is as
  before, where other processes left it alone.
\<close>

theorem create_failure_clean:
  assumes "suffix_law E" "tree_wf (fs s)" "0 \<le> ret E (tick t - 1)" "plain_name Cid" "Root \<noteq> []"
    "doCreate fuel E D L W Root Systemd ConfigFileName Cid Path ConsoleSocket PidFile s = Ret EXIT_FAILURE t"
    "\<And>c. WritePipe c \<notin> set (calls t)"
  shows "fs t = fs s \<or> node_of s (container_root Root Cid) = None \<and>
     (\<forall>q. if prefix (resolve (cwd s) (container_root Root Cid)) q then fs t q = None
          else fs s q \<noteq> None \<and> others_spare E q \<longrightarrow> fs t q = fs s q)"
  using assms by (rule doCreate_failure)

theorem create_failure_clean_witness:
  "\<exists>t. doCreate 5 (caller_env 1) demo_dom demo_bus demo_wasm ''/run'' False ''config.json'' ''c2'' ''/b'' [] [] demo_os =
      Ret EXIT_FAILURE t \<and> fs t [''run'', ''c2'', ''state.json''] = None \<and> fs t [''b''] = Some Dir"
proof -
  from caller_create [of 1] obtain t where
    t: "doCreate 5 (caller_env 1) demo_dom demo_bus demo_wasm ''/run'' False ''config.json'' ''c2'' ''/b'' [] [] demo_os =
      Ret EXIT_FAILURE t" and c: "\<And>c. WritePipe c \<notin> set (calls t)" by auto
  have laws: "suffix_law (caller_env 1)" "tree_wf (fs demo_os)" "plain_name ''c2''"
    using caller_calm [of 1] demo_tree_wf by (simp_all add: calm_def plain_name_def)
  have "others_spare (caller_env 1) q" for q by (simp add: others_spare_def)
  with create_failure_clean [OF laws(1,2) _ laws(3) _ t c] have
    "fs t = demo_tree \<or> (\<forall>q. if prefix [''run'', ''c2''] q then fs t q = None
       else demo_tree q \<noteq> None \<longrightarrow> fs t q = demo_tree q)" by (auto split: if_splits)
  then have "fs t [''run'', ''c2'', ''state.json''] = None" "fs t [''b''] = Some Dir"
    by (auto simp: demo_tree_def dest: spec [of _ "[''run'', ''c2'', ''state.json'']"] spec [of _ "[''b'']"])
  with t show ?thesis by blast
qed





section \<open>All commands\<close>




end
