(* ===== verification/Spec2Isabelle.thy ===== *)
theory Spec2Isabelle
  imports Bundle_Properties State_Properties Signals Cgroup_Laws Runner_Properties Command_Properties
begin

text \<open>
  \<^bold>\<open>runw\<close> is an OCI container runtime for WebAssembly programs. One invocation runs one of the commands
  \<^verbatim>\<open>create\<close>, \<^verbatim>\<open>start\<close>, \<^verbatim>\<open>state\<close>, \<^verbatim>\<open>kill\<close> and \<^verbatim>\<open>delete\<close>; what connects the invocations are the files of a
  container, \<^verbatim>\<open>state.json\<close> and the fifo \<^verbatim>\<open>exec.fifo\<close> below \<^verbatim>\<open><root>/<id>\<close>, and the container process that
  \<^verbatim>\<open>create\<close> forks. This library models the program and proves what its parts promise each other.

  \<^bold>\<open>Parts and theories.\<close> Arrows of the import graph follow the calls of the program.

  \<^item> Prelude. \<open>Runw_Base\<close>: the outcome of a member function that fills an object in place (done,
    failed with the object half filled, undefined behaviour), loops over such functions, and the locales
    for a loop over the members of a JSON object. \<open>Runw_Text\<close>: the string and path functions of the
    standard libraries. \<open>Posix\<close>: the operating system (below).
  \<^item> Bundle configuration, \<^verbatim>\<open>src/include/bundle.h\<close> and \<^verbatim>\<open>src/src/bundle.cpp\<close>: \<open>Simdjson_DOM\<close> is the
    interface of the JSON library, \<open>Bundle_Config\<close> has the class as a record and one definition per lambda and
    per switch of \<^verbatim>\<open>Bundle::load\<close>. \<open>Bundle_Load\<close> shows that each switch on the first character is a table
    lookup; \<open>Bundle_Accept\<close> which documents are accepted; \<open>Bundle_Typed\<close> the type invariant, that stored integers
    have their C++ types; \<open>Bundle_Spec\<close> that the loader implements a declarative reading of the document.
  \<^item> Container state, \<^verbatim>\<open>src/include/state.h\<close> and \<^verbatim>\<open>src/src/state.cpp\<close>: \<open>Container_State\<close> (record, \<^verbatim>\<open>load\<close>,
    \<^verbatim>\<open>print\<close>, transitions), \<open>State_File\<close> (the printed text and its inverse), \<open>Json_Reader\<close> (an executable
    parser of flat objects, which shows that the hypotheses on the parser can be met).
  \<^item> sd-bus wrapper, \<^verbatim>\<open>src/include/sdbus.h\<close> and \<^verbatim>\<open>src/src/sdbus.cpp\<close>: \<open>Sdbus\<close>, over libsystemd as a function that
    answers calls, with a log of all calls. Cgroup, \<^verbatim>\<open>src/include/cgroup.h\<close> and \<^verbatim>\<open>src/src/cgroup.cpp\<close>: \<open>Cgroup\<close> and
    \<open>Cgroup_Laws\<close>.
  \<^item> \<^verbatim>\<open>src/src/runw.cpp\<close>: \<open>Signals\<close> (\<^verbatim>\<open>parseNumeric\<close>, \<^verbatim>\<open>parseSignal\<close>), \<open>Atomic_Files\<close> (\<^verbatim>\<open>getTempFilename\<close>, the two
    atomic writers, \<^verbatim>\<open>readAll\<close>), \<open>Runner\<close> (\<^verbatim>\<open>doRunInternal\<close>), \<open>Commands\<close> (\<^verbatim>\<open>doCreate\<close>, \<^verbatim>\<open>doDelete\<close>, \<^verbatim>\<open>doKill\<close>,
    \<^verbatim>\<open>doStart\<close>, \<^verbatim>\<open>doState\<close>, \<^verbatim>\<open>main\<close>).

  \<^bold>\<open>The operating system.\<close> A command is a function on the record \<open>os\<close> (file tree, working directory, log
  of calls, output, bus). Its result is a value with the new state, or undefined behaviour, the end of the
  process, or no end. The record \<open>env\<close> fixes what each call returns, indexed by a counter that every call
  advances. A statement for all environments is therefore one for every pattern of failing calls and
  for both sides of every \<^verbatim>\<open>fork\<close>. While \<^verbatim>\<open>create\<close> waits for its child and reads from the pipe, other
  processes may change the files; the field \<open>others\<close> of \<open>env\<close> says how. Every change of the tree is
  recorded; a statement about all entries is one about every moment at which another process looks at the files or the machine stops. The relations a
  program can keep from call to call (the tree stays a tree, a place shows only certain nodes, nothing is
  touched, nothing is written to the pipe) are instances of the locale \<open>os_relation\<close> in \<open>Posix_Laws\<close>, whose
  lemmas carry them through sequences, conditionals and options. Its extensions \<open>command_relation\<close> and
  \<open>main_relation\<close> in \<open>Confinement\<close> carry them through \<^verbatim>\<open>doRunInternal\<close> and \<^verbatim>\<open>main\<close> as a whole.

  \<^bold>\<open>What is shown.\<close>

  \<^item> \<open>Bundle_Properties\<close>: \<^verbatim>\<open>Bundle::load\<close> succeeds exactly on the documents of a schema, stores exactly what
    the declarative reading prescribes, ignores unknown members in every object, and has no undefined
    behaviour unless a key is empty; the gid mappings are taken for uid mappings.
  \<^item> \<open>State_Properties\<close>: a printed state is read back, after every transition with all that was recorded;
    status names and escapes are inverted, what is loaded is in range.
  \<^item> \<open>Signals\<close>: \<^verbatim>\<open>parseSignal\<close> equals a specification over the table of names, with its overflow and the
    bytes outside the domain of \<^verbatim>\<open>isdigit\<close>.
  \<^item> \<open>Cgroup_Laws\<close>: the wait for the systemd job returns; a success of \<^verbatim>\<open>CGroup::enter\<close> rests on a request and
    a signal of the same run; the order of bus calls on all paths; the names of scope and slice; what
    the buffered reader returns.
  \<^item> \<open>Atomic_Files\<close>, \<open>Runner_Laws\<close>, \<open>Runner_Returns\<close>, \<open>Namespaces\<close>, \<open>Lifecycle\<close>, stated in \<open>Runner_Properties\<close>: the
    two writers satisfy the locale \<open>atomic_store\<close>, so the target switches in one step or not at all; the
    state file shows at every moment a loadable state that the step relation \<open>life\<close> reaches; the recorded
    exit code is the one returned; the container is shown as created only after this run has entered its
    cgroup; the namespaces are entered with the right flags in the right order; the process comes to its end.
  \<^item> \<open>Command_Laws\<close> and \<open>Confinement\<close>, stated in \<open>Command_Properties\<close>: the exact effect of \<^verbatim>\<open>kill\<close>
    on a state file written by another invocation, at most one \<^verbatim>\<open>start\<close>, what \<^verbatim>\<open>create\<close> and \<^verbatim>\<open>delete\<close> leave behind on success and on
    failure, which code its caller learns from the daemon, what \<^verbatim>\<open>state\<close> prints, and that no command
    touches a file outside the directory of its container and the pid file.
  \<^item> \<open>Demo_System\<close> is a concrete system on which the theorems are instantiated.

  \<^bold>\<open>Parameters.\<close> simdjson, libsystemd, WasmEdge and the option parser are not part of the repository. They
  are arguments of the definitions. The hypotheses on simdjson are \<open>dom_laws\<close> with \<open>at_key_law\<close> and \<open>parses_flat\<close>
  (the DOM finds members, flat objects are parsed); \<open>keyed\<close> is one on the document, that no key is empty. On
  systemd it is \<open>job_removed\<close> (the end of the job is signalled). On WasmEdge they are \<open>engine_confined\<close> and
  \<open>leaves_alone\<close> (it does not write to the state file or outside its cache), \<open>program_ends\<close>, \<open>engine_tree\<close>,
  \<open>engine_spares\<close> and \<open>engine_silent\<close> (the tree stays a tree, a given file is left alone, nothing is
  written to the pipe of the daemon); on the other processes \<open>others_spare\<close> (a given file is left alone); on the
  pipe \<open>pipe_read\<close> (what is read is what was written, or the end of file). Of the standard library it is assumed
  that the random suffix consists of six letters (\<open>suffix_law\<close>) and, where said, that no write is cut short
  (\<open>full_writes\<close>) or no call fails (\<open>calm\<close>). The clock is assumed to stay in the range of \<^verbatim>\<open>struct tm\<close>.

  \<^bold>\<open>Fuel.\<close> Two loops of the sources may run forever: the search for a temporary name and the wait for the
  systemd job. They, and the buffered reader of the cgroup file, take fuel, and running out of it is the result \<open>Diverge\<close> or \<open>None\<close>. The theorems of
  return give the fuel: one round for a fresh name, as many rounds as the job takes, more fuel not
  changing the answer, and one read per block of the file and a last one. The endless search is a theorem as well.

  \<^bold>\<open>Not modelled.\<close> The log (spdlog), the descriptions of the command-line options and the parsing of
  arguments (WasmEdge's \<^verbatim>\<open>PO\<close> library); \<^verbatim>\<open>defines.h\<close> and \<^verbatim>\<open>config.h.in\<close>, which only hold macros for the
  build; the branches for Windows and Solaris, empty in the sources. Symbolic links and permissions
  are not part of the file tree, dot-dot is resolved lexically; what \<^verbatim>\<open>remove_all\<close> leaves of a directory named
  by a trailing dot or dot-dot is left open. Of two processes running at once it is stated what one of
  them shows to the other, at every moment, and what a waiting caller finds afterwards, not all
  interleavings of both.
\<close>

end
